(* ===== verification/P2P_Prelude.thy ===== *)
theory P2P_Prelude
  imports Complex_Main "HOL-Library.Word" "HOL-Library.Monad_Syntax"
begin

text \<open>
  Prelude of the verification library: the machine types of the Rust sources, the result type
  with Rust's \<open>?\<close> operator, state-passing procedures with early return, big- and little-endian
  byte encodings, the interfaces (locales) that several components share, and the generic list
  and word lemmas the component theories use.

  Integers are kept at their width (\<open>u8\<close>, \<open>u16\<close>, \<open>u32\<close>, \<open>u64\<close>). The workspace's
  release profile does not turn overflow checks on, so \<open>+\<close>, \<open>-\<close> and \<open>*\<close> wrap around
  exactly as they do on words; division by zero and out-of-range slices panic, which the models
  write out as an explicit value.
\<close>

section \<open>Machine types\<close>

type_synonym u8 = "8 word"
type_synonym u16 = "16 word"
type_synonym u32 = "32 word"
type_synonym u64 = "64 word"
type_synonym bytes = "u8 list"

named_theorems model_defs \<open>definitions of the small operations that component proofs unfold\<close>
named_theorems byte_simps \<open>lengths and inverses of the byte encodings\<close>

section \<open>Results and the question mark operator\<close>

definition rbind :: "'e + 'a \<Rightarrow> ('a \<Rightarrow> 'e + 'b) \<Rightarrow> 'e + 'b" where
  "rbind r f = (case r of Inl e \<Rightarrow> Inl e | Inr x \<Rightarrow> f x)"

lemma rbind_simps [simp]:
  "rbind (Inl e) f = Inl e"
  "rbind (Inr x) f = f x"
  by (simp_all add: rbind_def)

lemma rbind_Inr_iff [simp]: "rbind r f = Inr y \<longleftrightarrow> (\<exists>x. r = Inr x \<and> f x = Inr y)"
  by (cases r) auto

lemma rbind_Inl_iff: "rbind r f = Inl e \<longleftrightarrow> r = Inl e \<or> (\<exists>x. r = Inr x \<and> f x = Inl e)"
  by (cases r) auto

lemma map_sum_id_Inr_iff [simp]: "map_sum f id r = Inr y \<longleftrightarrow> r = Inr y"
  by (cases r) auto

lemma map_sum_id_Inl_iff [simp]: "map_sum f id r = Inl e \<longleftrightarrow> (\<exists>e'. r = Inl e' \<and> e = f e')"
  by (cases r) auto

text \<open>
  A procedure over a state \<open>'s\<close> returns a result and the new state; \<open>andthen\<close> is the sequencing
  of two statements where the first ends in \<open>?\<close>: an error returns at once, with the state
  reached so far.
\<close>

type_synonym ('s, 'e, 'a) proc = "'s \<Rightarrow> ('e + 'a) \<times> 's"

definition ret :: "'a \<Rightarrow> ('s, 'e, 'a) proc" where
  "ret x = (\<lambda>s. (Inr x, s))"

definition fail :: "'e \<Rightarrow> ('s, 'e, 'a) proc" where
  "fail e = (\<lambda>s. (Inl e, s))"

definition andthen :: "('s, 'e, 'a) proc \<Rightarrow> ('a \<Rightarrow> ('s, 'e, 'b) proc) \<Rightarrow> ('s, 'e, 'b) proc" where
  "andthen p f = (\<lambda>s. case p s of (Inl e, s') \<Rightarrow> (Inl e, s') | (Inr x, s') \<Rightarrow> f x s')"

lemma ret_apply [simp]: "ret x s = (Inr x, s)"
  by (simp add: ret_def)

lemma fail_apply [simp]: "fail e s = (Inl e, s)"
  by (simp add: fail_def)

lemma andthen_apply:
  "andthen p f s = (case p s of (Inl e, s') \<Rightarrow> (Inl e, s') | (Inr x, s') \<Rightarrow> f x s')"
  by (simp add: andthen_def)

lemma andthen_Inr: "p s = (Inr x, s') \<Longrightarrow> andthen p f s = f x s'"
  by (simp add: andthen_def)

lemma andthen_Inl: "p s = (Inl e, s') \<Longrightarrow> andthen p f s = (Inl e, s')"
  by (simp add: andthen_def)

lemma andthen_ret_apply [simp]: "andthen (ret x) f = f x"
  by (rule ext) (simp add: andthen_def)

lemma andthen_fail_apply [simp]: "andthen (fail e) f = fail e"
  by (rule ext) (simp add: andthen_def)

lemma andthen_eq_Inr:
  "andthen p f s = (Inr y, t) \<longleftrightarrow> (\<exists>x s'. p s = (Inr x, s') \<and> f x s' = (Inr y, t))"
  by (auto simp: andthen_def split: prod.splits sum.splits)

lemma andthen_eq_Inl:
  "andthen p f s = (Inl e, t) \<longleftrightarrow>
     p s = (Inl e, t) \<or> (\<exists>x s'. p s = (Inr x, s') \<and> f x s' = (Inl e, t))"
  by (auto simp: andthen_def split: prod.splits sum.splits)

text \<open>A procedure that leaves an aspect \<open>f\<close> of the state alone, whatever its outcome.\<close>

definition keeps :: "('s \<Rightarrow> 'b) \<Rightarrow> ('s, 'e, 'a) proc \<Rightarrow> bool" where
  "keeps f p \<longleftrightarrow> (\<forall>s. f (snd (p s)) = f s)"

lemma keepsI: "(\<And>s. f (snd (p s)) = f s) \<Longrightarrow> keeps f p"
  by (simp add: keeps_def)

lemma keepsD: "keeps f p \<Longrightarrow> p s = (r, s') \<Longrightarrow> f s' = f s"
  by (metis keeps_def snd_conv)

lemma keeps_ret [simp]: "keeps f (ret x)"
  by (simp add: keeps_def)

lemma keeps_fail [simp]: "keeps f (fail e)"
  by (simp add: keeps_def)

lemma keeps_andthen [intro]: "keeps f p \<Longrightarrow> (\<And>x. keeps f (q x)) \<Longrightarrow> keeps f (andthen p q)"
  by (auto simp: keeps_def andthen_def split: prod.splits sum.splits) (metis snd_conv)+

lemma keeps_dep: "(\<And>t. keeps f (p t)) \<Longrightarrow> keeps f (\<lambda>s. p (g s) s)"
  by (simp add: keeps_def)

section \<open>Decimal text\<close>

text \<open>The \<open>Display\<close> text of an unsigned integer, as the error messages interpolate it.\<close>

fun show_nat :: "nat \<Rightarrow> string" where
  "show_nat n = (if n < 10 then [char_of (48 + n)]
                 else show_nat (n div 10) @ [char_of (48 + n mod 10)])"

declare show_nat.simps [simp del]

lemma show_nat_nonempty: "show_nat n \<noteq> []"
  by (subst show_nat.simps) simp

text \<open>The \<open>Debug\<close> text of a list of bytes, without its brackets.\<close>

fun debug_items :: "bytes \<Rightarrow> string" where
  "debug_items [] = []"
| "debug_items [b] = show_nat (unat b)"
| "debug_items (b # c # bs) = show_nat (unat b) @ '', '' @ debug_items (c # bs)"

section \<open>Big- and little-endian bytes\<close>

fun to_be :: "nat \<Rightarrow> nat \<Rightarrow> bytes" where
  "to_be 0 n = []"
| "to_be (Suc k) n = to_be k (n div 256) @ [word_of_nat (n mod 256)]"

definition from_be :: "bytes \<Rightarrow> nat" where
  "from_be bs = foldl (\<lambda>a b. a * 256 + unat b) 0 bs"

lemma length_to_be [simp, byte_simps]: "length (to_be k n) = k"
  by (induction k n rule: to_be.induct) auto

lemma from_be_Nil [simp]: "from_be [] = 0"
  by (simp add: from_be_def)

lemma from_be_snoc [simp]: "from_be (bs @ [b]) = from_be bs * 256 + unat b"
  by (simp add: from_be_def)

lemma unat_u8_of_mod: "unat (word_of_nat (n mod 256) :: u8) = n mod 256"
  by (simp add: unsigned_of_nat take_bit_eq_mod)

lemma unat_u8_less: "unat (b :: u8) < 256"
  using unsigned_less [of b] by simp

lemma from_be_to_be [byte_simps]: "n < 256 ^ k \<Longrightarrow> from_be (to_be k n) = n"
proof (induction k n rule: to_be.induct)
  case (1 n)
  then show ?case by simp
next
  case (2 k n)
  then have "n div 256 < 256 ^ k"
    by (simp add: less_mult_imp_div_less mult.commute)
  with "2.IH" show ?case
    by (simp add: unat_u8_of_mod)
qed

lemma from_be_bound: "from_be bs < 256 ^ length bs"
proof (induction bs rule: rev_induct)
  case Nil
  then show ?case by simp
next
  case (snoc b bs)
  have "from_be bs * 256 + unat b < (from_be bs + 1) * 256"
    using unat_u8_less [of b] by simp
  also have "\<dots> \<le> 256 ^ length bs * 256"
    using snoc by (intro mult_le_mono1) simp
  finally show ?case by simp
qed

lemma to_be_from_be [byte_simps]: "length bs = k \<Longrightarrow> to_be k (from_be bs) = bs"
proof (induction bs arbitrary: k rule: rev_induct)
  case Nil
  then show ?case by simp
next
  case (snoc b bs)
  then obtain k' where k: "k = Suc k'" "length bs = k'" by auto
  have "(from_be bs * 256 + unat b) div 256 = from_be bs"
    using unat_u8_less [of b] by simp
  moreover have "(from_be bs * 256 + unat b) mod 256 = unat b"
    using unat_u8_less [of b] by simp
  ultimately show ?case
    using k snoc.IH by simp
qed

text \<open>
  \<open>to_be_bytes\<close> and \<open>from_be_bytes\<close> of a fixed-width integer, and the little-endian pair.
  Byte arrays of a fixed length, such as a fingerprint \<open>[u8; 32]\<close>, are kept as one word of that
  many bits, whose bytes are \<open>word_be\<close>.
\<close>

definition word_be :: "nat \<Rightarrow> 'n::len word \<Rightarrow> bytes" where
  "word_be k w = to_be k (unat w)"

definition be_word :: "bytes \<Rightarrow> 'n::len word" where
  "be_word bs = word_of_nat (from_be bs)"

definition word_le :: "nat \<Rightarrow> 'n::len word \<Rightarrow> bytes" where
  "word_le k w = rev (word_be k w)"

definition le_word :: "bytes \<Rightarrow> 'n::len word" where
  "le_word bs = be_word (rev bs)"

lemma length_word_be [simp, byte_simps]: "length (word_be k w) = k"
  by (simp add: word_be_def)

lemma length_word_le [simp, byte_simps]: "length (word_le k w) = k"
  by (simp add: word_le_def)

lemma be_word_word_be:
  assumes "LENGTH('n::len) = 8 * k"
  shows "be_word (word_be k (w :: 'n word)) = w"
proof -
  have "unat w < 2 ^ LENGTH('n)" by (rule unsigned_less)
  also have "(2::nat) ^ LENGTH('n) = 256 ^ k"
    by (simp add: assms power_mult)
  finally show ?thesis
    by (simp add: be_word_def word_be_def from_be_to_be)
qed

lemma le_word_word_le:
  assumes "LENGTH('n::len) = 8 * k"
  shows "le_word (word_le k (w :: 'n word)) = w"
  by (simp add: le_word_def word_le_def be_word_word_be [OF assms])

lemma word_be_be_word:
  assumes "LENGTH('n::len) = 8 * k" "length bs = k"
  shows "word_be k (be_word bs :: 'n word) = bs"
proof -
  have "from_be bs < 2 ^ LENGTH('n)"
    using from_be_bound [of bs] assms by (simp add: power_mult)
  then have "unat (word_of_nat (from_be bs) :: 'n word) = from_be bs"
    by (simp add: unsigned_of_nat take_bit_nat_eq_self)
  then show ?thesis
    by (simp add: word_be_def be_word_def to_be_from_be [OF assms(2)])
qed

lemma be_word_16 [simp, byte_simps]: "be_word (word_be 2 (w :: u16)) = w"
  by (rule be_word_word_be) simp

lemma be_word_32 [simp, byte_simps]: "be_word (word_be 4 (w :: u32)) = w"
  by (rule be_word_word_be) simp

lemma be_word_128 [simp, byte_simps]: "be_word (word_be 16 (w :: 128 word)) = w"
  by (rule be_word_word_be) simp

lemma be_word_256 [simp, byte_simps]: "be_word (word_be 32 (w :: 256 word)) = w"
  by (rule be_word_word_be) simp

lemma le_word_64 [simp, byte_simps]: "le_word (word_le 8 (w :: u64)) = w"
  by (rule le_word_word_le) simp

section \<open>Interface: a codec with a decoder that may fail\<close>

text \<open>
  What every encoder/decoder pair of the code promises: decoding an encoded value gives it back.
  The client facts, proved once: the encoder is injective, and an encoding identifies the value.
\<close>

locale partial_codec =
  fixes enc :: "'a \<Rightarrow> 'b list"
    and dec :: "'b list \<Rightarrow> 'a option"
  assumes dec_enc: "dec (enc x) = Some x"
begin

lemma enc_inj: "inj enc"
  by (rule injI) (metis dec_enc option.inject)

lemma enc_eq_iff: "enc x = enc y \<longleftrightarrow> x = y"
  using enc_inj by (auto dest: injD)

end

text \<open>
  A codec of fixed width: its encodings can be laid end to end and split again at the width.
\<close>

locale fixed_codec = partial_codec +
  fixes width :: nat
  assumes length_enc: "length (enc x) = width"
begin

lemma dec_take: "dec (take width (enc x @ rest)) = Some x"
  using length_enc [of x] dec_enc by simp

lemma drop_enc: "drop width (enc x @ rest) = rest"
  using length_enc [of x] by simp

lemma enc_append_eq: "enc x @ r = enc y @ s \<longleftrightarrow> x = y \<and> r = s"
  using length_enc [of x] length_enc [of y] by (auto simp: append_eq_append_conv enc_eq_iff)

end

interpretation u64_le: fixed_codec "word_le 8 :: u64 \<Rightarrow> bytes"
    "\<lambda>bs. if length bs = 8 then Some (le_word bs) else None" 8
  by unfold_locales (simp_all add: byte_simps)

interpretation u32_be: fixed_codec "word_be 4 :: u32 \<Rightarrow> bytes"
    "\<lambda>bs. if length bs = 4 then Some (be_word bs) else None" 4
  by unfold_locales (simp_all add: byte_simps)

section \<open>Lists and words\<close>

lemma take_append_exact [simp]: "length xs = n \<Longrightarrow> take n (xs @ ys) = xs"
  by simp

lemma drop_append_exact [simp]: "length xs = n \<Longrightarrow> drop n (xs @ ys) = ys"
  by simp

lemma distinct_card_filter:
  assumes "distinct xs" "set xs \<subseteq> {..<n}"
  shows "length (filter (\<lambda>i. i \<notin> set xs) [0..<n]) = n - length xs"
proof -
  have "length (filter (\<lambda>i. i \<notin> set xs) [0..<n]) = card (set (filter (\<lambda>i. i \<notin> set xs) [0..<n]))"
    by (rule distinct_card [symmetric]) simp
  also have "set (filter (\<lambda>i. i \<notin> set xs) [0..<n]) = {..<n} - set xs"
    by auto
  also have "card ({..<n} - set xs) = n - length xs"
    using assms by (simp add: card_Diff_subset distinct_card)
  finally show ?thesis .
qed

lemma unat_u64_add:
  "unat (a :: u64) + unat b < 2 ^ 64 \<Longrightarrow> unat (a + b) = unat a + unat b"
  by (simp add: unat_word_ariths)

lemma unat_u64_mult:
  "unat (a :: u64) * unat b < 2 ^ 64 \<Longrightarrow> unat (a * b) = unat a * unat b"
  by (simp add: unat_word_ariths)

lemma unat_u64_sub: "(b :: u64) \<le> a \<Longrightarrow> unat (a - b) = unat a - unat b"
  by (rule unat_sub)

definition sat_sub :: "u64 \<Rightarrow> u64 \<Rightarrow> u64" where
  "sat_sub a b = (if a < b then 0 else a - b)"

lemma unat_sat_sub: "unat (sat_sub a b) = unat a - unat b"
proof (cases "a < b")
  case True
  then show ?thesis
    by (simp add: sat_sub_def word_less_nat_alt)
next
  case False
  then show ?thesis
    by (simp add: sat_sub_def unat_u64_sub not_less)
qed

end
