(* ===== verification/P2P_Error.thy ===== *)
theory P2P_Error
  imports P2P_Prelude
begin

text \<open>
  The error type of \<open>p2p-core/src/error.rs\<close>: its variants, the text \<open>thiserror\<close> derives for
  \<open>Display\<close>, and the two classifications that drive reconnection. An \<open>std::io::Error\<close> is its
  kind and its text; the kinds listed are those the sources test for, the rest are \<open>OtherKind\<close>.
  An \<open>rmp_serde\<close> error is the text it displays.
\<close>

datatype io_kind =
    NotFound | ConnectionAborted | ConnectionReset | NotConnected | BrokenPipe | UnexpectedEof
  | AlreadyExists | PermissionDenied | OtherKind

datatype io_error = IoError (io_kind: io_kind) (io_text: string)

datatype error =
    Network io_error
  | Protocol string
  | VersionMismatch (vm_peer: u8) (vm_ours: u8)
  | CompressionError string
  | DecompressionError string
  | Verification string
  | FileSystem string
  | ConfigError string
  | Serialization string
  | Deserialization string
  | Disconnected
  | Timeout
  | Cancelled
  | TransferNotFound string
  | InvalidChunk string
  | UnsupportedCapability string
  | Quic string
  | Tls string
  | RendezvousError string
  | HolePunchFailed string
  | FingerprintMismatch
  | Other string

type_synonym 'a result = "error + 'a"

fun display :: "error \<Rightarrow> string" where
  "display (Network e) = ''Network error: '' @ io_text e"
| "display (Protocol s) = ''Protocol error: '' @ s"
| "display (VersionMismatch peer ours) =
     ''Protocol version mismatch: peer version '' @ show_nat (unat peer) @ '', our version '' @ show_nat (unat ours)"
| "display (CompressionError s) = ''Compression error: '' @ s"
| "display (DecompressionError s) = ''Decompression error: '' @ s"
| "display (Verification s) = ''Verification failed: '' @ s"
| "display (FileSystem s) = ''File system error: '' @ s"
| "display (ConfigError s) = ''Configuration error: '' @ s"
| "display (Serialization s) = ''Serialization error: '' @ s"
| "display (Deserialization s) = ''Deserialization error: '' @ s"
| "display Disconnected = ''Peer disconnected''"
| "display Timeout = ''Connection timeout''"
| "display Cancelled = ''Transfer cancelled by user''"
| "display (TransferNotFound s) = ''Transfer not found: '' @ s"
| "display (InvalidChunk s) = ''Invalid chunk: '' @ s"
| "display (UnsupportedCapability s) = ''Capability not supported: '' @ s"
| "display (Quic s) = ''QUIC error: '' @ s"
| "display (Tls s) = ''TLS error: '' @ s"
| "display (RendezvousError s) = ''Rendezvous error: '' @ s"
| "display (HolePunchFailed s) = ''Hole punch failed: '' @ s"
| "display FingerprintMismatch = ''Peer fingerprint mismatch''"
| "display (Other s) = s"

fun is_recoverable :: "error \<Rightarrow> bool" where
  "is_recoverable (Network _) = True"
| "is_recoverable Timeout = True"
| "is_recoverable Disconnected = True"
| "is_recoverable (Quic _) = True"
| "is_recoverable (HolePunchFailed _) = True"
| "is_recoverable _ = False"

fun should_retry_op :: "error \<Rightarrow> bool" where
  "should_retry_op (Network _) = True"
| "should_retry_op Timeout = True"
| "should_retry_op (InvalidChunk _) = True"
| "should_retry_op (Quic _) = True"
| "should_retry_op _ = False"

fun is_protocol :: "error \<Rightarrow> bool" where
  "is_protocol (Protocol _) = True"
| "is_protocol _ = False"

lemma is_recoverable_not_protocol: "is_recoverable e \<Longrightarrow> \<not> is_protocol e"
  by (cases e) auto

text \<open>Every retried operation error other than a bad chunk also asks for a reconnect.\<close>

lemma should_retry_op_recoverable:
  "should_retry_op e \<Longrightarrow> is_recoverable e \<or> (\<exists>s. e = InvalidChunk s)"
  by (cases e) auto

end
