(* ===== verification/Wire_Protocol.thy ===== *)
theory Wire_Protocol
  imports P2P_Error
begin

text \<open>
  The control-plane data of \<open>p2p-core/src/protocol.rs\<close> and the protocol constants of
  \<open>p2p-core/src/lib.rs\<close>: device identifiers with their order, the message records and the
  message enum, and the hexadecimal form in which 32-byte arrays travel (\<open>checksum_hex\<close>).
  A 32-byte array is a 256-bit word whose bytes, first one first, are \<open>word_be 32\<close>. A Rust
  \<open>String\<close> is the list of its UTF-8 bytes.
\<close>

section \<open>Constants\<close>

definition PROTOCOL_VERSION :: u8 where "PROTOCOL_VERSION = 3"
definition MIN_PROTOCOL_VERSION :: u8 where "MIN_PROTOCOL_VERSION = 3"
definition DEFAULT_CHUNK_SIZE :: u32 where "DEFAULT_CHUNK_SIZE = 1024 * 1024"
definition PROTOCOL_MAGIC :: bytes where "PROTOCOL_MAGIC = [0x50, 0x32, 0x50, 0x46]"

lemma length_PROTOCOL_MAGIC [simp]: "length PROTOCOL_MAGIC = 4"
  by (simp add: PROTOCOL_MAGIC_def)

section \<open>Device identifiers\<close>

text \<open>
  \<open>Uuid\<close> is 16 bytes compared lexicographically, which is the order of the 128-bit big-endian
  integer.
\<close>

datatype uuid = Uuid (uuid_word: "128 word")

instantiation uuid :: linorder
begin

definition less_eq_uuid :: "uuid \<Rightarrow> uuid \<Rightarrow> bool" where
  "less_eq_uuid a b = (uuid_word a \<le> uuid_word b)"

definition less_uuid :: "uuid \<Rightarrow> uuid \<Rightarrow> bool" where
  "less_uuid a b = (uuid_word a < uuid_word b)"

instance
proof
  fix x y z :: uuid
  show "x < y \<longleftrightarrow> x \<le> y \<and> \<not> y \<le> x"
    by (auto simp: less_uuid_def less_eq_uuid_def)
  show "x \<le> x"
    by (simp add: less_eq_uuid_def)
  show "x \<le> y \<Longrightarrow> y \<le> z \<Longrightarrow> x \<le> z"
    by (auto simp: less_eq_uuid_def)
  show "x \<le> y \<Longrightarrow> y \<le> x \<Longrightarrow> x = y"
    by (simp add: less_eq_uuid_def uuid.expand)
  show "x \<le> y \<or> y \<le> x"
    by (auto simp: less_eq_uuid_def)
qed

end

type_synonym fingerprint = "256 word"

datatype ip_addr = V4 u32 | V6 "128 word"

datatype socket_addr = SocketAddr (sa_ip: ip_addr) (sa_port: u16)

section \<open>Hexadecimal form of a 32-byte array\<close>

definition hex_digit :: "nat \<Rightarrow> char" where
  "hex_digit n = char_of (if n < 10 then 48 + n else 87 + n)"

definition hex2 :: "u8 \<Rightarrow> string" where
  "hex2 b = [hex_digit (unat b div 16), hex_digit (unat b mod 16)]"

definition hex_serialize :: "256 word \<Rightarrow> string" where
  "hex_serialize w = concat (map hex2 (word_be 32 w))"

definition hex_val :: "char \<Rightarrow> nat option" where
  "hex_val c = (let n = of_char c :: nat in
     if 48 \<le> n \<and> n \<le> 57 then Some (n - 48)
     else if 97 \<le> n \<and> n \<le> 102 then Some (n - 87)
     else if 65 \<le> n \<and> n \<le> 70 then Some (n - 55)
     else None)"

text \<open>\<open>u8::from_str_radix(_, 16)\<close>: an optional plus sign, then digits, refusing overflow.\<close>

fun radix16_digits :: "nat \<Rightarrow> string \<Rightarrow> nat option" where
  "radix16_digits a [] = Some a"
| "radix16_digits a (c # cs) =
     (case hex_val c of
        None \<Rightarrow> None
      | Some v \<Rightarrow> if a * 16 + v < 256 then radix16_digits (a * 16 + v) cs else None)"

definition u8_from_str_radix16 :: "string \<Rightarrow> u8 option" where
  "u8_from_str_radix16 s =
     (if s = [] \<or> s = ''+'' \<or> s = ''-'' then None
      else map_option word_of_nat
             (radix16_digits 0 (if hd s = CHR ''+'' then tl s else s)))"

text \<open>
  Slicing a \<open>str\<close> panics unless both ends are character boundaries, that is, unless the byte at
  the index is not a UTF-8 continuation byte.
\<close>

definition is_char_boundary :: "string \<Rightarrow> nat \<Rightarrow> bool" where
  "is_char_boundary s i \<longleftrightarrow>
     i = 0 \<or> i = length s \<or>
     (i < length s \<and> (of_char (s ! i) < (128::nat) \<or> (192::nat) \<le> of_char (s ! i)))"

text \<open>The loop over the 32 byte positions; \<open>None\<close> is the panic of the slice.\<close>

fun hex_loop :: "string \<Rightarrow> nat list \<Rightarrow> (string + bytes) option" where
  "hex_loop s [] = Some (Inr [])"
| "hex_loop s (i # is) =
     (if \<not> (is_char_boundary s (2 * i) \<and> is_char_boundary s (2 * i + 2)) then None
      else case u8_from_str_radix16 (take 2 (drop (2 * i) s)) of
             None \<Rightarrow> Some (Inl ''Invalid hex: '')
           | Some b \<Rightarrow>
               (case hex_loop s is of
                  None \<Rightarrow> None
                | Some (Inl e) \<Rightarrow> Some (Inl e)
                | Some (Inr bs) \<Rightarrow> Some (Inr (b # bs))))"

definition hex_deserialize :: "string \<Rightarrow> (string + 256 word) option" where
  "hex_deserialize s =
     (if length s \<noteq> 64
      then Some (Inl (''Expected 64 hex characters, got '' @ show_nat (length s)))
      else map_option (map_sum id be_word) (hex_loop s [0..<32]))"

section \<open>Message records\<close>

record discovery_beacon =
  db_version :: u8
  db_device_id :: uuid
  db_device_name :: string
  db_port :: u16
  db_cert_fingerprint :: fingerprint

record hello_message =
  hm_protocol_version :: u8
  hm_min_version :: u8
  hm_device_id :: uuid
  hm_cert_fingerprint :: fingerprint

record config_message =
  compression_enabled :: bool
  compression_level :: "32 word"
  adaptive_compression :: bool
  chunk_size :: u32
  bandwidth_limit :: u64

definition config_default :: config_message where
  "config_default = \<lparr> compression_enabled = True, compression_level = 3,
     adaptive_compression = True, chunk_size = DEFAULT_CHUNK_SIZE, bandwidth_limit = 0 \<rparr>"

record file_metadata =
  fm_path :: string
  fm_size :: u64
  fm_modified :: u64
  fm_checksum :: "256 word"

record resume_point =
  rp_transfer_id :: uuid
  rp_file_index :: u32
  rp_completed_chunks :: "u64 list"

record transfer_info =
  ti_transfer_id :: uuid
  ti_items :: "file_metadata list"
  ti_resume_from :: "resume_point option"
  ti_completed_files :: "u32 list"

record file_progress =
  fp_file_index :: u32
  fp_total_chunks :: u64
  fp_completed_chunks :: "u64 list"

record resume_request =
  rr_transfer_id :: uuid
  rr_progress :: "file_progress list"

record complete_message =
  cm_transfer_id :: uuid
  cm_total_bytes :: u64
  cm_duration_ms :: u64

record file_checksum_message =
  fc_transfer_id :: uuid
  fc_file_index :: u32
  fc_checksum :: "256 word"

datatype error_code =
    ProtocolErrorCode | VersionMismatchCode | UnsupportedCapabilityCode | FileSystemErrorCode
  | TransferCancelledCode | OtherCode

record error_message =
  em_code :: error_code
  em_message :: string

datatype message =
    DiscoveryBeacon discovery_beacon
  | Hello hello_message
  | HelloAck hello_message
  | ConfigMsg config_message
  | ConfigAck
  | TransferInfoMsg transfer_info
  | Ready
  | Resume resume_request
  | Pause
  | Cancel
  | Complete complete_message
  | FileChecksum file_checksum_message
  | ErrorMsg error_message
  | Ping
  | Pong

text \<open>
  The variant name, which is how the derived \<open>Debug\<close> text of a message starts; the error texts
  below stop there and leave the fields out.
\<close>

fun variant_name :: "message \<Rightarrow> string" where
  "variant_name (DiscoveryBeacon _) = ''DiscoveryBeacon''"
| "variant_name (Hello _) = ''Hello''"
| "variant_name (HelloAck _) = ''HelloAck''"
| "variant_name (ConfigMsg _) = ''Config''"
| "variant_name ConfigAck = ''ConfigAck''"
| "variant_name (TransferInfoMsg _) = ''TransferInfo''"
| "variant_name Ready = ''Ready''"
| "variant_name (Resume _) = ''Resume''"
| "variant_name Pause = ''Pause''"
| "variant_name Cancel = ''Cancel''"
| "variant_name (Complete _) = ''Complete''"
| "variant_name (FileChecksum _) = ''FileChecksum''"
| "variant_name (ErrorMsg _) = ''Error''"
| "variant_name Ping = ''Ping''"
| "variant_name Pong = ''Pong''"

section \<open>The hexadecimal form: round trip, panic\<close>

lemma hex_val_hex_digit: "n < 16 \<Longrightarrow> hex_val (hex_digit n) = Some n"
  by (auto simp: hex_val_def hex_digit_def Let_def)

lemma of_char_hex_digit: "n < 16 \<Longrightarrow> of_char (hex_digit n) = (if n < 10 then 48 + n else 87 + n)"
  by (auto simp: hex_digit_def)

lemma hex_digit_not_plus: "n < 16 \<Longrightarrow> hex_digit n \<noteq> CHR ''+''"
proof
  assume "n < 16" and "hex_digit n = CHR ''+''"
  then have "of_char (hex_digit n) = (43 :: nat)" by simp
  with \<open>n < 16\<close> show False by (auto simp: of_char_hex_digit split: if_splits)
qed

lemma u8_from_hex2: "u8_from_str_radix16 (hex2 b) = Some b"
proof -
  have hi: "unat b div 16 < 16" and lo: "unat b mod 16 < 16"
    using unat_u8_less [of b] by auto
  have sum: "unat b div 16 * 16 + unat b mod 16 = unat b" by simp
  have "unat b < 256" by (rule unat_u8_less)
  with hi lo sum show ?thesis
    by (simp add: u8_from_str_radix16_def hex2_def hex_digit_not_plus hex_val_hex_digit
        del: div_mult_mod_eq)
qed

definition ascii :: "string \<Rightarrow> bool" where
  "ascii s \<longleftrightarrow> (\<forall>c \<in> set s. of_char c < (128 :: nat))"

lemma ascii_boundary: "ascii s \<Longrightarrow> i \<le> length s \<Longrightarrow> is_char_boundary s i"
  by (auto simp: ascii_def is_char_boundary_def)

lemma ascii_hex2: "ascii (hex2 b)"
  using unat_u8_less [of b] by (auto simp: ascii_def hex2_def of_char_hex_digit)

lemma length_hex2 [simp]: "length (hex2 b) = 2"
  by (simp add: hex2_def)

lemma length_concat_hex2 [simp]: "length (concat (map hex2 bs)) = 2 * length bs"
  by (induction bs) auto

lemma ascii_concat_hex2: "ascii (concat (map hex2 bs))"
  using ascii_hex2 by (fastforce simp: ascii_def)

lemma drop_concat_hex2: "drop (2 * i) (concat (map hex2 bs)) = concat (map hex2 (drop i bs))"
proof (induction bs arbitrary: i)
  case Nil
  then show ?case by simp
next
  case (Cons b bs)
  then show ?case by (cases i) auto
qed

lemma hex_loop_concat:
  assumes "k \<le> length bs"
  shows "hex_loop (concat (map hex2 bs)) [k..<length bs] = Some (Inr (drop k bs))"
  using assms
proof (induction "length bs - k" arbitrary: k)
  case 0
  then show ?case by simp
next
  case (Suc n)
  then have k: "k < length bs" by simp
  let ?s = "concat (map hex2 bs)"
  have split: "[k..<length bs] = k # [Suc k..<length bs]"
    using k by (simp add: upt_conv_Cons)
  have b1: "is_char_boundary ?s (2 * k)" and b2: "is_char_boundary ?s (2 * k + 2)"
    using k by (auto intro: ascii_boundary ascii_concat_hex2)
  have "drop k bs = bs ! k # drop (Suc k) bs"
    using k by (simp add: Cons_nth_drop_Suc)
  then have "take 2 (drop (2 * k) ?s) = hex2 (bs ! k)"
    by (simp add: drop_concat_hex2)
  moreover have "hex_loop ?s [Suc k..<length bs] = Some (Inr (drop (Suc k) bs))"
    using Suc k by simp
  ultimately show ?case
    using b1 b2 \<open>drop k bs = _\<close> by (simp add: split u8_from_hex2)
qed

lemma hex_deserialize_serialize: "hex_deserialize (hex_serialize w) = Some (Inr w)"
  using hex_loop_concat [of 0 "word_be 32 w"]
  by (simp add: hex_deserialize_def hex_serialize_def)

lemma hex_loop_ascii:
  assumes "ascii s" "\<forall>i \<in> set is. 2 * i + 2 \<le> length s"
  shows "hex_loop s is \<noteq> None"
  using assms(2)
proof (induction "is")
  case Nil
  then show ?case by simp
next
  case (Cons i "is")
  then have "is_char_boundary s (2 * i)" "is_char_boundary s (2 * i + 2)"
    using assms(1) by (auto intro: ascii_boundary)
  with Cons show ?case
    by (auto split: option.splits sum.splits)
qed

text \<open>The serialized form is a codec: distinct arrays have distinct hexadecimal forms.\<close>

interpretation hex: fixed_codec hex_serialize
    "\<lambda>s. case hex_deserialize s of Some (Inr w) \<Rightarrow> Some w | _ \<Rightarrow> None" 64
  by unfold_locales (simp_all add: hex_deserialize_serialize, simp add: hex_serialize_def)

text \<open>
  Every 32-byte array (certificate fingerprint, file checksum) survives the
  hexadecimal wire form, which has 64 characters, and two arrays with the same form are equal.
\<close>

lemma hex_wire_roundtrip:
  "hex_deserialize (hex_serialize w) = Some (Inr w) \<and> length (hex_serialize w) = 64 \<and>
   (hex_serialize w = hex_serialize v \<longleftrightarrow> w = v)"
  using hex.dec_enc [of w] hex.length_enc [of w] hex.enc_eq_iff [of w v]
  by (simp add: hex_deserialize_serialize)

text \<open>
  A 64-byte UTF-8 string in which a two-byte character straddles a position the loop slices at
  panics: the peer chooses this string, and the release profile aborts the process on a panic.
\<close>

theorem hex_decode_panic:
  "hex_deserialize (CHR 0x30 # CHR 0xC3 # CHR 0xA9 # replicate 61 (CHR 0x30)) = None"
proof -
  have "[0..<32] = 0 # [1..<32]" by (simp add: upt_conv_Cons)
  then show ?thesis
    by (simp add: hex_deserialize_def is_char_boundary_def numeral_2_eq_2 of_char_def
        del: upt_Suc)
qed

text \<open>
  On ASCII text of any length the decoder never panics, and what it
  accepts has exactly 64 characters.
\<close>

lemma hex_decode_total_on_ascii:
  assumes "ascii s"
  shows "hex_deserialize s \<noteq> None \<and> (hex_deserialize s = Some (Inr w) \<longrightarrow> length s = 64)"
  using assms hex_loop_ascii [of s "[0..<32]"] by (auto simp: hex_deserialize_def split: if_splits)

lemma hex_decode_total_on_ascii_witness:
  "ascii ''+f'' \<and> hex_deserialize ''+f'' \<noteq> None"
  using hex_decode_total_on_ascii [of "''+f''"] by (simp add: ascii_def of_char_def)

end
