(* ===== verification/Framing.thy ===== *)
theory Framing
  imports Wire_Protocol
begin

text \<open>
  The two length-prefixed framings of the sources: \<open>p2p-core/src/network/framing.rs\<close> (magic,
  big-endian length, MessagePack payload, at most 10 MiB) on the QUIC control stream, and
  \<open>framing\<close> of \<open>p2p-rendezvous/src/lib.rs\<close> (big-endian length, payload, at most 4 KiB) on the
  rendezvous TCP connection. A reader is the bytes that will still arrive and what happens after
  them: a clean end of stream or an I/O error. The MessagePack serializer \<open>rmp_serde\<close> is a
  parameter (\<open>to_vec\<close>, \<open>from_slice\<close>).
\<close>

section \<open>Readers and writers\<close>

record reader =
  rd_bytes :: bytes
  rd_end :: "io_error option"

record writer =
  wr_out :: bytes
  wr_fail :: "io_error option"

text \<open>\<open>read\<close> into a one-byte buffer: a byte, or zero bytes at the end of the stream.\<close>

definition read_byte :: "reader \<Rightarrow> (io_error + bytes) \<times> reader" where
  "read_byte r = (case rd_bytes r of
       b # bs \<Rightarrow> (Inr [b], r\<lparr>rd_bytes := bs\<rparr>)
     | [] \<Rightarrow> (case rd_end r of None \<Rightarrow> (Inr [], r) | Some e \<Rightarrow> (Inl e, r)))"

definition read_exact :: "nat \<Rightarrow> reader \<Rightarrow> (io_error + bytes) \<times> reader" where
  "read_exact n r =
     (if n \<le> length (rd_bytes r)
      then (Inr (take n (rd_bytes r)), r\<lparr>rd_bytes := drop n (rd_bytes r)\<rparr>)
      else (Inl (case rd_end r of None \<Rightarrow> IoError UnexpectedEof ''early eof'' | Some e \<Rightarrow> e),
            r\<lparr>rd_bytes := []\<rparr>))"

definition write_all :: "bytes \<Rightarrow> writer \<Rightarrow> (io_error + unit) \<times> writer" where
  "write_all bs w = (case wr_fail w of
       None \<Rightarrow> (Inr (), w\<lparr>wr_out := wr_out w @ bs\<rparr>)
     | Some e \<Rightarrow> (Inl e, w))"

definition map_err :: "('e \<Rightarrow> 'f) \<Rightarrow> ('s, 'e, 'a) proc \<Rightarrow> ('s, 'f, 'a) proc" where
  "map_err f p = (\<lambda>s. case p s of (r, s') \<Rightarrow> (map_sum f id r, s'))"

lemma map_err_apply: "map_err f p s = (map_sum f id (fst (p s)), snd (p s))"
  by (simp add: map_err_def split: prod.splits)

lemma read_exact_append [simp]:
  "length bs = n \<Longrightarrow> read_exact n \<lparr>rd_bytes = bs @ rest, rd_end = e\<rparr> = (Inr bs, \<lparr>rd_bytes = rest, rd_end = e\<rparr>)"
  by (simp add: read_exact_def)

lemma map_err_read_exact_append [simp]:
  "length bs = n \<Longrightarrow>
   map_err f (read_exact n) \<lparr>rd_bytes = bs @ rest, rd_end = e\<rparr> = (Inr bs, \<lparr>rd_bytes = rest, rd_end = e\<rparr>)"
  by (simp add: map_err_apply)

section \<open>The control-stream framing\<close>

definition MAX_MESSAGE_SIZE :: u32 where "MAX_MESSAGE_SIZE = 10 * 1024 * 1024"

definition write_message ::
  "(message \<Rightarrow> string + bytes) \<Rightarrow> message \<Rightarrow> (writer, error, unit) proc" where
  "write_message to_vec m =
     (case to_vec m of
        Inl e \<Rightarrow> fail (Serialization e)
      | Inr payload \<Rightarrow>
          if length payload > unat MAX_MESSAGE_SIZE
          then fail (Protocol (''Message too large: '' @ show_nat (length payload) @ '' bytes''))
          else let frame = PROTOCOL_MAGIC @ word_be 4 (word_of_nat (length payload) :: u32) @ payload
               in map_err Network (write_all frame))"

definition disconnect_kind :: "io_kind \<Rightarrow> bool" where
  "disconnect_kind k \<longleftrightarrow>
     k \<in> {ConnectionAborted, ConnectionReset, NotConnected, BrokenPipe, UnexpectedEof}"

definition read_first_byte :: "(reader, error, bytes) proc" where
  "read_first_byte = (\<lambda>r. case read_byte r of
       (Inr [], r') \<Rightarrow> (Inl Disconnected, r')
     | (Inr bs, r') \<Rightarrow> (Inr bs, r')
     | (Inl e, r') \<Rightarrow>
         (Inl (if disconnect_kind (io_kind e) then Disconnected else Network e), r'))"

definition read_frame :: "(reader, error, bytes) proc" where
  "read_frame =
     andthen read_first_byte (\<lambda>m0.
     andthen (map_err (\<lambda>e. Protocol (''truncated magic: '' @ io_text e)) (read_exact 3)) (\<lambda>m1.
     if m0 @ m1 \<noteq> PROTOCOL_MAGIC then fail (Protocol (''Invalid magic bytes: ['' @ debug_items (m0 @ m1) @ '']''))
     else
     andthen (map_err (\<lambda>e. Protocol (''truncated frame header: '' @ io_text e)) (read_exact 4)) (\<lambda>len_buf.
     let len = be_word len_buf :: u32 in
     if len > MAX_MESSAGE_SIZE
     then fail (Protocol (''Message too large: '' @ show_nat (unat len) @ '' bytes''))
     else
       map_err (\<lambda>e. Protocol (''truncated frame payload: '' @ io_text e)) (read_exact (unat len)))))"

definition read_message ::
  "(bytes \<Rightarrow> string + message) \<Rightarrow> (reader, error, message) proc" where
  "read_message from_slice =
     andthen read_frame (\<lambda>payload.
       case from_slice payload of
         Inl e \<Rightarrow> fail (Deserialization e)
       | Inr m \<Rightarrow> ret m)"

text \<open>The frame \<open>write_message\<close> puts on the wire, and the payloads it accepts.\<close>

definition frame_of :: "bytes \<Rightarrow> bytes" where
  "frame_of payload = PROTOCOL_MAGIC @ word_be 4 (word_of_nat (length payload) :: u32) @ payload"

definition fits :: "bytes \<Rightarrow> bool" where
  "fits payload \<longleftrightarrow> length payload \<le> unat MAX_MESSAGE_SIZE"

section \<open>The rendezvous framing\<close>

datatype rendezvous_proto_error =
    RIo io_error
  | RDecode string
  | REncode string
  | FrameTooLarge u32 u32

definition MAX_FRAME_BYTES :: u32 where "MAX_FRAME_BYTES = 4096"

text \<open>\<open>payload.len() as u32\<close> truncates; the cap is compared after the cast.\<close>

definition rz_write_message ::
  "('m \<Rightarrow> string + bytes) \<Rightarrow> 'm \<Rightarrow> (writer, rendezvous_proto_error, unit) proc" where
  "rz_write_message to_vec m =
     (case to_vec m of
        Inl e \<Rightarrow> fail (REncode e)
      | Inr payload \<Rightarrow>
          if (word_of_nat (length payload) :: u32) > MAX_FRAME_BYTES
          then fail (FrameTooLarge (word_of_nat (length payload)) MAX_FRAME_BYTES)
          else andthen (map_err RIo (write_all (word_be 4 (word_of_nat (length payload) :: u32)))) (\<lambda>_.
               map_err RIo (write_all payload)))"

definition rz_read_frame :: "(reader, rendezvous_proto_error, bytes) proc" where
  "rz_read_frame =
     andthen (map_err RIo (read_exact 4)) (\<lambda>len_buf.
     let len = be_word len_buf :: u32 in
     if len > MAX_FRAME_BYTES then fail (FrameTooLarge len MAX_FRAME_BYTES)
     else map_err RIo (read_exact (unat len)))"

definition rz_read_message ::
  "(bytes \<Rightarrow> string + 'm) \<Rightarrow> (reader, rendezvous_proto_error, 'm) proc" where
  "rz_read_message from_slice =
     andthen rz_read_frame (\<lambda>payload.
       case from_slice payload of Inl e \<Rightarrow> fail (RDecode e) | Inr m \<Rightarrow> ret m)"

definition rz_frame_of :: "bytes \<Rightarrow> bytes" where
  "rz_frame_of payload = word_be 4 (word_of_nat (length payload) :: u32) @ payload"

definition rz_fits :: "bytes \<Rightarrow> bool" where
  "rz_fits payload \<longleftrightarrow> length payload \<le> unat MAX_FRAME_BYTES"

section \<open>Interface: a framing\<close>

text \<open>
  What a framing promises its user: reading at the start of a frame gives the payload back and
  leaves the reader exactly behind the frame. The client facts: a sequence of frames is read back
  as the sequence of payloads, and two frames laid before any bytes can be told apart.
\<close>

fun read_many :: "(reader, 'e, 'a) proc \<Rightarrow> nat \<Rightarrow> (reader, 'e, 'a list) proc" where
  "read_many rd 0 = ret []"
| "read_many rd (Suc n) = andthen rd (\<lambda>x. andthen (read_many rd n) (\<lambda>xs. ret (x # xs)))"

locale framing =
  fixes frame :: "bytes \<Rightarrow> bytes"
    and ok :: "bytes \<Rightarrow> bool"
    and read :: "(reader, 'e, bytes) proc"
  assumes read_frame:
    "ok p \<Longrightarrow> read \<lparr>rd_bytes = frame p @ rest, rd_end = e\<rparr> = (Inr p, \<lparr>rd_bytes = rest, rd_end = e\<rparr>)"
begin

lemma read_sequence:
  assumes "list_all ok ps"
  shows "read_many read (length ps) \<lparr>rd_bytes = concat (map frame ps) @ rest, rd_end = e\<rparr> =
         (Inr ps, \<lparr>rd_bytes = rest, rd_end = e\<rparr>)"
  using assms
proof (induction ps)
  case Nil
  then show ?case by simp
next
  case (Cons p ps)
  then show ?case
    by (simp add: andthen_apply read_frame)
qed

lemma unique_frame:
  assumes "ok p" "ok q" "frame p @ r = frame q @ s"
  shows "p = q \<and> r = s"
proof -
  have "read \<lparr>rd_bytes = frame q @ s, rd_end = None\<rparr> = (Inr p, \<lparr>rd_bytes = r, rd_end = None\<rparr>)"
    using read_frame [OF assms(1), of r None] unfolding assms(3) .
  moreover have "read \<lparr>rd_bytes = frame q @ s, rd_end = None\<rparr> = (Inr q, \<lparr>rd_bytes = s, rd_end = None\<rparr>)"
    using assms(2) by (rule read_frame)
  ultimately show ?thesis by simp
qed

end

lemma unat_len_u32: "n < 2 ^ 32 \<Longrightarrow> unat (word_of_nat n :: u32) = n"
  by (simp add: unsigned_of_nat take_bit_nat_eq_self)

lemma fits_bounds:
  assumes "fits p"
  shows "unat (word_of_nat (length p) :: u32) = length p"
    and "\<not> (word_of_nat (length p) :: u32) > MAX_MESSAGE_SIZE"
proof -
  have "length p < 2 ^ 32"
    using assms by (simp add: fits_def MAX_MESSAGE_SIZE_def)
  then show u: "unat (word_of_nat (length p) :: u32) = length p"
    by (rule unat_len_u32)
  show "\<not> (word_of_nat (length p) :: u32) > MAX_MESSAGE_SIZE"
    using assms u by (simp add: fits_def word_less_nat_alt)
qed

lemma rz_fits_bounds:
  assumes "rz_fits p"
  shows "unat (word_of_nat (length p) :: u32) = length p"
    and "\<not> (word_of_nat (length p) :: u32) > MAX_FRAME_BYTES"
proof -
  have "length p < 2 ^ 32"
    using assms by (simp add: rz_fits_def MAX_FRAME_BYTES_def)
  then show u: "unat (word_of_nat (length p) :: u32) = length p"
    by (rule unat_len_u32)
  show "\<not> (word_of_nat (length p) :: u32) > MAX_FRAME_BYTES"
    using assms u by (simp add: rz_fits_def word_less_nat_alt)
qed

lemma read_first_byte_Cons [simp]:
  "read_first_byte \<lparr>rd_bytes = b # bs, rd_end = e\<rparr> = (Inr [b], \<lparr>rd_bytes = bs, rd_end = e\<rparr>)"
  by (simp add: read_first_byte_def read_byte_def)

lemma read_frame_frame_of:
  assumes "fits p"
  shows "read_frame \<lparr>rd_bytes = frame_of p @ rest, rd_end = e\<rparr> = (Inr p, \<lparr>rd_bytes = rest, rd_end = e\<rparr>)"
proof -
  have magic: "PROTOCOL_MAGIC = hd PROTOCOL_MAGIC # tl PROTOCOL_MAGIC" "length (tl PROTOCOL_MAGIC) = 3"
    by (simp_all add: PROTOCOL_MAGIC_def)
  have "frame_of p @ rest =
      hd PROTOCOL_MAGIC # tl PROTOCOL_MAGIC @ word_be 4 (word_of_nat (length p) :: u32) @ p @ rest"
    by (subst (1) frame_of_def, subst magic(1)) simp
  then show ?thesis
    using fits_bounds [OF assms] magic(2)
    by (simp add: read_frame_def andthen_apply flip: magic(1))
qed

lemma rz_read_frame_frame_of:
  assumes "rz_fits p"
  shows "rz_read_frame \<lparr>rd_bytes = rz_frame_of p @ rest, rd_end = e\<rparr> =
         (Inr p, \<lparr>rd_bytes = rest, rd_end = e\<rparr>)"
  using rz_fits_bounds [OF assms]
  by (simp add: rz_read_frame_def rz_frame_of_def andthen_apply)

interpretation control: framing frame_of fits read_frame
  by unfold_locales (rule read_frame_frame_of)

interpretation rendezvous: framing rz_frame_of rz_fits rz_read_frame
  by unfold_locales (rule rz_read_frame_frame_of)

section \<open>Messages over the framing\<close>

lemma write_message_Inr:
  "to_vec m = Inr p \<Longrightarrow> fits p \<Longrightarrow>
   write_message to_vec m \<lparr>wr_out = out, wr_fail = None\<rparr> = (Inr (), \<lparr>wr_out = out @ frame_of p, wr_fail = None\<rparr>)"
  by (simp add: write_message_def fits_def frame_of_def Let_def map_err_apply write_all_def)

lemma write_message_too_large:
  "to_vec m = Inr p \<Longrightarrow> \<not> fits p \<Longrightarrow> \<exists>s. write_message to_vec m w = (Inl (Protocol s), w)"
  by (simp add: write_message_def fits_def)

text \<open>Writing a list of messages one after the other.\<close>

fun write_messages ::
  "(message \<Rightarrow> string + bytes) \<Rightarrow> message list \<Rightarrow> (writer, error, unit) proc" where
  "write_messages to_vec [] = ret ()"
| "write_messages to_vec (m # ms) = andthen (write_message to_vec m) (\<lambda>_. write_messages to_vec ms)"

lemma write_messages_out:
  assumes "write_messages to_vec ms \<lparr>wr_out = out, wr_fail = None\<rparr> = (Inr (), w)"
  shows "\<exists>ps. list_all2 (\<lambda>m p. to_vec m = Inr p \<and> fits p) ms ps \<and>
              w = \<lparr>wr_out = out @ concat (map frame_of ps), wr_fail = None\<rparr>"
  using assms
proof (induction ms arbitrary: out)
  case Nil
  then show ?case by simp
next
  case (Cons m ms)
  then obtain w1 where w1: "write_message to_vec m \<lparr>wr_out = out, wr_fail = None\<rparr> = (Inr (), w1)"
      and rest: "write_messages to_vec ms w1 = (Inr (), w)"
    by (auto simp: andthen_eq_Inr)
  obtain p where p: "to_vec m = Inr p" "fits p"
    using w1 by (auto simp: write_message_def fits_def split: sum.splits if_splits)
  with w1 have "w1 = \<lparr>wr_out = out @ frame_of p, wr_fail = None\<rparr>"
    by (simp add: write_message_Inr)
  with rest Cons.IH obtain ps where
      "list_all2 (\<lambda>m p. to_vec m = Inr p \<and> fits p) ms ps"
      "w = \<lparr>wr_out = (out @ frame_of p) @ concat (map frame_of ps), wr_fail = None\<rparr>"
    by blast
  with p show ?case
    by (intro exI [of _ "p # ps"]) simp
qed

lemma read_message_frame:
  "fits p \<Longrightarrow> from_slice p = Inr m \<Longrightarrow>
   read_message from_slice \<lparr>rd_bytes = frame_of p @ rest, rd_end = e\<rparr> = (Inr m, \<lparr>rd_bytes = rest, rd_end = e\<rparr>)"
  by (simp add: read_message_def andthen_apply control.read_frame)

lemma read_messages_frames:
  assumes "list_all2 (\<lambda>m p. from_slice p = Inr m \<and> fits p) ms ps"
  shows "read_many (read_message from_slice) (length ms)
           \<lparr>rd_bytes = concat (map frame_of ps) @ rest, rd_end = e\<rparr> =
         (Inr ms, \<lparr>rd_bytes = rest, rd_end = e\<rparr>)"
  using assms
  by (induction rule: list_all2_induct) (simp_all add: andthen_apply read_message_frame)

text \<open>
  C26: whatever sequence of messages one side manages to write to the
  control stream, the other side reads back exactly that sequence, provided the serializer's
  \<open>from_slice\<close> inverts its \<open>to_vec\<close>; after the last frame a closed stream reads as a clean
  \<open>Disconnected\<close>.
\<close>

theorem control_stream_roundtrip:
  assumes inv: "\<And>m p. to_vec m = Inr p \<Longrightarrow> from_slice p = Inr m"
    and wrote: "write_messages to_vec ms \<lparr>wr_out = [], wr_fail = None\<rparr> = (Inr (), w)"
  shows "read_many (read_message from_slice) (length ms) \<lparr>rd_bytes = wr_out w, rd_end = None\<rparr> =
           (Inr ms, \<lparr>rd_bytes = [], rd_end = None\<rparr>) \<and>
         read_message from_slice \<lparr>rd_bytes = [], rd_end = None\<rparr> =
           (Inl Disconnected, \<lparr>rd_bytes = [], rd_end = None\<rparr>)"
proof
  obtain ps where ps: "list_all2 (\<lambda>m p. to_vec m = Inr p \<and> fits p) ms ps"
      and w: "wr_out w = concat (map frame_of ps)"
    using write_messages_out [OF wrote] by auto
  from ps have "list_all2 (\<lambda>m p. from_slice p = Inr m \<and> fits p) ms ps"
    by (rule list_all2_mono) (simp add: inv)
  from read_messages_frames [OF this, of "[]" None] w
  show "read_many (read_message from_slice) (length ms) \<lparr>rd_bytes = wr_out w, rd_end = None\<rparr> =
          (Inr ms, \<lparr>rd_bytes = [], rd_end = None\<rparr>)" by simp
  show "read_message from_slice \<lparr>rd_bytes = [], rd_end = None\<rparr> =
          (Inl Disconnected, \<lparr>rd_bytes = [], rd_end = None\<rparr>)"
    by (simp add: read_message_def read_frame_def read_first_byte_def read_byte_def andthen_apply)
qed

theorem control_stream_roundtrip_witness:
  "read_many (read_message (\<lambda>p. if p = [7] then Inr Ping else Inl ''bad'')) (length [Ping, Ping])
     \<lparr>rd_bytes = frame_of [7] @ frame_of [7], rd_end = None\<rparr> =
   (Inr [Ping, Ping], \<lparr>rd_bytes = [], rd_end = None\<rparr>)"
proof -
  let ?to = "\<lambda>m. if m = Ping then Inr [7] else Inl ''bad''"
  let ?from = "\<lambda>p. if p = [7] then Inr Ping else Inl ''bad''"
  have f: "fits [7]" by (simp add: fits_def MAX_MESSAGE_SIZE_def)
  have inv: "?to m = Inr p \<Longrightarrow> ?from p = Inr m" for m p
    by (auto split: if_splits)
  have "write_messages ?to [Ping, Ping] \<lparr>wr_out = [], wr_fail = None\<rparr> =
      (Inr (), \<lparr>wr_out = frame_of [7] @ frame_of [7], wr_fail = None\<rparr>)"
    using f by (simp add: andthen_apply write_message_Inr)
  from conjunct1 [OF control_stream_roundtrip [OF inv this]]
  show ?thesis by (simp only: writer.select_convs)
qed

text \<open>
  A stream that stops inside a frame. \<open>map_err_read_exact_short\<close> is the short read every stage
  of \<open>read_frame\<close> reports.
\<close>

lemma map_err_read_exact_short:
  "length bs < n \<Longrightarrow>
   map_err f (read_exact n) \<lparr>rd_bytes = bs, rd_end = e\<rparr> =
     (Inl (f (case e of None \<Rightarrow> IoError UnexpectedEof ''early eof'' | Some x \<Rightarrow> x)),
      \<lparr>rd_bytes = [], rd_end = e\<rparr>)"
  by (simp add: map_err_apply read_exact_def)

lemma read_frame_short_magic:
  "length bs < 3 \<Longrightarrow> \<exists>s. fst (read_frame \<lparr>rd_bytes = b # bs, rd_end = e\<rparr>) = Inl (Protocol s)"
  by (simp add: read_frame_def andthen_apply map_err_read_exact_short)

lemma read_frame_short_header:
  assumes "b # m = PROTOCOL_MAGIC" "length bs < 4"
  shows "\<exists>s. fst (read_frame \<lparr>rd_bytes = b # m @ bs, rd_end = e\<rparr>) = Inl (Protocol s)"
proof -
  have "length m = 3"
    using arg_cong [OF assms(1), of length] by simp
  with assms show ?thesis
    by (simp add: read_frame_def andthen_apply map_err_read_exact_short)
qed

lemma read_frame_short_payload:
  assumes "b # m = PROTOCOL_MAGIC" "fits p" "length bs < length p"
  shows "\<exists>s. fst (read_frame \<lparr>rd_bytes = b # m @ word_be 4 (word_of_nat (length p) :: u32) @ bs,
                             rd_end = e\<rparr>) = Inl (Protocol s)"
proof -
  have "length m = 3"
    using arg_cong [OF assms(1), of length] by simp
  with assms fits_bounds [OF assms(2)] show ?thesis
    by (simp add: read_frame_def andthen_apply map_err_read_exact_short)
qed

lemma frame_of_split:
  obtains b m where "b # m = PROTOCOL_MAGIC" "length m = 3"
    "frame_of p = b # m @ word_be 4 (word_of_nat (length p) :: u32) @ p"
proof
  show "hd PROTOCOL_MAGIC # tl PROTOCOL_MAGIC = PROTOCOL_MAGIC" "length (tl PROTOCOL_MAGIC) = 3"
    by (simp_all add: PROTOCOL_MAGIC_def)
  then show "frame_of p =
      hd PROTOCOL_MAGIC # tl PROTOCOL_MAGIC @ word_be 4 (word_of_nat (length p) :: u32) @ p"
    unfolding frame_of_def by (metis append_Cons)
qed

text \<open>
  A control frame cut off anywhere after its first byte is reported as
  \<open>Protocol\<close>, never as a disconnect and never as a message, whether the stream then ends cleanly
  or with any I/O error, and whatever the deserializer does.
\<close>

lemma truncated_frame:
  assumes "fits p" "0 < k" "k < length (frame_of p)"
  shows "\<exists>s. fst (read_message from_slice \<lparr>rd_bytes = take k (frame_of p), rd_end = e\<rparr>) =
             Inl (Protocol s)"
proof -
  let ?len = "word_be 4 (word_of_nat (length p) :: u32)"
  obtain b m where bm: "b # m = PROTOCOL_MAGIC" "length m = 3" "frame_of p = b # m @ ?len @ p"
    by (rule frame_of_split)
  obtain j where k: "k = Suc j" using assms(2) by (cases k) auto
  have j: "j < 7 + length p" using assms(3) by (simp add: k bm(2,3))
  have "\<exists>s. fst (read_frame \<lparr>rd_bytes = take k (frame_of p), rd_end = e\<rparr>) = Inl (Protocol s)"
  proof -
    consider "j < 3" | "3 \<le> j" "j < 7" | "7 \<le> j" by linarith
    then show ?thesis
    proof cases
      case 1
      then show ?thesis by (simp add: k bm(3) read_frame_short_magic)
    next
      case 2
      with bm(1,2) show ?thesis by (simp add: k bm(3) read_frame_short_header)
    next
      case 3
      with j bm(2) show ?thesis
        by (simp add: k bm(3) read_frame_short_payload [OF bm(1) assms(1)])
    qed
  qed
  then obtain s where "fst (read_frame \<lparr>rd_bytes = take k (frame_of p), rd_end = e\<rparr>) = Inl (Protocol s)"
    by blast
  then show ?thesis
    by (auto simp: read_message_def andthen_apply split: prod.splits)
qed

lemma truncated_frame_witness:
  "\<exists>s. fst (read_message (\<lambda>_. Inr Ping) \<lparr>rd_bytes = take 9 (frame_of [1, 2]), rd_end = None\<rparr>) =
       Inl (Protocol s)"
proof (rule truncated_frame)
  show "fits [1, 2]" by (simp add: fits_def MAX_MESSAGE_SIZE_def)
  show "9 < length (frame_of [1, 2])" by (simp add: frame_of_def)
qed simp

end
