(* ===== verification/Compression.thy ===== *)
theory Compression
  imports Wire_Protocol
begin

text \<open>
  \<open>p2p-core/src/compression.rs\<close>: the adaptive compressor that samples the first chunks and then
  keeps or drops compression for the rest of the file. \<open>zstd::encode_all\<close> and
  \<open>zstd::decode_all\<close> are parameters (\<open>encode\<close>, \<open>decode\<close>). The \<open>f64\<close> ratio is an exact
  rational here; a ratio over a zero denominator is infinite or not a number in the code, and
  compares as not below the threshold. The byte and chunk counters are \<open>usize\<close> sums over
  \<open>sample_size\<close> chunks at most, kept as naturals.
\<close>

section \<open>Compressor and decompressor\<close>

type_synonym zstd_encode = "bytes \<Rightarrow> 32 word \<Rightarrow> string + bytes"
type_synonym zstd_decode = "bytes \<Rightarrow> string + bytes"

definition compress :: "zstd_encode \<Rightarrow> bytes \<Rightarrow> 32 word \<Rightarrow> bytes result" where
  "compress encode data level = map_sum CompressionError id (encode data level)"

definition decompress :: "zstd_decode \<Rightarrow> bytes \<Rightarrow> bytes result" where
  "decompress decode data = map_sum DecompressionError id (decode data)"

record adaptive_compressor =
  ac_level :: "32 word"
  ac_sample_size :: nat
  ac_threshold :: rat
  ac_chunks_sampled :: nat
  ac_total_original_size :: nat
  ac_total_compressed_size :: nat
  ac_compression_enabled :: bool
  ac_compression_decided :: bool

definition adaptive_default :: adaptive_compressor where
  "adaptive_default = \<lparr> ac_level = 3, ac_sample_size = 3, ac_threshold = 105 / 100,
     ac_chunks_sampled = 0, ac_total_original_size = 0, ac_total_compressed_size = 0,
     ac_compression_enabled = True, ac_compression_decided = False \<rparr>"

definition adaptive_new :: "32 word \<Rightarrow> nat \<Rightarrow> adaptive_compressor" where
  "adaptive_new level sample_size =
     adaptive_default\<lparr> ac_level := level, ac_sample_size := sample_size,
                       ac_compression_decided := (sample_size = 0) \<rparr>"

definition ratio_below :: "nat \<Rightarrow> nat \<Rightarrow> rat \<Rightarrow> bool" where
  "ratio_below original compressed threshold \<longleftrightarrow>
     compressed \<noteq> 0 \<and> of_nat original / of_nat compressed < threshold"

text \<open>The result is the data to send, whether it is compressed, and whether the decision changed.\<close>

definition adaptive_compress ::
  "zstd_encode \<Rightarrow> bytes \<Rightarrow> (adaptive_compressor, error, bytes \<times> bool \<times> bool) proc" where
  "adaptive_compress encode data = (\<lambda>ac.
     if ac_compression_decided ac \<and> \<not> ac_compression_enabled ac
     then (Inr (data, False, False), ac)
     else case compress encode data (ac_level ac) of
       Inl e \<Rightarrow> (Inl e, ac)
     | Inr compressed \<Rightarrow>
         if \<not> ac_compression_decided ac then
           let ac1 = ac\<lparr> ac_chunks_sampled := ac_chunks_sampled ac + 1,
                         ac_total_original_size := ac_total_original_size ac + length data,
                         ac_total_compressed_size := ac_total_compressed_size ac + length compressed \<rparr>
           in if ac_chunks_sampled ac1 \<ge> ac_sample_size ac1 then
                let ac2 = ac1\<lparr> ac_compression_decided := True \<rparr>
                in if ratio_below (ac_total_original_size ac2) (ac_total_compressed_size ac2)
                        (ac_threshold ac2)
                   then (Inr (compressed, True, True), ac2\<lparr> ac_compression_enabled := False \<rparr>)
                   else (Inr (compressed, True, False), ac2)
              else (Inr (compressed, True, False), ac1)
         else (Inr (compressed, True, False), ac))"

record compression_stats =
  st_chunks_sampled :: nat
  st_original_size :: nat
  st_compressed_size :: nat
  st_ratio :: rat
  st_enabled :: bool
  st_decided :: bool

definition stats :: "adaptive_compressor \<Rightarrow> compression_stats" where
  "stats ac = \<lparr> st_chunks_sampled = ac_chunks_sampled ac,
     st_original_size = ac_total_original_size ac,
     st_compressed_size = ac_total_compressed_size ac,
     st_ratio = (if ac_total_compressed_size ac > 0
                 then of_nat (ac_total_original_size ac) / of_nat (ac_total_compressed_size ac) else 1),
     st_enabled = ac_compression_enabled ac, st_decided = ac_compression_decided ac \<rparr>"

section \<open>Lemmas\<close>

text \<open>Running the compressor over the chunks of a file, in order.\<close>

fun compress_all ::
  "zstd_encode \<Rightarrow> bytes list \<Rightarrow> (adaptive_compressor, error, (bytes \<times> bool) list) proc" where
  "compress_all encode [] = ret []"
| "compress_all encode (c # cs) =
     andthen (adaptive_compress encode c) (\<lambda>(d, used, _).
     andthen (compress_all encode cs) (\<lambda>ds. ret ((d, used) # ds)))"

text \<open>What the receiver does with the flag (see \<open>receive_file\<close>).\<close>

definition expand :: "zstd_decode \<Rightarrow> bytes \<times> bool \<Rightarrow> bytes result" where
  "expand decode = (\<lambda>(d, used). if used then decompress decode d else Inr d)"

lemma adaptive_compress_result:
  assumes "adaptive_compress encode data ac = (Inr (d, used, changed), ac')"
  shows "(used \<longrightarrow> encode data (ac_level ac) = Inr d) \<and> (\<not> used \<longrightarrow> d = data) \<and>
         ac_level ac' = ac_level ac"
  using assms
  by (auto simp: adaptive_compress_def compress_def Let_def split: if_splits sum.splits)

lemma adaptive_compress_decided:
  assumes "adaptive_compress encode data ac = (Inr (d, used, changed), ac')"
    and "ac_compression_decided ac"
  shows "ac' = ac \<and> used = ac_compression_enabled ac \<and> \<not> changed"
  using assms
  by (auto simp: adaptive_compress_def compress_def Let_def split: if_splits sum.splits)

lemma adaptive_compress_sampling:
  assumes "adaptive_compress encode data ac = (Inr (d, used, changed), ac')"
    and "\<not> ac_compression_decided ac" "ac_compression_enabled ac"
  shows "used" "ac_chunks_sampled ac' = ac_chunks_sampled ac + 1"
    "ac_total_original_size ac' = ac_total_original_size ac + length data"
    "ac_total_compressed_size ac' = ac_total_compressed_size ac + length d"
    "ac_sample_size ac' = ac_sample_size ac" "ac_threshold ac' = ac_threshold ac"
    "ac_compression_decided ac' \<longleftrightarrow> ac_sample_size ac \<le> ac_chunks_sampled ac + 1"
    "ac_compression_enabled ac' \<longleftrightarrow> \<not> (ac_compression_decided ac' \<and>
        ratio_below (ac_total_original_size ac') (ac_total_compressed_size ac') (ac_threshold ac))"
  using assms
  by (auto simp: adaptive_compress_def compress_def Let_def split: if_splits sum.splits)

lemma compress_all_expand:
  assumes inv: "\<And>x l y. encode x l = Inr y \<Longrightarrow> decode y = Inr x"
    and run: "compress_all encode cs ac = (Inr ds, ac')"
  shows "map (expand decode) ds = map Inr cs"
  using run
proof (induction cs arbitrary: ac ds)
  case Nil
  then show ?case by simp
next
  case (Cons c cs)
  then obtain d used ch ac1 ds1 where
      step: "adaptive_compress encode c ac = (Inr (d, used, ch), ac1)"
      and rest: "compress_all encode cs ac1 = (Inr ds1, ac')" and ds: "ds = (d, used) # ds1"
    by (auto simp: andthen_eq_Inr)
  have "expand decode (d, used) = Inr c"
    using adaptive_compress_result [OF step] inv by (auto simp: expand_def decompress_def)
  with Cons.IH [OF rest] show ?case by (simp add: ds)
qed

text \<open>The decided phase sends every chunk the same way.\<close>

lemma compress_all_decided:
  assumes "compress_all encode cs ac = (Inr ds, ac')" "ac_compression_decided ac"
  shows "ac' = ac \<and> map snd ds = replicate (length cs) (ac_compression_enabled ac)"
  using assms
proof (induction cs arbitrary: ds)
  case Nil
  then show ?case by simp
next
  case (Cons c cs)
  then obtain d used ch ac1 ds1 where
      step: "adaptive_compress encode c ac = (Inr (d, used, ch), ac1)"
      and rest: "compress_all encode cs ac1 = (Inr ds1, ac')" and ds: "ds = (d, used) # ds1"
    by (auto simp: andthen_eq_Inr)
  have "ac1 = ac" "used = ac_compression_enabled ac"
    using adaptive_compress_decided [OF step Cons.prems(2)] by auto
  with Cons.IH [of ds1] rest Cons.prems(2) show ?case by (simp add: ds)
qed

text \<open>
  The flags of a whole run: \<open>pre\<close> chunks are compressed while sampling, and then all the rest
  carry the one decision.
\<close>

lemma compress_all_flags:
  assumes "compress_all encode cs ac = (Inr ds, ac')"
    and "\<not> ac_compression_decided ac" "ac_compression_enabled ac"
    and "ac_chunks_sampled ac < ac_sample_size ac"
  shows "\<exists>keep. map snd ds =
           replicate (min (length cs) (ac_sample_size ac - ac_chunks_sampled ac)) True @
           replicate (length cs - (ac_sample_size ac - ac_chunks_sampled ac)) keep"
  using assms
proof (induction cs arbitrary: ac ds)
  case Nil
  then show ?case by simp
next
  case (Cons c cs)
  then obtain d used ch ac1 ds1 where
      step: "adaptive_compress encode c ac = (Inr (d, used, ch), ac1)"
      and rest: "compress_all encode cs ac1 = (Inr ds1, ac')" and ds: "ds = (d, used) # ds1"
    by (auto simp: andthen_eq_Inr)
  note samp = adaptive_compress_sampling [OF step Cons.prems(2,3)]
  show ?case
  proof (cases "ac_compression_decided ac1")
    case True
    then have one: "ac_sample_size ac - ac_chunks_sampled ac = 1"
      using samp(7) Cons.prems(4) by simp
    have "map snd ds = True # replicate (length cs) (ac_compression_enabled ac1)"
      using compress_all_decided [OF rest True] samp(1) by (simp add: ds)
    then show ?thesis by (auto simp: one min_def)
  next
    case False
    then have "ac_compression_enabled ac1" "ac_chunks_sampled ac1 < ac_sample_size ac1"
      using samp by auto
    then obtain keep where
      "map snd ds1 =
         replicate (min (length cs) (ac_sample_size ac1 - ac_chunks_sampled ac1)) True @
         replicate (length cs - (ac_sample_size ac1 - ac_chunks_sampled ac1)) keep"
      using Cons.IH [OF rest False] by blast
    moreover have "ac_sample_size ac - ac_chunks_sampled ac =
        Suc (ac_sample_size ac1 - ac_chunks_sampled ac1)"
      using samp(2,5) Cons.prems(4) by simp
    ultimately show ?thesis
      using samp(1) by (intro exI [of _ keep]) (simp add: ds)
  qed
qed

text \<open>
  C35: over any chunks of a file, the receiver's reading of the
  per-chunk flag gives back exactly the chunks (given that zstd decoding inverts encoding); the
  first \<open>sample_size\<close> chunks travel compressed and every later chunk the same way, all compressed
  or none.
\<close>

theorem adaptive_compression_lossless:
  assumes inv: "\<And>x l y. encode x l = Inr y \<Longrightarrow> decode y = Inr x"
    and run: "compress_all encode cs (adaptive_new level n) = (Inr ds, ac')"
  shows "map (expand decode) ds = map Inr cs \<and>
         (\<exists>keep. map snd ds = replicate (min (length cs) n) True @ replicate (length cs - n) keep)"
proof
  show "map (expand decode) ds = map Inr cs"
    using inv run by (rule compress_all_expand)
  show "\<exists>keep. map snd ds = replicate (min (length cs) n) True @ replicate (length cs - n) keep"
  proof (cases "n = 0")
    case True
    then show ?thesis
      using compress_all_decided [OF run]
      by (intro exI [of _ True]) (simp add: adaptive_new_def adaptive_default_def)
  next
    case False
    then show ?thesis
      using compress_all_flags [OF run]
      by (simp add: adaptive_new_def adaptive_default_def)
  qed
qed

theorem adaptive_compression_lossless_witness:
  "map (expand (\<lambda>d. Inr (tl d))) [([9, 1, 2], True), ([3], False)] = map Inr [[1, 2], [3]]"
proof (rule conjunct1, rule adaptive_compression_lossless)
  let ?enc = "(\<lambda>d _. Inr (9 # d)) :: zstd_encode"
  show "compress_all ?enc [[1, 2], [3]] (adaptive_new 3 1) =
      (Inr [([9, 1, 2], True), ([3], False)],
       snd (compress_all ?enc [[1, 2], [3]] (adaptive_new 3 1)))"
    by (simp add: andthen_apply adaptive_compress_def adaptive_new_def adaptive_default_def
        compress_def ratio_below_def Let_def)
qed simp

text \<open>
  The compressor decides exactly at the \<open>sample_size\<close>-th chunk, turns
  compression off only when the sampled sizes' ratio is below the threshold, and never revises
  a decision.
\<close>

lemma adaptive_decision:
  assumes "adaptive_compress encode data ac = (Inr (d, used, changed), ac')"
    and "ac_compression_enabled ac \<or> ac_compression_decided ac"
  shows "if ac_compression_decided ac
         then ac' = ac \<and> used = ac_compression_enabled ac \<and> \<not> changed
         else used \<and>
              (ac_compression_decided ac' \<longleftrightarrow> ac_sample_size ac \<le> ac_chunks_sampled ac + 1) \<and>
              (changed \<longleftrightarrow> \<not> ac_compression_enabled ac') \<and>
              (changed \<longleftrightarrow> ac_compression_decided ac' \<and>
                 ratio_below (ac_total_original_size ac + length data)
                   (ac_total_compressed_size ac + length d) (ac_threshold ac))"
  using assms
  by (auto simp: adaptive_compress_def compress_def Let_def split: if_splits sum.splits)

lemma adaptive_decision_witness:
  "let ac = adaptive_new 3 1; (r, ac') = adaptive_compress (\<lambda>d _. Inr (9 # d)) [1, 2] ac
   in r = Inr ([9, 1, 2], True, True) \<and> ac_compression_decided ac' \<and> \<not> ac_compression_enabled ac'"
proof -
  let ?ac = "adaptive_new 3 1"
  let ?ac' = "?ac\<lparr> ac_chunks_sampled := 1, ac_total_original_size := 2,
     ac_total_compressed_size := 3, ac_compression_decided := True, ac_compression_enabled := False \<rparr>"
  have run: "adaptive_compress (\<lambda>d _. Inr (9 # d)) [1, 2] ?ac = (Inr ([9, 1, 2], True, True), ?ac')"
    by (simp add: adaptive_compress_def adaptive_new_def adaptive_default_def compress_def
        ratio_below_def Let_def)
  have "ac_compression_enabled ?ac \<or> ac_compression_decided ?ac"
    by (simp add: adaptive_new_def adaptive_default_def)
  from adaptive_decision [OF run this] show ?thesis
    unfolding Let_def run prod.case by simp
qed

end
