(* ===== verification/Bandwidth.thy ===== *)
theory Bandwidth
  imports Wire_Protocol
begin

text \<open>
  \<open>p2p-core/src/bandwidth.rs\<close>: the token bucket. Times and token counts are \<open>f64\<close> in the code
  and exact rationals here (seconds and bytes); rounding is not modelled. An \<open>Instant\<close> is a
  rational number of seconds. \<open>wait_for_tokens\<close> is a loop that may sleep: one pass of it is
  \<open>bucket_pass\<close>, and \<open>wait_loop\<close> repeats it, where \<open>late\<close> is by how much each sleep overruns.
\<close>

record token_bucket =
  tb_tokens :: rat
  tb_capacity :: rat
  tb_refill_rate :: rat
  tb_last_refill :: rat

record bandwidth_limiter =
  bl_max_bytes_per_sec :: u64
  bl_bucket :: token_bucket

text \<open>\<open>(max_bytes_per_sec * 2) as f64\<close>: the multiplication is on \<open>u64\<close> and wraps.\<close>

definition limiter_new :: "u64 \<Rightarrow> rat \<Rightarrow> bandwidth_limiter" where
  "limiter_new rate now =
     (let capacity = (if rate > 0 then of_nat (unat (rate * 2)) else 0) in
      \<lparr> bl_max_bytes_per_sec = rate,
        bl_bucket = \<lparr> tb_tokens = capacity, tb_capacity = capacity,
                      tb_refill_rate = of_nat (unat rate), tb_last_refill = now \<rparr> \<rparr>)"

definition is_enabled :: "bandwidth_limiter \<Rightarrow> bool" where
  "is_enabled l \<longleftrightarrow> bl_max_bytes_per_sec l > 0"

definition refill :: "rat \<Rightarrow> token_bucket \<Rightarrow> token_bucket" where
  "refill now b =
     (let new_tokens = (now - tb_last_refill b) * tb_refill_rate b in
      b\<lparr> tb_tokens := min (tb_tokens b + new_tokens) (tb_capacity b), tb_last_refill := now \<rparr>)"

text \<open>One pass of the loop: \<open>Inr\<close> when the tokens were taken, \<open>Inl\<close> the time to sleep.\<close>

definition bucket_pass :: "rat \<Rightarrow> rat \<Rightarrow> (token_bucket, rat, unit) proc" where
  "bucket_pass now n = (\<lambda>b.
     let b1 = refill now b in
     if tb_tokens b1 \<ge> n then (Inr (), b1\<lparr> tb_tokens := tb_tokens b1 - n \<rparr>)
     else (Inl ((n - tb_tokens b1) / tb_refill_rate b1), b1))"

fun wait_loop :: "nat \<Rightarrow> (nat \<Rightarrow> rat) \<Rightarrow> rat \<Rightarrow> rat \<Rightarrow> token_bucket \<Rightarrow> (token_bucket \<times> rat) option" where
  "wait_loop 0 late n now b = None"
| "wait_loop (Suc fuel) late n now b =
     (case bucket_pass now n b of
        (Inr _, b1) \<Rightarrow> Some (b1, now)
      | (Inl w, b1) \<Rightarrow> wait_loop fuel late n (now + w + late fuel) b1)"

definition wait_for_tokens ::
  "nat \<Rightarrow> (nat \<Rightarrow> rat) \<Rightarrow> nat \<Rightarrow> rat \<Rightarrow> bandwidth_limiter \<Rightarrow> (bandwidth_limiter \<times> rat) option" where
  "wait_for_tokens fuel late n now l =
     (if \<not> is_enabled l then Some (l, now)
      else map_option (\<lambda>(b, t). (l\<lparr> bl_bucket := b \<rparr>, t))
             (wait_loop fuel late (of_nat n) now (bl_bucket l)))"

record bandwidth_stats =
  bs_max_bytes_per_sec :: u64
  bs_available_tokens :: rat
  bs_capacity :: rat

definition limiter_stats :: "bandwidth_limiter \<Rightarrow> bandwidth_stats" where
  "limiter_stats l =
     (if \<not> is_enabled l
      then \<lparr> bs_max_bytes_per_sec = 0, bs_available_tokens = 0, bs_capacity = 0 \<rparr>
      else \<lparr> bs_max_bytes_per_sec = bl_max_bytes_per_sec l,
             bs_available_tokens = tb_tokens (bl_bucket l), bs_capacity = tb_capacity (bl_bucket l) \<rparr>)"

section \<open>Invariant\<close>

definition bucket_ok :: "token_bucket \<Rightarrow> bool" where
  "bucket_ok b \<longleftrightarrow> 0 \<le> tb_tokens b \<and> tb_tokens b \<le> tb_capacity b \<and> 0 < tb_refill_rate b"

lemma refill_frame [simp]:
  "tb_capacity (refill now b) = tb_capacity b"
  "tb_refill_rate (refill now b) = tb_refill_rate b"
  "tb_last_refill (refill now b) = now"
  by (simp_all add: refill_def Let_def)

lemma refill_tokens:
  "tb_tokens (refill now b) =
     min (tb_tokens b + (now - tb_last_refill b) * tb_refill_rate b) (tb_capacity b)"
  by (simp add: refill_def Let_def)

lemma bucket_ok_refill:
  assumes "bucket_ok b" "tb_last_refill b \<le> now"
  shows "bucket_ok (refill now b)"
proof -
  have "0 \<le> (now - tb_last_refill b) * tb_refill_rate b"
    using assms by (intro mult_nonneg_nonneg) (auto simp: bucket_ok_def)
  with assms show ?thesis by (auto simp: bucket_ok_def refill_tokens)
qed

lemma bucket_pass_ok:
  assumes "bucket_ok b" "tb_last_refill b \<le> now" "0 \<le> n"
  shows "bucket_ok (snd (bucket_pass now n b))"
  using bucket_ok_refill [OF assms(1,2)] assms(3)
  by (auto simp: bucket_pass_def Let_def bucket_ok_def)

lemma bucket_pass_frame [simp]:
  "tb_capacity (snd (bucket_pass now n b)) = tb_capacity b"
  "tb_refill_rate (snd (bucket_pass now n b)) = tb_refill_rate b"
  "tb_last_refill (snd (bucket_pass now n b)) = now"
  by (auto simp: bucket_pass_def Let_def)

lemma bucket_pass_never:
  "tb_capacity b < n \<Longrightarrow> \<exists>w. fst (bucket_pass now n b) = Inl w"
  by (auto simp: bucket_pass_def Let_def refill_tokens)

lemma wait_loop_never: "tb_capacity b < n \<Longrightarrow> wait_loop fuel late n now b = None"
proof (induction fuel arbitrary: now b)
  case 0
  then show ?case by simp
next
  case (Suc fuel)
  obtain w b1 where p: "bucket_pass now n b = (Inl w, b1)"
    using bucket_pass_never [OF Suc.prems, of now] by (metis prod.collapse)
  have "tb_capacity b1 = tb_capacity b"
    using bucket_pass_frame(1) [of now n b] by (simp add: p)
  with Suc show ?case by (simp add: p)
qed

text \<open>After one sleep the second pass succeeds whenever the request fits the bucket.\<close>

lemma second_pass_succeeds:
  assumes "bucket_pass now n b = (Inl w, b1)" "n \<le> tb_capacity b" "0 < tb_refill_rate b" "0 \<le> d"
  shows "\<exists>b2. bucket_pass (now + w + d) n b1 = (Inr (), b2)"
proof -
  have b1: "b1 = refill now b" and w: "w = (n - tb_tokens b1) / tb_refill_rate b"
    using assms(1) by (auto simp: bucket_pass_def Let_def split: if_splits)
  have "tb_tokens b1 + (w + d) * tb_refill_rate b = n + d * tb_refill_rate b"
    using assms(3) by (simp add: w field_simps)
  moreover have "0 \<le> d * tb_refill_rate b"
    using assms(3,4) by simp
  ultimately have "n \<le> tb_tokens (refill (now + w + d) b1)"
    using assms(2) by (simp add: refill_tokens b1 add.assoc algebra_simps)
  then show ?thesis by (auto simp: bucket_pass_def Let_def)
qed

lemma wait_loop_two:
  assumes "n \<le> tb_capacity b" "0 < tb_refill_rate b" "\<forall>i. 0 \<le> late i"
  shows "\<exists>r. wait_loop (Suc (Suc fuel)) late n now b = Some r"
proof (cases "bucket_pass now n b")
  case (Pair r b1)
  show ?thesis
  proof (cases r)
    case (Inl w)
    with Pair have pass1: "bucket_pass now n b = (Inl w, b1)" by simp
    have "0 \<le> late (Suc fuel)" using assms(3) by blast
    from second_pass_succeeds [OF pass1 assms(1,2) this]
    obtain b2 where "bucket_pass (now + w + late (Suc fuel)) n b1 = (Inr (), b2)" by blast
    with pass1 show ?thesis by simp
  next
    case (Inr u)
    then show ?thesis using Pair by (cases u) simp
  qed
qed

lemma limiter_new_enabled [simp]: "is_enabled (limiter_new rate now) \<longleftrightarrow> rate \<noteq> 0"
  by (simp add: is_enabled_def limiter_new_def Let_def word_neq_0_conv)

lemma limiter_new_bucket:
  assumes "rate \<noteq> 0" "unat rate < 2 ^ 63"
  shows "tb_capacity (bl_bucket (limiter_new rate now)) = 2 * of_nat (unat rate)"
    and "bucket_ok (bl_bucket (limiter_new rate now))"
proof -
  have "unat (rate * 2) = unat rate * 2"
    using assms(2) by (simp add: unat_u64_mult)
  moreover have "0 < (of_nat (unat rate) :: rat)"
    using assms(1) by (simp only: of_nat_0_less_iff unat_gt_0 not_False_eq_True)
  ultimately show "tb_capacity (bl_bucket (limiter_new rate now)) = 2 * of_nat (unat rate)"
    and "bucket_ok (bl_bucket (limiter_new rate now))"
    using assms(1) by (simp_all add: limiter_new_def Let_def bucket_ok_def word_neq_0_conv)
qed

section \<open>Properties\<close>

text \<open>
  C31: a fresh limiter grants a request after at most one sleep if the
  request is at most two seconds' worth of bytes, and otherwise the call never returns, however
  long it runs and however late the sleeps wake: a chunk larger than twice the configured rate
  makes \<open>send_file\<close> wait forever.
\<close>

theorem wait_for_tokens_returns_iff:
  assumes "rate \<noteq> 0" "unat rate < 2 ^ 63" "\<forall>i. 0 \<le> late i"
  shows "(n \<le> 2 * unat rate \<longleftrightarrow>
            (\<exists>r. wait_for_tokens 2 late n now (limiter_new rate now0) = Some r)) \<and>
         (n \<le> 2 * unat rate \<longleftrightarrow>
            (\<exists>fuel r. wait_for_tokens fuel late n now (limiter_new rate now0) = Some r))"
proof -
  let ?l = "limiter_new rate now0"
  note cap = limiter_new_bucket [OF assms(1,2), of now0]
  have le: "(of_nat n :: rat) \<le> 2 * of_nat (unat rate) \<longleftrightarrow> n \<le> 2 * unat rate"
    by (metis of_nat_le_iff of_nat_mult of_nat_numeral)
  have two: "\<exists>r. wait_for_tokens 2 late n now ?l = Some r" if "n \<le> 2 * unat rate"
    using wait_loop_two [of "of_nat n" "bl_bucket ?l" late 0 now] cap assms le that
    by (auto simp: wait_for_tokens_def bucket_ok_def numeral_2_eq_2)
  have never: "n \<le> 2 * unat rate" if "wait_for_tokens fuel late n now ?l = Some r" for fuel r
  proof -
    have "\<not> tb_capacity (bl_bucket ?l) < of_nat n"
      using assms(1) wait_loop_never [of "bl_bucket ?l" "of_nat n"] that
      by (auto simp: wait_for_tokens_def)
    then show ?thesis using cap(1) le by simp
  qed
  show ?thesis using two never by blast
qed

theorem wait_for_tokens_returns_iff_witness:
  "\<not> (\<exists>fuel r. wait_for_tokens fuel (\<lambda>_. 0) 3 0 (limiter_new 1 0) = Some r)"
  using wait_for_tokens_returns_iff [of 1 "\<lambda>_. 0" 3 0 0] by simp

text \<open>A run of granted requests against one bucket; each pass happens at its own time.\<close>

inductive grants :: "token_bucket \<Rightarrow> rat \<Rightarrow> rat \<Rightarrow> token_bucket \<Rightarrow> bool" where
  grants_nil: "grants b t 0 b"
| grants_ok: "grants b t g b1 \<Longrightarrow> tb_last_refill b1 \<le> now \<Longrightarrow> 0 \<le> n \<Longrightarrow>
     bucket_pass now n b1 = (Inr (), b2) \<Longrightarrow> grants b t (g + n) b2"
| grants_wait: "grants b t g b1 \<Longrightarrow> tb_last_refill b1 \<le> now \<Longrightarrow> 0 \<le> n \<Longrightarrow>
     bucket_pass now n b1 = (Inl w, b2) \<Longrightarrow> grants b t g b2"

lemma grants_bound:
  assumes "grants b t g b'" "bucket_ok b"
  shows "bucket_ok b' \<and> tb_capacity b' = tb_capacity b \<and> tb_refill_rate b' = tb_refill_rate b \<and>
         tb_last_refill b \<le> tb_last_refill b' \<and>
         g + tb_tokens b' \<le> tb_tokens b + tb_refill_rate b * (tb_last_refill b' - tb_last_refill b)"
  using assms
proof (induction rule: grants.induct)
  case (grants_nil b t)
  then show ?case by simp
next
  case (grants_ok b t g b1 now n b2)
  note ih = grants_ok.IH [OF grants_ok.prems]
  have ok: "bucket_ok b2" "tb_capacity b2 = tb_capacity b1" "tb_refill_rate b2 = tb_refill_rate b1"
      "tb_last_refill b2 = now"
    using bucket_pass_ok [of b1 now n] bucket_pass_frame [of now n b1] ih grants_ok.hyps by auto
  have "tb_tokens b2 + n \<le> tb_tokens b1 + (now - tb_last_refill b1) * tb_refill_rate b1"
    using grants_ok.hyps(4)
    by (auto simp: bucket_pass_def Let_def refill_tokens split: if_splits)
  with ih ok grants_ok.hyps show ?case by (auto simp: algebra_simps)
next
  case (grants_wait b t g b1 now n w b2)
  note ih = grants_wait.IH [OF grants_wait.prems]
  have ok: "bucket_ok b2" "tb_capacity b2 = tb_capacity b1" "tb_refill_rate b2 = tb_refill_rate b1"
      "tb_last_refill b2 = now"
    using bucket_pass_ok [of b1 now n] bucket_pass_frame [of now n b1] ih grants_wait.hyps by auto
  have "tb_tokens b2 \<le> tb_tokens b1 + (now - tb_last_refill b1) * tb_refill_rate b1"
    using grants_wait.hyps(4)
    by (auto simp: bucket_pass_def Let_def refill_tokens split: if_splits)
  with ih ok grants_wait.hyps show ?case by (auto simp: algebra_simps)
qed

text \<open>
  C32: whatever requests are made and whenever, the bytes granted by one limiter
  up to its last refill never exceed the burst of two seconds plus the configured rate times the
  elapsed time, and the token count stays between zero and the capacity.
\<close>

theorem token_bucket_rate:
  assumes "rate \<noteq> 0" "unat rate < 2 ^ 63" "grants (bl_bucket (limiter_new rate now)) now g b"
  shows "g \<le> of_nat (unat rate) * (2 + (tb_last_refill b - now)) \<and>
         0 \<le> tb_tokens b \<and> tb_tokens b \<le> 2 * of_nat (unat rate)"
proof -
  let ?b = "bl_bucket (limiter_new rate now)"
  note new = limiter_new_bucket [OF assms(1,2), of now]
  have "tb_tokens ?b = tb_capacity ?b" "tb_refill_rate ?b = of_nat (unat rate)"
      "tb_last_refill ?b = now"
    using assms(1) by (simp_all add: limiter_new_def Let_def)
  with grants_bound [OF assms(3) new(2)] new(1) show ?thesis
    by (auto simp: bucket_ok_def algebra_simps)
qed

theorem token_bucket_rate_witness:
  "\<exists>g b. grants (bl_bucket (limiter_new 10 0)) 0 g b \<and> g = 15 \<and> g \<le> 10 * (2 + (tb_last_refill b - 0))"
proof -
  let ?b = "bl_bucket (limiter_new 10 0)"
  have b: "?b = \<lparr> tb_tokens = 20, tb_capacity = 20, tb_refill_rate = 10, tb_last_refill = 0 \<rparr>"
    by (simp add: limiter_new_def Let_def)
  have "bucket_pass 1 15 ?b = (Inr (), snd (bucket_pass 1 15 ?b))"
    by (simp add: b bucket_pass_def refill_def Let_def)
  from grants_ok [OF grants_nil _ _ this] have g: "grants ?b 0 (0 + 15) (snd (bucket_pass 1 15 ?b))"
    by (simp add: b)
  from token_bucket_rate [OF _ _ this] have "0 + 15 \<le> 10 * (2 + (tb_last_refill (snd (bucket_pass 1 15 ?b)) - 0))"
    by simp
  with g show ?thesis
    by (intro exI [of _ "0 + 15"] exI [of _ "snd (bucket_pass 1 15 ?b)"]) simp
qed

end
