(* ===== verification/Chunk_File.thy ===== *)
theory Chunk_File
  imports Framing Compression Bandwidth
begin

text \<open>
  \<open>p2p-core/src/transfer_file.rs\<close>: one file sent as one unidirectional stream per chunk. The
  sender side is \<open>ChunkReader\<close> and \<open>send_file\<close>, the receiver side \<open>ChunkWriter\<close> and
  \<open>receive_file\<close>. A disk maps path names to file contents (directories, permissions, full disks
  and the durability of \<open>sync_data\<close> are not modelled). SHA-256 is a parameter: the running hasher
  is the bytes fed to it so far. What the network does is explicit: the sender's \<open>link\<close> says for
  which chunk a stream breaks, the receiver's streams arrive as a list in any order, after which
  the connection either fails or stays silent for ever.
\<close>

unbundle bit_operations_syntax

section \<open>How a call can end without a value\<close>

text \<open>\<open>Err e\<close> is a returned error, \<open>Block\<close> a call that never returns, \<open>Panic\<close> a panic.\<close>

datatype stop = Err error | Block | Panic

type_synonym disk = "string \<Rightarrow> bytes option"
type_synonym sha256 = "bytes \<Rightarrow> 256 word"

definition MAX_CHUNK_STREAM_BYTES :: nat where "MAX_CHUNK_STREAM_BYTES = 16 * 1024 * 1024"
definition MAX_TRANSFER_FILE_SIZE :: u64 where
  "MAX_TRANSFER_FILE_SIZE = 1024 * 1024 * 1024 * 1024"
definition CHUNK_HEADER_BYTES :: nat where "CHUNK_HEADER_BYTES = 9"
definition FLAG_COMPRESSED :: u8 where "FLAG_COMPRESSED = 1"

definition validate_file_size :: "u64 \<Rightarrow> unit result" where
  "validate_file_size file_size =
     (if file_size > MAX_TRANSFER_FILE_SIZE
      then Inl (Protocol (''peer-supplied file size '' @ show_nat (unat file_size) @
                          '' exceeds maximum '' @ show_nat (unat MAX_TRANSFER_FILE_SIZE)))
      else Inr ())"

text \<open>The sum wraps; division by zero panics (\<open>None\<close>).\<close>

definition chunk_count :: "u64 \<Rightarrow> u32 \<Rightarrow> u64 option" where
  "chunk_count file_size csize =
     (let cs = ucast csize :: u64 in
      if cs = 0 then None else Some ((file_size + cs - 1) div cs))"

section \<open>Chunk reader\<close>

record chunk_reader =
  cr_data :: bytes
  cr_chunk_size :: u64
  cr_total_chunks :: u64
  cr_file_size :: u64
  cr_hashed :: bytes

definition chunk_reader_new :: "disk \<Rightarrow> string \<Rightarrow> u64 \<Rightarrow> stop + chunk_reader" where
  "chunk_reader_new disk path csize =
     (case disk path of
        None \<Rightarrow> Inl (Err (Network (IoError NotFound (''Failed to open file '' @ path))))
      | Some data \<Rightarrow>
          let file_size = word_of_nat (length data) in
          (case chunk_count file_size (ucast csize) of
             None \<Rightarrow> Inl Panic
           | Some ntotal \<Rightarrow>
               Inr \<lparr> cr_data = data, cr_chunk_size = csize, cr_total_chunks = ntotal,
                     cr_file_size = file_size, cr_hashed = [] \<rparr>))"

definition read_chunk :: "u64 \<Rightarrow> (chunk_reader, stop, bytes) proc" where
  "read_chunk index = (\<lambda>r.
     let offset = index * cr_chunk_size r;
         remaining = cr_file_size r - offset;
         to_read = min remaining (cr_chunk_size r)
     in if unat offset + unat to_read \<le> length (cr_data r)
        then let buffer = take (unat to_read) (drop (unat offset) (cr_data r))
             in (Inr buffer, r\<lparr> cr_hashed := cr_hashed r @ buffer \<rparr>)
        else (Inl (Err (Network (IoError UnexpectedEof ''early eof''))), r))"

definition fold_chunk :: "u64 \<Rightarrow> (chunk_reader, stop, unit) proc" where
  "fold_chunk index = andthen (read_chunk index) (\<lambda>_. ret ())"

section \<open>Chunk writer\<close>

record chunk_writer =
  cw_path :: string
  cw_chunk_size :: u64

definition partial_path :: "string \<Rightarrow> string" where
  "partial_path path = path @ ''.partial''"

definition file_len :: "bytes \<Rightarrow> u64" where
  "file_len f = word_of_nat (length f)"

definition chunk_writer_new :: "string \<Rightarrow> u64 \<Rightarrow> u64 \<Rightarrow> (disk, stop, chunk_writer) proc" where
  "chunk_writer_new path csize expected_file_size = (\<lambda>disk.
     let partial = partial_path path;
         file = (case disk partial of None \<Rightarrow> [] | Some f \<Rightarrow> f);
         file' = (if file_len file > expected_file_size
                  then take (unat expected_file_size) file else file)
     in (Inr \<lparr> cw_path = path, cw_chunk_size = csize \<rparr>, disk(partial \<mapsto> file')))"

text \<open>Writing at an offset; a gap before it reads as zeros, and writing nothing changes nothing.\<close>

definition write_at :: "nat \<Rightarrow> bytes \<Rightarrow> bytes \<Rightarrow> bytes" where
  "write_at off data f =
     (if data = [] then f
      else take off (f @ replicate (off - length f) 0) @ data @ drop (off + length data) f)"

definition write_chunk :: "chunk_writer \<Rightarrow> u64 \<Rightarrow> bytes \<Rightarrow> (disk, stop, unit) proc" where
  "write_chunk w index data = (\<lambda>disk.
     let offset = index * cw_chunk_size w;
         file = (case disk (partial_path (cw_path w)) of None \<Rightarrow> [] | Some f \<Rightarrow> f)
     in (Inr (), disk(partial_path (cw_path w) \<mapsto> write_at (unat offset) data file)))"

text \<open>The hashing loop over reads of at most \<open>Suc k\<close> bytes; the code's buffer holds 1 MiB.\<close>

function read_loop :: "nat \<Rightarrow> bytes \<Rightarrow> bytes \<Rightarrow> bytes" where
  "read_loop k hashed rest =
     (if rest = [] then hashed
      else read_loop k (hashed @ take (Suc k) rest) (drop (Suc k) rest))"
  by pat_completeness auto
termination
  by (relation "measure (\<lambda>(k, hashed, rest). length rest)") auto

declare read_loop.simps [simp del]

definition finalize :: "sha256 \<Rightarrow> chunk_writer \<Rightarrow> (disk, stop, 256 word) proc" where
  "finalize sha w = (\<lambda>disk.
     case disk (partial_path (cw_path w)) of
       None \<Rightarrow> (Inl (Err (Network (IoError NotFound ''rename''))), disk)
     | Some f \<Rightarrow>
         (Inr (sha (read_loop (1024 * 1024 - 1) [] f)),
          disk(partial_path (cw_path w) := None, cw_path w := Some f)))"

section \<open>Sending\<close>

record send_env =
  se_config :: config_message
  se_encode :: zstd_encode
  se_sha :: sha256
  se_link :: "u64 \<Rightarrow> error option"

record tx =
  tx_reader :: chunk_reader
  tx_compressor :: "adaptive_compressor option"
  tx_limiter :: "bandwidth_limiter option"
  tx_now :: rat
  tx_streams :: "bytes list"
  tx_compressed_bytes_sent :: u64
  tx_uncompressed_bytes_sent :: u64
  tx_progress :: u64
  tx_marks :: "u64 list"

definition session_new :: "config_message \<Rightarrow> rat \<Rightarrow> tx" where
  "session_new cfg now =
     \<lparr> tx_reader = \<lparr> cr_data = [], cr_chunk_size = 0, cr_total_chunks = 0, cr_file_size = 0, cr_hashed = [] \<rparr>,
       tx_compressor = None,
       tx_limiter = (if bandwidth_limit cfg > 0 then Some (limiter_new (bandwidth_limit cfg) now) else None),
       tx_now = now, tx_streams = [], tx_compressed_bytes_sent = 0, tx_uncompressed_bytes_sent = 0,
       tx_progress = 0, tx_marks = [] \<rparr>"

definition on_reader :: "(chunk_reader, stop, 'a) proc \<Rightarrow> (tx, stop, 'a) proc" where
  "on_reader p = (\<lambda>t. case p (tx_reader t) of (res, r) \<Rightarrow> (res, t\<lparr> tx_reader := r \<rparr>))"

definition compress_chunk :: "zstd_encode \<Rightarrow> bytes \<Rightarrow> (tx, stop, bytes \<times> bool) proc" where
  "compress_chunk encode data = (\<lambda>t.
     case tx_compressor t of
       None \<Rightarrow> (Inr (data, False), t)
     | Some ac \<Rightarrow>
         (case adaptive_compress encode data ac of
            (Inl e, ac') \<Rightarrow> (Inl (Err e), t\<lparr> tx_compressor := Some ac' \<rparr>)
          | (Inr (d, used, _), ac') \<Rightarrow> (Inr (d, used), t\<lparr> tx_compressor := Some ac' \<rparr>)))"

text \<open>
  Two passes of the token loop decide the wait (\<open>wait_for_tokens_returns_iff\<close>): a request that
  is not granted then is never granted.
\<close>

definition throttle :: "nat \<Rightarrow> (tx, stop, unit) proc" where
  "throttle n = (\<lambda>t.
     case tx_limiter t of
       None \<Rightarrow> (Inr (), t)
     | Some l \<Rightarrow>
         (case wait_for_tokens 2 (\<lambda>_. 0) n (tx_now t) l of
            None \<Rightarrow> (Inl Block, t)
          | Some (l', now) \<Rightarrow> (Inr (), t\<lparr> tx_limiter := Some l', tx_now := now \<rparr>)))"

definition chunk_stream :: "u64 \<Rightarrow> bool \<Rightarrow> bytes \<Rightarrow> bytes" where
  "chunk_stream index compressed data =
     word_le 8 index @ [if compressed then FLAG_COMPRESSED else 0] @ data"

definition send_chunk_stream ::
  "(u64 \<Rightarrow> error option) \<Rightarrow> u64 \<Rightarrow> bool \<Rightarrow> bytes \<Rightarrow> (tx, stop, unit) proc" where
  "send_chunk_stream link index compressed data = (\<lambda>t.
     case link index of
       Some e \<Rightarrow> (Inl (Err e), t)
     | None \<Rightarrow> (Inr (), t\<lparr> tx_streams := tx_streams t @ [chunk_stream index compressed data] \<rparr>))"

definition account :: "u64 \<Rightarrow> nat \<Rightarrow> nat \<Rightarrow> (tx, stop, unit) proc" where
  "account index sent plain = (\<lambda>t. (Inr (), t\<lparr>
     tx_compressed_bytes_sent := tx_compressed_bytes_sent t + word_of_nat sent,
     tx_uncompressed_bytes_sent := tx_uncompressed_bytes_sent t + word_of_nat plain,
     tx_progress := tx_progress t + word_of_nat plain,
     tx_marks := tx_marks t @ [index] \<rparr>))"

definition send_chunk :: "send_env \<Rightarrow> u64 list \<Rightarrow> u64 \<Rightarrow> (tx, stop, unit) proc" where
  "send_chunk env completed index =
     (if index \<in> set completed then on_reader (fold_chunk index)
      else
        andthen (on_reader (read_chunk index)) (\<lambda>data.
        andthen (compress_chunk (se_encode env) data) (\<lambda>(final_data, is_compressed).
        andthen (throttle (length final_data)) (\<lambda>_.
        andthen (send_chunk_stream (se_link env) index is_compressed final_data) (\<lambda>_.
        account index (length final_data) (length data))))))"

fun send_loop :: "send_env \<Rightarrow> u64 list \<Rightarrow> u64 list \<Rightarrow> (tx, stop, unit) proc" where
  "send_loop env completed [] = ret ()"
| "send_loop env completed (i # is) =
     andthen (send_chunk env completed i) (\<lambda>_. send_loop env completed is)"

definition indices :: "u64 \<Rightarrow> u64 list" where
  "indices n = map word_of_nat [0..<unat n]"

definition send_file ::
  "send_env \<Rightarrow> disk \<Rightarrow> string \<Rightarrow> u64 list \<Rightarrow> (tx, stop, 256 word) proc" where
  "send_file env disk path completed = (\<lambda>t.
     case chunk_reader_new disk path (ucast (chunk_size (se_config env))) of
       Inl e \<Rightarrow> (Inl e, t)
     | Inr r \<Rightarrow>
         let t1 = t\<lparr> tx_reader := r, tx_compressor :=
               (if compression_enabled (se_config env)
                then Some (adaptive_new (compression_level (se_config env))
                       (if adaptive_compression (se_config env) then 3 else 0))
                else None) \<rparr>
         in andthen (send_loop env completed (indices (cr_total_chunks r)))
              (\<lambda>_ t2. (Inr (se_sha env (cr_hashed (tx_reader t2))), t2)) t1)"

section \<open>Receiving\<close>

record recv_env =
  re_config :: config_message
  re_decode :: zstd_decode
  re_sha :: sha256

record rx =
  rx_disk :: disk
  rx_seen :: "u64 list"
  rx_progress :: u64
  rx_marks :: "u64 list"

definition on_disk :: "(disk, stop, 'a) proc \<Rightarrow> (rx, stop, 'a) proc" where
  "on_disk p = (\<lambda>s. case p (rx_disk s) of (res, d) \<Rightarrow> (res, s\<lparr> rx_disk := d \<rparr>))"

text \<open>One accepted stream, already read to its end.\<close>

definition receive_chunk ::
  "recv_env \<Rightarrow> chunk_writer \<Rightarrow> u64 \<Rightarrow> bytes \<Rightarrow> (rx, stop, unit) proc" where
  "receive_chunk env w total_chunks raw = (\<lambda>s.
     if length raw > MAX_CHUNK_STREAM_BYTES
     then (Inl (Err (Quic ''chunk stream read: too long'')), s)
     else if length raw < CHUNK_HEADER_BYTES
     then (Inl (Err (Protocol (''chunk stream too short: '' @ show_nat (length raw) @ '' bytes''))), s)
     else
       let chunk_index = le_word (take 8 raw) in
       if chunk_index \<ge> total_chunks
       then (Inl (Err (Protocol (''chunk_index '' @ show_nat (unat chunk_index) @
               '' >= total_chunks '' @ show_nat (unat total_chunks)))), s)
       else if chunk_index \<in> set (rx_seen s) then (Inr (), s)
       else
         let s1 = s\<lparr> rx_seen := chunk_index # rx_seen s \<rparr>;
             flags = raw ! 8;
             payload = drop CHUNK_HEADER_BYTES raw
         in
         case (if (flags AND FLAG_COMPRESSED) \<noteq> 0
               then (if compression_enabled (re_config env)
                     then decompress (re_decode env) payload
                     else Inl (Protocol ''compressed chunk but compression disabled in config''))
               else Inr payload) of
           Inl e \<Rightarrow> (Inl (Err e), s1)
         | Inr plain \<Rightarrow>
             andthen (on_disk (write_chunk w chunk_index plain))
               (\<lambda>_ s2. (Inr (), s2\<lparr> rx_progress := rx_progress s2 + word_of_nat (length plain),
                                   rx_marks := rx_marks s2 @ [chunk_index] \<rparr>)) s1)"

text \<open>
  The loop accepts streams until enough distinct chunks are in; the streams it leaves are
  returned. \<open>fin\<close> is what \<open>accept_uni\<close> gives after the last stream: an error, or nothing ever.
\<close>

fun receive_loop ::
  "recv_env \<Rightarrow> chunk_writer \<Rightarrow> u64 \<Rightarrow> u64 \<Rightarrow> (error + bytes) list \<Rightarrow> error option \<Rightarrow>
     (rx, stop, (error + bytes) list) proc" where
  "receive_loop env w ntotal want [] fin = (\<lambda>s.
     if (word_of_nat (length (rx_seen s)) :: u64) < want
     then (Inl (case fin of None \<Rightarrow> Block | Some e \<Rightarrow> Err e), s)
     else (Inr [], s))"
| "receive_loop env w ntotal want (x # xs) fin = (\<lambda>s.
     if (word_of_nat (length (rx_seen s)) :: u64) < want
     then (case x of
             Inl e \<Rightarrow> (Inl (Err e), s)
           | Inr raw \<Rightarrow>
               andthen (receive_chunk env w ntotal raw) (\<lambda>_. receive_loop env w ntotal want xs fin) s)
     else (Inr (x # xs), s))"

text \<open>The result is the checksum of the finalized file and the streams not yet accepted.\<close>

definition receive_file ::
  "recv_env \<Rightarrow> string \<Rightarrow> u64 \<Rightarrow> u64 \<Rightarrow> (error + bytes) list \<Rightarrow> error option \<Rightarrow>
     (rx, stop, 256 word \<times> (error + bytes) list) proc" where
  "receive_file env output_path total_chunks streams_to_receive streams fin =
     (if streams_to_receive > total_chunks
      then fail (Err (Protocol (''streams_to_receive '' @ show_nat (unat streams_to_receive) @
             '' > total_chunks '' @ show_nat (unat total_chunks))))
      else
        andthen (on_disk (chunk_writer_new output_path (ucast (chunk_size (re_config env)))
                   (total_chunks * ucast (chunk_size (re_config env))))) (\<lambda>w.
        andthen (\<lambda>s. receive_loop env w total_chunks streams_to_receive streams fin (s\<lparr> rx_seen := [] \<rparr>)) (\<lambda>rest.
        andthen (on_disk (finalize (re_sha env) w)) (\<lambda>sum.
        ret (sum, rest)))))"

end
