(* ===== verification/Chunk_Store.thy ===== *)
theory Chunk_Store
  imports Chunk_File
begin

text \<open>
  The arithmetic of chunks and the file as a store of bytes: how many chunks a size needs, that
  the chunks of a file laid end to end are the file, and that writes at offsets may come in any
  order. The interface \<open>positional_store\<close> states what a seek-and-write promises; its client lemma
  is that writes which all agree with one target agree with it together, in any order.
\<close>

section \<open>Interface: writes at offsets\<close>

definition agrees :: "('f \<Rightarrow> nat \<Rightarrow> 'b option) \<Rightarrow> (nat \<Rightarrow> 'b) \<Rightarrow> nat set \<Rightarrow> 'f \<Rightarrow> bool" where
  "agrees byte target K f \<longleftrightarrow> (\<forall>k \<in> K. byte f k = Some (target k))"

definition piece_of :: "(nat \<Rightarrow> 'b) \<Rightarrow> nat \<times> 'b list \<Rightarrow> bool" where
  "piece_of target p \<longleftrightarrow> (\<forall>j < length (snd p). snd p ! j = target (fst p + j))"

definition span :: "nat \<times> 'b list \<Rightarrow> nat set" where
  "span p = {fst p ..< fst p + length (snd p)}"

lemma agrees_Un [simp]: "agrees byte t (K \<union> L) f \<longleftrightarrow> agrees byte t K f \<and> agrees byte t L f"
  by (auto simp: agrees_def)

lemma agrees_UN: "agrees byte t (\<Union>i\<in>I. K i) f \<longleftrightarrow> (\<forall>i\<in>I. agrees byte t (K i) f)"
  by (auto simp: agrees_def)

locale positional_store =
  fixes put :: "nat \<Rightarrow> 'b list \<Rightarrow> 'f \<Rightarrow> 'f"
    and byte :: "'f \<Rightarrow> nat \<Rightarrow> 'b option"
  assumes put_hit: "off \<le> k \<Longrightarrow> k < off + length d \<Longrightarrow> byte (put off d f) k = Some (d ! (k - off))"
    and put_miss: "byte f k = Some b \<Longrightarrow> \<not> (off \<le> k \<and> k < off + length d) \<Longrightarrow>
                   byte (put off d f) k = Some b"
begin

lemma put_agrees:
  assumes "agrees byte t K f" "piece_of t (off, d)"
  shows "agrees byte t (K \<union> span (off, d)) (put off d f)"
proof -
  have "byte (put off d f) k = Some (t k)" if k: "k \<in> K \<or> k \<in> span (off, d)" for k
  proof (cases "off \<le> k \<and> k < off + length d")
    case True
    then have "k - off < length d" by linarith
    then have "d ! (k - off) = t (off + (k - off))"
      using assms(2) unfolding piece_of_def by force
    with True show ?thesis by (simp add: put_hit)
  next
    case False
    then have "k \<in> K" using k by (auto simp: span_def)
    with assms(1) False show ?thesis by (auto simp: agrees_def intro: put_miss)
  qed
  then show ?thesis by (auto simp: agrees_def)
qed

text \<open>Any order of pieces that agree with the target: all the bytes they cover agree with it.\<close>

lemma puts_agree:
  assumes "agrees byte t K f" "\<forall>p \<in> set ps. piece_of t p"
  shows "agrees byte t (K \<union> (\<Union>p \<in> set ps. span p)) (fold (\<lambda>(off, d). put off d) ps f)"
  using assms
proof (induction ps arbitrary: K f)
  case Nil
  then show ?case by simp
next
  case (Cons p ps)
  obtain off d where p: "p = (off, d)" by (cases p)
  have "agrees byte t (K \<union> span p) (put off d f)"
    using put_agrees [OF Cons.prems(1)] Cons.prems(2) by (simp add: p)
  with Cons.IH [of "K \<union> span p" "put off d f"] Cons.prems(2) show ?case
    by (simp add: p)
qed

end

definition byte_of :: "bytes \<Rightarrow> nat \<Rightarrow> u8 option" where
  "byte_of f k = (if k < length f then Some (f ! k) else None)"

lemma length_write_at:
  "length (write_at off d f) = (if d = [] then length f else max (length f) (off + length d))"
  by (auto simp: write_at_def)

lemma nth_write_at:
  assumes "k < length (write_at off d f)"
  shows "write_at off d f ! k =
    (if off \<le> k \<and> k < off + length d then d ! (k - off)
     else if k < length f then f ! k else 0)"
proof (cases "d = []")
  case True
  with assms show ?thesis by (auto simp: write_at_def)
next
  case False
  with assms have k: "k < length f \<or> k < off + length d"
    by (auto simp: length_write_at)
  show ?thesis
    using False k
    by (auto simp: write_at_def nth_append min_def)
qed

interpretation disk_file: positional_store write_at byte_of
  by unfold_locales
     (auto simp: byte_of_def nth_write_at length_write_at split: if_splits)

section \<open>Counting chunks\<close>

lemma unat_ucast_u32 [simp]: "unat (ucast (c :: u32) :: u64) = unat c"
  by (simp add: unsigned_ucast_eq take_bit_nat_eq_self less_trans [OF unsigned_less])

lemma ucast_u32_eq_0 [simp]: "(ucast (c :: u32) :: u64) = 0 \<longleftrightarrow> c = 0"
  by (metis unat_eq_zero unat_ucast_u32)

definition div_ceil :: "nat \<Rightarrow> nat \<Rightarrow> nat" where
  "div_ceil n c = (n + c - 1) div c"

lemma less_div_ceil_iff:
  assumes "0 < c"
  shows "i < div_ceil n c \<longleftrightarrow> i * c < n"
proof -
  have "i < (n + c - 1) div c \<longleftrightarrow> Suc i \<le> (n + c - 1) div c" by (simp add: Suc_le_eq)
  also have "\<dots> \<longleftrightarrow> Suc i * c \<le> n + c - 1" using assms by (simp add: less_eq_div_iff_mult_less_eq)
  also have "\<dots> \<longleftrightarrow> i * c < n" using assms by auto
  finally show ?thesis by (simp add: div_ceil_def)
qed

lemma div_ceil_covers: "0 < c \<Longrightarrow> n \<le> div_ceil n c * c"
  using less_div_ceil_iff [of c "div_ceil n c" n] by simp

lemma MAX_TRANSFER_nat: "unat MAX_TRANSFER_FILE_SIZE = 2 ^ 40"
  by (simp add: MAX_TRANSFER_FILE_SIZE_def)

lemma chunk_count_nat:
  assumes "c \<noteq> 0" "unat s \<le> 2 ^ 40"
  shows "\<exists>n. chunk_count s c = Some n \<and> unat n = div_ceil (unat s) (unat c)"
proof -
  let ?c = "ucast c :: u64"
  have c: "0 < unat c" "unat c < 2 ^ 32"
    using assms(1) unsigned_less [of c, where 'a = nat] by (simp_all add: unat_gt_0)
  have add: "unat (s + ?c) = unat s + unat c"
    using assms(2) c by (subst unat_u64_add) simp_all
  have "1 \<le> s + ?c"
    using add c by (simp add: word_le_nat_alt)
  then have "unat (s + ?c - 1) = unat s + unat c - 1"
    by (simp add: unat_u64_sub add)
  then have "unat ((s + ?c - 1) div ?c) = div_ceil (unat s) (unat c)"
    by (simp add: unat_div_distrib div_ceil_def)
  with assms(1) show ?thesis by (simp add: chunk_count_def Let_def)
qed

lemma chunk_count_nat_eq:
  assumes "chunk_count s c = Some n" "unat s \<le> 2 ^ 40"
  shows "c \<noteq> 0 \<and> unat n = div_ceil (unat s) (unat c)"
proof -
  have "c \<noteq> 0" using assms(1) by (auto simp: chunk_count_def Let_def split: if_splits)
  with chunk_count_nat [of c s] assms show ?thesis by auto
qed

lemma chunk_total_bytes:
  assumes "unat n = div_ceil (unat (s :: u64)) (unat c)" "unat s \<le> 2 ^ 40"
  shows "unat (n * ucast (c :: u32) :: u64) = unat n * unat c"
proof -
  have c: "unat c < 2 ^ 32" using unsigned_less [of c, where 'a = nat] by simp
  have "unat n * unat c \<le> unat s + unat c - 1"
    by (simp add: assms(1) div_ceil_def)
  then have "unat n * unat (ucast c :: u64) < 2 ^ 64"
    using assms(2) c by simp
  then show ?thesis by (subst unat_u64_mult) simp_all
qed

text \<open>
  For every file size the receiver accepts and every non-zero chunk size
  the 64-bit computation does not wrap and is the exact ceiling: chunk \<open>i\<close> exists if and only if
  it starts inside the file, and the count times the chunk size still fits 64 bits. A chunk size
  of zero, which the handshake does not refuse, panics.
\<close>

lemma chunk_count_ceiling:
  assumes "validate_file_size s = Inr ()" "c \<noteq> 0"
  shows "\<exists>n. chunk_count s c = Some n \<and> unat s \<le> unat n * unat c \<and>
             unat (n * ucast c) = unat n * unat c \<and>
             (\<forall>i. i < unat n \<longleftrightarrow> i * unat c < unat s) \<and> chunk_count s 0 = None"
proof -
  have s: "unat s \<le> 2 ^ 40"
    using assms(1) MAX_TRANSFER_nat
    by (auto simp: validate_file_size_def word_le_nat_alt not_less split: if_splits)
  have c: "0 < unat c" "unat c < 2 ^ 32"
    using assms(2) unsigned_less [of c, where 'a = nat] by (simp_all add: unat_gt_0)
  obtain n where n: "chunk_count s c = Some n" "unat n = div_ceil (unat s) (unat c)"
    using chunk_count_nat [OF assms(2) s] by blast
  with chunk_total_bytes [OF _ s] n c show ?thesis
    by (auto simp: less_div_ceil_iff div_ceil_covers chunk_count_def)
qed

lemma chunk_count_ceiling_witness:
  "\<exists>n. chunk_count 1000 100 = Some n \<and> (\<forall>i. i < unat n \<longleftrightarrow> i * 100 < 1000)"
proof -
  have "validate_file_size 1000 = Inr ()"
    by (simp add: validate_file_size_def MAX_TRANSFER_FILE_SIZE_def)
  from chunk_count_ceiling [OF this, of 100] show ?thesis by auto
qed

section \<open>The chunks of a file\<close>

definition chunk_of :: "bytes \<Rightarrow> nat \<Rightarrow> nat \<Rightarrow> bytes" where
  "chunk_of data c i = take c (drop (i * c) data)"

lemma concat_chunks:
  "concat (map (chunk_of data c) [0..<n]) = take (n * c) data"
proof (induction n)
  case 0
  then show ?case by simp
next
  case (Suc n)
  have "take (n * c) data @ take c (drop (n * c) data) = take (n * c + c) data"
    by (rule take_add [symmetric])
  with Suc show ?case by (simp add: chunk_of_def add.commute)
qed

lemma concat_all_chunks:
  "0 < c \<Longrightarrow> concat (map (chunk_of data c) [0..<div_ceil (length data) c]) = data"
  by (simp add: concat_chunks div_ceil_covers)

lemma chunk_of_nth:
  "j < length (chunk_of data c i) \<Longrightarrow> chunk_of data c i ! j = data ! (i * c + j)"
  by (auto simp: chunk_of_def)

lemma piece_of_chunk: "piece_of ((!) data) (i * c, chunk_of data c i)"
  by (simp add: piece_of_def chunk_of_nth)

lemma span_chunk: "span (i * c, chunk_of data c i) = {i * c ..< min (i * c + c) (length data)}"
  by (auto simp: span_def chunk_of_def)

lemma spans_cover:
  assumes "0 < c"
  shows "(\<Union>i < div_ceil (length data) c. span (i * c, chunk_of data c i)) = {..<length data}"
proof
  show "(\<Union>i < div_ceil (length data) c. span (i * c, chunk_of data c i)) \<subseteq> {..<length data}"
    by (auto simp: span_chunk)
  show "{..<length data} \<subseteq> (\<Union>i < div_ceil (length data) c. span (i * c, chunk_of data c i))"
  proof
    fix k assume k: "k \<in> {..<length data}"
    have "k div c * c \<le> k" by simp
    then have "k div c * c < length data" using k by (metis le_less_trans lessThan_iff)
    then have "k div c < div_ceil (length data) c"
      using assms by (simp add: less_div_ceil_iff)
    moreover have "k < k div c * c + c"
      using assms by (metis add.commute dividend_less_div_times)
    ultimately show "k \<in> (\<Union>i < div_ceil (length data) c. span (i * c, chunk_of data c i))"
      using k by (auto simp: span_chunk intro!: bexI [of _ "k div c"])
  qed
qed

lemma agrees_all_eq:
  assumes "agrees byte_of ((!) data) {..<length data} f" "length f \<le> length data"
  shows "f = data"
proof (rule nth_equalityI)
  show len: "length f = length data"
  proof (rule antisym [OF assms(2)], rule ccontr)
    assume "\<not> length data \<le> length f"
    then have "byte_of f (length f) = Some (data ! length f)"
      using assms(1) by (auto simp: agrees_def)
    then show False by (simp add: byte_of_def)
  qed
  show "f ! i = data ! i" if "i < length f" for i
    using assms(1) that len by (auto simp: agrees_def byte_of_def split: if_splits)
qed

lemma length_write_chunk:
  "length f \<le> length data \<Longrightarrow> length (write_at (i * c) (chunk_of data c i) f) \<le> length data"
  by (auto simp: length_write_at chunk_of_def)

lemma read_loop_eq: "read_loop k hashed rest = hashed @ rest"
proof (induction k hashed rest rule: read_loop.induct)
  case (1 k hashed rest)
  then show ?case by (simp add: read_loop.simps [of k hashed rest])
qed

end
