(* ===== verification/Chunk_Send.thy ===== *)
theory Chunk_Send
  imports Chunk_Store
begin

text \<open>
  What \<open>send_file\<close> puts on the wire: for every chunk it does not skip one stream that carries the
  chunk, in increasing order, and a checksum over the whole file whatever was skipped. A run that
  fails has delivered and marked a prefix.
\<close>

section \<open>Streams\<close>

text \<open>\<open>raw\<close> is a stream from which a receiver with this configuration gets \<open>plain\<close> at chunk \<open>i\<close>.\<close>

definition carries :: "bool \<Rightarrow> zstd_decode \<Rightarrow> nat \<Rightarrow> bytes \<Rightarrow> bytes \<Rightarrow> bool" where
  "carries enabled decode i plain raw \<longleftrightarrow>
     (\<exists>used payload. raw = chunk_stream (word_of_nat i) used payload \<and>
        (if used then enabled \<and> decode payload = Inr plain else payload = plain))"

lemma chunk_stream_parts [simp]:
  "length (chunk_stream i used p) = 9 + length p"
  "le_word (take 8 (chunk_stream i used p)) = i"
  "chunk_stream i used p ! 8 = (if used then FLAG_COMPRESSED else 0)"
  "drop CHUNK_HEADER_BYTES (chunk_stream i used p) = p"
  by (simp_all add: chunk_stream_def CHUNK_HEADER_BYTES_def nth_append)

section \<open>Reading chunks\<close>

definition reader_ok :: "bytes \<Rightarrow> u32 \<Rightarrow> chunk_reader \<Rightarrow> bool" where
  "reader_ok data c r \<longleftrightarrow> cr_data r = data \<and> cr_chunk_size r = ucast c \<and>
     cr_file_size r = word_of_nat (length data) \<and> c \<noteq> 0 \<and> length data \<le> 2 ^ 40"

lemma reader_ok_hashed [simp]: "reader_ok data c (r\<lparr> cr_hashed := h \<rparr>) = reader_ok data c r"
  by (simp add: reader_ok_def)

lemma unat_of_length: "n \<le> 2 ^ 40 \<Longrightarrow> unat (word_of_nat n :: u64) = n"
  by (simp add: unsigned_of_nat take_bit_nat_eq_self)

lemma chunk_index_word:
  assumes "i < div_ceil n (unat (c :: u32))" "n \<le> 2 ^ 40" "c \<noteq> 0"
  shows "unat (word_of_nat i :: u64) = i" "i * unat c < n" "i < n"
    "unat (word_of_nat i * ucast c :: u64) = i * unat c"
proof -
  have c: "0 < unat c" using assms(3) by (simp add: unat_gt_0)
  show ic: "i * unat c < n" using assms(1) c by (simp add: less_div_ceil_iff)
  then show i: "i < n" using c by (metis One_nat_def Suc_leI le_less_trans mult.right_neutral mult_le_mono2)
  then show u: "unat (word_of_nat i :: u64) = i"
    using assms(2) by (intro unat_of_length) linarith
  show "unat (word_of_nat i * ucast c :: u64) = i * unat c"
    using ic assms(2) u by (subst unat_u64_mult) simp_all
qed

lemma read_chunk_ok:
  assumes "reader_ok data c r" "i < div_ceil (length data) (unat c)"
  shows "read_chunk (word_of_nat i) r =
     (Inr (chunk_of data (unat c) i), r\<lparr> cr_hashed := cr_hashed r @ chunk_of data (unat c) i \<rparr>)"
proof -
  have r: "cr_data r = data" "cr_chunk_size r = ucast c" "cr_file_size r = word_of_nat (length data)"
    "c \<noteq> 0" "length data \<le> 2 ^ 40"
    using assms(1) by (auto simp: reader_ok_def)
  note i = chunk_index_word [OF assms(2) r(5,4)]
  let ?off = "word_of_nat i * ucast c :: u64"
  have len: "unat (word_of_nat (length data) :: u64) = length data"
    using r(5) by (rule unat_of_length)
  have "?off \<le> word_of_nat (length data)"
    using i len by (simp add: word_le_nat_alt)
  then have rem: "unat (word_of_nat (length data) - ?off) = length data - i * unat c"
    by (simp add: unat_u64_sub i len)
  have to_read: "unat (min (word_of_nat (length data) - ?off) (ucast c)) =
      min (length data - i * unat c) (unat c)"
    using rem by (auto simp: min_def word_le_nat_alt)
  have "take (min (length data - i * unat c) (unat c)) (drop (i * unat c) data) =
      chunk_of data (unat c) i"
    by (simp add: chunk_of_def min_def)
  moreover have "i * unat c + min (length data - i * unat c) (unat c) \<le> length data"
    using i(2) by linarith
  ultimately show ?thesis
    by (simp add: read_chunk_def Let_def r to_read i(4))
qed

lemma chunk_reader_new_ok:
  assumes "disk path = Some data" "length data \<le> 2 ^ 40" "c \<noteq> 0"
  shows "\<exists>n. chunk_reader_new disk path (ucast c) =
      Inr \<lparr> cr_data = data, cr_chunk_size = ucast c, cr_total_chunks = n,
            cr_file_size = word_of_nat (length data), cr_hashed = [] \<rparr> \<and>
      chunk_count (word_of_nat (length data)) c = Some n \<and>
      unat n = div_ceil (length data) (unat c)"
proof -
  have len: "unat (word_of_nat (length data) :: u64) = length data"
    using assms(2) by (rule unat_of_length)
  have "ucast (ucast c :: u64) = c"
    by transfer simp
  with chunk_count_nat [of c "word_of_nat (length data)"] assms len show ?thesis
    by (auto simp: chunk_reader_new_def Let_def)
qed


section \<open>One chunk\<close>

text \<open>What every run of the sender over the chunks \<open>is\<close> leaves behind.\<close>

definition sends :: "send_env \<Rightarrow> zstd_decode \<Rightarrow> bytes \<Rightarrow> nat \<Rightarrow> nat list \<Rightarrow> tx \<Rightarrow> tx \<Rightarrow> bool" where
  "sends env decode data c sent t t' \<longleftrightarrow>
     (\<exists>raws. tx_streams t' = tx_streams t @ raws \<and>
        list_all2 (\<lambda>i. carries (compression_enabled (se_config env)) decode i (chunk_of data c i)) sent raws) \<and>
     tx_marks t' = tx_marks t @ map word_of_nat sent \<and>
     tx_progress t' = tx_progress t + word_of_nat (sum_list (map (length \<circ> chunk_of data c) sent)) \<and>
     tx_uncompressed_bytes_sent t' =
       tx_uncompressed_bytes_sent t + word_of_nat (sum_list (map (length \<circ> chunk_of data c) sent))"

definition tx_ok :: "send_env \<Rightarrow> bytes \<Rightarrow> u32 \<Rightarrow> tx \<Rightarrow> bool" where
  "tx_ok env data c t \<longleftrightarrow> reader_ok data c (tx_reader t) \<and>
     (tx_compressor t \<noteq> None \<longrightarrow> compression_enabled (se_config env))"

definition inverts :: "zstd_encode \<Rightarrow> zstd_decode \<Rightarrow> bool" where
  "inverts encode decode \<longleftrightarrow> (\<forall>x l y. encode x l = Inr y \<longrightarrow> decode y = Inr x)"

lemma sends_refl: "tx_streams t' = tx_streams t \<Longrightarrow> tx_marks t' = tx_marks t \<Longrightarrow>
    tx_progress t' = tx_progress t \<Longrightarrow>
    tx_uncompressed_bytes_sent t' = tx_uncompressed_bytes_sent t \<Longrightarrow> sends env decode data c [] t t'"
  by (simp add: sends_def)

lemma sends_trans:
  assumes "sends env decode data c xs t t'" "sends env decode data c ys t' t''"
  shows "sends env decode data c (xs @ ys) t t''"
proof -
  obtain a where a: "tx_streams t' = tx_streams t @ a"
      "list_all2 (\<lambda>i. carries (compression_enabled (se_config env)) decode i (chunk_of data c i)) xs a"
    using assms(1) by (auto simp: sends_def)
  obtain b where b: "tx_streams t'' = tx_streams t' @ b"
      "list_all2 (\<lambda>i. carries (compression_enabled (se_config env)) decode i (chunk_of data c i)) ys b"
    using assms(2) by (auto simp: sends_def)
  have "list_all2 (\<lambda>i. carries (compression_enabled (se_config env)) decode i (chunk_of data c i))
      (xs @ ys) (a @ b)"
    using a(2) b(2) by (rule list_all2_appendI)
  with a(1) b(1) assms show ?thesis
    by (auto simp: sends_def)
qed

lemma compress_chunk_effect:
  assumes "compress_chunk encode data t = (res, t')"
  shows "\<exists>k. t' = t\<lparr> tx_compressor := k \<rparr> \<and> (k = None \<longleftrightarrow> tx_compressor t = None)"
  using assms
  by (auto simp: compress_chunk_def split: option.splits prod.splits sum.splits
      intro: exI [of _ "tx_compressor t"])

lemma compress_chunk_data:
  assumes "compress_chunk encode data t = (Inr (d, used), t')" "inverts encode decode"
  shows "(if used then tx_compressor t \<noteq> None \<and> decode d = Inr data else d = data)"
  using assms adaptive_compress_result
  by (fastforce simp: compress_chunk_def inverts_def split: option.splits prod.splits sum.splits)

lemma throttle_effect:
  assumes "throttle n t = (res, t')"
  shows "\<exists>l now. t' = t\<lparr> tx_limiter := l, tx_now := now \<rparr>"
proof -
  have same: "t' = t \<Longrightarrow> ?thesis"
    by (intro exI [of _ "tx_limiter t"] exI [of _ "tx_now t"]) simp
  have "t' = t \<or> (\<exists>l now. t' = t\<lparr> tx_limiter := l, tx_now := now \<rparr>)"
    using assms by (auto simp: throttle_def split: option.splits prod.splits)
  with same show ?thesis by blast
qed

text \<open>
  The steps after the read leave the reader alone; they add the stream and its marks when all of
  them succeed and nothing otherwise.
\<close>

lemma send_chunk_steps:
  assumes "send_chunk env completed i t = (res, t')" "i \<notin> set completed"
    and "read_chunk i (tx_reader t) = (Inr plain, r)"
  shows "tx_reader t' = r \<and> (tx_compressor t' = None \<longleftrightarrow> tx_compressor t = None) \<and>
    (if res = Inr () then
       \<exists>d used t2. compress_chunk (se_encode env) plain (t\<lparr> tx_reader := r \<rparr>) = (Inr (d, used), t2) \<and>
         tx_streams t' = tx_streams t @ [chunk_stream i used d] \<and>
         tx_marks t' = tx_marks t @ [i] \<and>
         tx_progress t' = tx_progress t + word_of_nat (length plain) \<and>
         tx_uncompressed_bytes_sent t' = tx_uncompressed_bytes_sent t + word_of_nat (length plain)
     else tx_streams t' = tx_streams t \<and> tx_marks t' = tx_marks t \<and>
       tx_progress t' = tx_progress t \<and>
       tx_uncompressed_bytes_sent t' = tx_uncompressed_bytes_sent t)"
proof -
  let ?t1 = "t\<lparr> tx_reader := r \<rparr>"
  obtain r2 t2 where comp: "compress_chunk (se_encode env) plain ?t1 = (r2, t2)" by fastforce
  obtain k where t2: "t2 = ?t1\<lparr> tx_compressor := k \<rparr>" "k = None \<longleftrightarrow> tx_compressor t = None"
    using compress_chunk_effect [OF comp] by auto
  have run: "andthen (compress_chunk (se_encode env) plain) (\<lambda>(final_data, is_compressed).
        andthen (throttle (length final_data)) (\<lambda>_.
        andthen (send_chunk_stream (se_link env) i is_compressed final_data) (\<lambda>_.
        account i (length final_data) (length plain)))) ?t1 = (res, t')"
    using assms by (simp add: send_chunk_def on_reader_def andthen_apply)
  show ?thesis
  proof (cases r2)
    case (Inl e)
    with run comp t2 show ?thesis by (auto simp: andthen_apply)
  next
    case (Inr p)
    obtain d used where p: "p = (d, used)" by fastforce
    obtain r3 t3 where thr: "throttle (length d) t2 = (r3, t3)" by fastforce
    obtain l now where t3: "t3 = t2\<lparr> tx_limiter := l, tx_now := now \<rparr>"
      using throttle_effect [OF thr] by blast
    show ?thesis
    proof (cases r3)
      case (Inl e)
      with run comp Inr p thr t2 t3 show ?thesis by (auto simp: andthen_apply)
    next
      case r3: (Inr u)
      with run comp Inr p thr t2 t3 show ?thesis
        by (cases "se_link env i") (auto simp: andthen_apply send_chunk_stream_def account_def)
    qed
  qed
qed

lemma send_chunk_ok:
  assumes ok: "tx_ok env data c t" and i: "i < div_ceil (length data) (unat c)"
    and inv: "inverts (se_encode env) decode"
    and run: "send_chunk env completed (word_of_nat i) t = (res, t')"
  shows "tx_ok env data c t' \<and>
    cr_hashed (tx_reader t') = cr_hashed (tx_reader t) @ chunk_of data (unat c) i \<and>
    sends env decode data (unat c)
       (if word_of_nat i \<in> set completed \<or> res \<noteq> Inr () then [] else [i]) t t' \<and>
    (word_of_nat i \<in> set completed \<longrightarrow> res = Inr ())"
proof -
  have rd: "reader_ok data c (tx_reader t)" using ok by (simp add: tx_ok_def)
  note read = read_chunk_ok [OF rd i]
  show ?thesis
  proof (cases "word_of_nat i \<in> set completed")
    case True
    with run read ok show ?thesis
      by (auto simp: send_chunk_def on_reader_def fold_chunk_def andthen_apply tx_ok_def
          intro!: sends_refl)
  next
    case False
    note steps = send_chunk_steps [OF run False read]
    have "sends env decode data (unat c) [i] t t'" if "res = Inr ()"
    proof -
      let ?r = "(tx_reader t)\<lparr> cr_hashed := cr_hashed (tx_reader t) @ chunk_of data (unat c) i \<rparr>"
      have "\<exists>d used t2. compress_chunk (se_encode env) (chunk_of data (unat c) i)
             (t\<lparr> tx_reader := ?r \<rparr>) = (Inr (d, used), t2) \<and>
           tx_streams t' = tx_streams t @ [chunk_stream (word_of_nat i) used d]"
        using steps that by fastforce
      then obtain d used t2 where du:
          "compress_chunk (se_encode env) (chunk_of data (unat c) i)
             (t\<lparr> tx_reader := ?r \<rparr>) = (Inr (d, used), t2)"
          "tx_streams t' = tx_streams t @ [chunk_stream (word_of_nat i) used d]"
        by blast
      have "carries (compression_enabled (se_config env)) decode i (chunk_of data (unat c) i)
              (chunk_stream (word_of_nat i) used d)"
        using compress_chunk_data [OF du(1) inv] ok
        by (auto simp: carries_def tx_ok_def split: if_splits)
      with du(2) steps that show ?thesis by (simp add: sends_def) blast
    qed
    with False steps ok rd show ?thesis
      by (auto simp: tx_ok_def intro!: sends_refl)
  qed
qed

section \<open>The loop\<close>

definition todo :: "u64 list \<Rightarrow> nat \<Rightarrow> nat \<Rightarrow> nat list" where
  "todo completed a b = filter (\<lambda>i. word_of_nat i \<notin> set completed) [a..<b]"

lemma todo_Cons: "a < b \<Longrightarrow> todo completed a b =
    (if word_of_nat a \<in> set completed then [] else [a]) @ todo completed (Suc a) b"
  by (simp add: todo_def upt_conv_Cons)

lemma todo_empty [simp]: "todo completed a a = []"
  by (simp add: todo_def)

text \<open>A run stops at some chunk \<open>k\<close>: everything before it is sent and marked, nothing after.\<close>

lemma send_loop_run:
  assumes "tx_ok env data c t" "a \<le> n" "n \<le> div_ceil (length data) (unat c)"
    and inv: "inverts (se_encode env) decode"
    and "send_loop env completed (map word_of_nat [a..<n]) t = (res, t')"
  shows "\<exists>k. a \<le> k \<and> k \<le> n \<and> (res = Inr () \<longleftrightarrow> k = n) \<and>
     (res = Inr () \<longrightarrow> cr_hashed (tx_reader t') =
        cr_hashed (tx_reader t) @ concat (map (chunk_of data (unat c)) [a..<n])) \<and>
     (k < n \<longrightarrow> word_of_nat k \<notin> set completed) \<and>
     sends env decode data (unat c) (todo completed a k) t t'"
  using assms(1,2,5)
proof (induction "n - a" arbitrary: a t)
  case 0
  then have "a = n" by simp
  with 0 show ?case by (intro exI [of _ n]) (auto intro!: sends_refl)
next
  case (Suc m)
  then have an: "a < n" "m = n - Suc a" "Suc a \<le> n" by linarith+
  have ia: "a < div_ceil (length data) (unat c)" using an assms(3) by linarith
  obtain r1 t1 where one: "send_chunk env completed (word_of_nat a) t = (r1, t1)" by fastforce
  note step = send_chunk_ok [OF Suc.prems(1) ia inv one]
  have run: "andthen (send_chunk env completed (word_of_nat a))
      (\<lambda>_. send_loop env completed (map word_of_nat [Suc a..<n])) t = (res, t')"
    using Suc.prems(3) an by (simp add: upt_conv_Cons)
  show ?case
  proof (cases r1)
    case (Inl e)
    with run one have "res = Inl e" "t' = t1" by (auto simp: andthen_apply)
    with step Inl an show ?thesis by (intro exI [of _ a]) auto
  next
    case (Inr u)
    with run one have rest: "send_loop env completed (map word_of_nat [Suc a..<n]) t1 = (res, t')"
      by (simp add: andthen_apply)
    have t1: "tx_ok env data c t1" using step by blast
    obtain k where k: "Suc a \<le> k" "k \<le> n" "res = Inr () \<longleftrightarrow> k = n"
        "res = Inr () \<longrightarrow> cr_hashed (tx_reader t') =
           cr_hashed (tx_reader t1) @ concat (map (chunk_of data (unat c)) [Suc a..<n])"
        "k < n \<longrightarrow> word_of_nat k \<notin> set completed"
        "sends env decode data (unat c) (todo completed (Suc a) k) t1 t'"
      using Suc.hyps(1) [OF an(2) t1 an(3) rest] by blast
    have "sends env decode data (unat c) (todo completed a k) t t'"
      using sends_trans [OF _ k(6)] step k(1) Inr by (auto simp: todo_Cons)
    with k step an show ?thesis
      by (intro exI [of _ k]) (auto simp: upt_conv_Cons)
  qed
qed

lemma send_file_run:
  assumes src: "disk path = Some data" "length data \<le> 2 ^ 40"
    and cfg: "chunk_size (se_config env) \<noteq> 0"
    and inv: "inverts (se_encode env) decode"
    and run: "send_file env disk path completed t = (res, t')"
  shows "\<exists>n k. chunk_count (word_of_nat (length data)) (chunk_size (se_config env)) = Some n \<and>
     unat n = div_ceil (length data) (unat (chunk_size (se_config env))) \<and> k \<le> unat n \<and>
     (if k = unat n then res = Inr (se_sha env data)
      else (\<exists>e. res = Inl e) \<and> word_of_nat k \<notin> set completed) \<and>
     sends env decode data (unat (chunk_size (se_config env))) (todo completed 0 k) t t'"
proof -
  let ?c = "chunk_size (se_config env)"
  obtain n where n: "chunk_reader_new disk path (ucast ?c) =
      Inr \<lparr> cr_data = data, cr_chunk_size = ucast ?c, cr_total_chunks = n,
            cr_file_size = word_of_nat (length data), cr_hashed = [] \<rparr>"
      "chunk_count (word_of_nat (length data)) ?c = Some n"
      "unat n = div_ceil (length data) (unat ?c)"
    using chunk_reader_new_ok [of disk path data ?c] assms by blast
  define t1 where "t1 = t\<lparr> tx_reader := \<lparr> cr_data = data, cr_chunk_size = ucast ?c, cr_total_chunks = n,
        cr_file_size = word_of_nat (length data), cr_hashed = [] \<rparr>,
      tx_compressor := (if compression_enabled (se_config env)
        then Some (adaptive_new (compression_level (se_config env))
               (if adaptive_compression (se_config env) then 3 else 0)) else None) \<rparr>"
  have t1: "tx_ok env data ?c t1" "cr_hashed (tx_reader t1) = []"
      "tx_streams t1 = tx_streams t" "tx_marks t1 = tx_marks t" "tx_progress t1 = tx_progress t"
      "tx_uncompressed_bytes_sent t1 = tx_uncompressed_bytes_sent t"
    using src cfg by (auto simp: t1_def tx_ok_def reader_ok_def split: if_splits)
  have whole: "andthen (send_loop env completed (map word_of_nat [0..<unat n]))
         (\<lambda>_ t2. (Inr (se_sha env (cr_hashed (tx_reader t2))), t2)) t1 = (res, t')"
    using run n(1) by (simp add: send_file_def Let_def indices_def t1_def)
  obtain r2 t2 where lp: "send_loop env completed (map word_of_nat [0..<unat n]) t1 = (r2, t2)"
    by fastforce
  then have t': "t' = t2" "res = map_sum id (\<lambda>_. se_sha env (cr_hashed (tx_reader t2))) r2"
    using whole by (auto simp: andthen_apply split: sum.splits)
  obtain k where k: "k \<le> unat n" "r2 = Inr () \<longleftrightarrow> k = unat n"
      "r2 = Inr () \<longrightarrow> cr_hashed (tx_reader t2) = concat (map (chunk_of data (unat ?c)) [0..<unat n])"
      "k < unat n \<longrightarrow> word_of_nat k \<notin> set completed"
      "sends env decode data (unat ?c) (todo completed 0 k) t1 t2"
    using send_loop_run [OF t1(1) _ _ inv lp] n(3) t1(2) by auto
  have c0: "0 < unat ?c" using cfg by (simp add: unat_gt_0)
  have "sends env decode data (unat ?c) (todo completed 0 k) t t2"
    using k(5) t1 by (simp add: sends_def)
  moreover have "r2 = Inr () \<Longrightarrow> res = Inr (se_sha env data)"
    using k(3) t'(2) c0 by (simp add: n(3) concat_all_chunks)
  moreover have "r2 \<noteq> Inr () \<Longrightarrow> \<exists>e. res = Inl e"
    using t'(2) by (cases r2) auto
  ultimately show ?thesis
    using n k t' by (intro exI [of _ n] exI [of _ k]) auto
qed

text \<open>
  C28: a run of \<open>send_file\<close> stops before some chunk \<open>k\<close>, and has then delivered,
  in increasing order, exactly one stream for every chunk below \<open>k\<close> that was not completed before,
  from which a receiver with the same configuration gets that chunk's bytes; it called the
  callback for exactly those. If \<open>k\<close> is the number of chunks the result is the checksum of the
  whole file, resumed or not; otherwise an error (or a wait without end) at a chunk still due.
\<close>

theorem send_file_outcome:
  assumes "disk path = Some data" "length data \<le> 2 ^ 40" "chunk_size (se_config env) \<noteq> 0"
    and "inverts (se_encode env) decode"
    and "send_file env disk path completed (session_new (se_config env) now) = (res, t')"
  shows "\<exists>k n. chunk_count (word_of_nat (length data)) (chunk_size (se_config env)) = Some n \<and>
     k \<le> unat n \<and>
     list_all2 (\<lambda>i. carries (compression_enabled (se_config env)) decode i
                      (chunk_of data (unat (chunk_size (se_config env))) i))
       (todo completed 0 k) (tx_streams t') \<and>
     tx_marks t' = map word_of_nat (todo completed 0 k) \<and>
     (if k = unat n then res = Inr (se_sha env data)
      else (\<exists>e. res = Inl e) \<and> word_of_nat k \<notin> set completed)"
proof -
  have "tx_streams (session_new (se_config env) now) = []" "tx_marks (session_new (se_config env) now) = []"
    by (simp_all add: session_new_def)
  moreover obtain n k where "chunk_count (word_of_nat (length data)) (chunk_size (se_config env)) = Some n"
      "k \<le> unat n"
      "if k = unat n then res = Inr (se_sha env data)
       else (\<exists>e. res = Inl e) \<and> word_of_nat k \<notin> set completed"
      "sends env decode data (unat (chunk_size (se_config env))) (todo completed 0 k)
         (session_new (se_config env) now) t'"
    using send_file_run [OF assms] by blast
  ultimately show ?thesis
    by (intro exI [of _ k] exI [of _ n]) (simp add: sends_def)
qed

theorem send_file_outcome_witness:
  "\<exists>t'. send_file \<lparr> se_config = config_default\<lparr> compression_enabled := False, chunk_size := 2 \<rparr>,
        se_encode = (\<lambda>x l. Inl []), se_sha = (\<lambda>b. word_of_nat (length b)),
        se_link = (\<lambda>i. if i = 1 then Some Timeout else None) \<rparr>
      [''a'' \<mapsto> [1, 2, 3]] ''a'' []
      (session_new (config_default\<lparr> compression_enabled := False, chunk_size := 2 \<rparr>) 0) =
        (Inl (Err Timeout), t') \<and> (\<exists>k. tx_marks t' = map word_of_nat (todo [] 0 k))"
proof -
  let ?cfg = "config_default\<lparr> compression_enabled := False, chunk_size := 2 \<rparr>"
  let ?send = "\<lparr> se_config = ?cfg, se_encode = (\<lambda>x l. Inl []),
      se_sha = (\<lambda>b. word_of_nat (length b)), se_link = (\<lambda>i. if i = 1 then Some Timeout else None) \<rparr>"
  let ?run = "send_file ?send [''a'' \<mapsto> [1, 2, 3]] ''a'' [] (session_new (se_config ?send) 0)"
  have "fst ?run = Inl (Err Timeout)"
    by (simp add: send_file_def chunk_reader_new_def chunk_count_def config_default_def
        session_new_def Let_def indices_def send_chunk_def on_reader_def andthen_apply fold_chunk_def
        read_chunk_def compress_chunk_def throttle_def send_chunk_stream_def account_def upt_rec)
  then have run: "?run = (Inl (Err Timeout), snd ?run)"
    by (metis prod.collapse)
  from send_file_outcome [OF _ _ _ _ run, of "[1, 2, 3]" "\<lambda>_. Inl []"] run show ?thesis
    by (auto simp: inverts_def config_default_def intro!: exI [of _ "snd ?run"])
qed

end
