(* ===== verification/Chunk_Receive.thy ===== *)
theory Chunk_Receive
  imports Chunk_Send
begin

text \<open>
  What \<open>receive_file\<close> does with the streams it accepts. Against any peer: it returns only after
  exactly the announced number of distinct, in-range chunks, and marks each of them once, in the
  order of arrival. Against streams that carry the chunks of one file, in any order: the partial
  file agrees with that file on every chunk received so far.
\<close>

section \<open>Any peer\<close>

lemma receive_chunk_any:
  assumes "receive_chunk env w n raw s = (Inr u, s')"
  shows "length raw \<le> MAX_CHUNK_STREAM_BYTES \<and> CHUNK_HEADER_BYTES \<le> length raw \<and>
    le_word (take 8 raw) < n \<and>
    (if le_word (take 8 raw) \<in> set (rx_seen s) then s' = s
     else rx_seen s' = le_word (take 8 raw) # rx_seen s \<and>
          rx_marks s' = rx_marks s @ [le_word (take 8 raw)])"
  using assms
  by (auto simp: receive_chunk_def Let_def andthen_apply on_disk_def write_chunk_def
      split: if_splits sum.splits)

lemma distinct_below_length:
  assumes "distinct (xs :: u64 list)" "\<forall>i \<in> set xs. i < n"
  shows "length xs \<le> unat n"
proof -
  have "distinct (map unat xs)"
    using assms(1) by (simp add: distinct_map inj_on_def word_unat_eq_iff)
  moreover have "set (map unat xs) \<subseteq> {..<unat n}"
    using assms(2) by (auto simp: word_less_nat_alt)
  ultimately have "length (map unat xs) \<le> card {..<unat n}"
    by (metis card_mono distinct_card finite_lessThan)
  then show ?thesis by simp
qed

lemma length_u64:
  assumes "length xs \<le> unat (n :: u64)"
  shows "unat (word_of_nat (length xs) :: u64) = length xs"
  using assms unsigned_less [of n, where 'a = nat]
  by (simp add: unsigned_of_nat take_bit_nat_eq_self)

lemma receive_loop_any:
  assumes "receive_loop env w n want xs fin s = (Inr rest, s')"
    and "distinct (rx_seen s)" "\<forall>i \<in> set (rx_seen s). i < n" "length (rx_seen s) \<le> unat want"
  shows "\<exists>used new. xs = map Inr used @ rest \<and> rx_seen s' = rev new @ rx_seen s \<and>
     rx_marks s' = rx_marks s @ new \<and> distinct (rx_seen s') \<and> (\<forall>i \<in> set (rx_seen s'). i < n) \<and>
     length (rx_seen s') = unat want \<and>
     set (rx_seen s') = set (rx_seen s) \<union> (\<lambda>raw. le_word (take 8 raw)) ` set used \<and>
     (\<forall>raw \<in> set used. length raw \<le> MAX_CHUNK_STREAM_BYTES)"
  using assms
proof (induction env w n want xs fin arbitrary: s rule: receive_loop.induct)
  case (1 env w n want fin)
  have u: "unat (word_of_nat (length (rx_seen s)) :: u64) = length (rx_seen s)"
    using 1(4) by (rule length_u64)
  from 1 have "\<not> (word_of_nat (length (rx_seen s)) :: u64) < want" "rest = []" "s' = s"
    by (auto split: if_splits)
  with 1 u show ?case by (intro exI [of _ "[]"]) (auto simp: word_less_nat_alt)
next
  case (2 env w n want x xs fin)
  have u: "unat (word_of_nat (length (rx_seen s)) :: u64) = length (rx_seen s)"
    using 2(5) by (rule length_u64)
  show ?case
  proof (cases "(word_of_nat (length (rx_seen s)) :: u64) < want")
    case False
    with 2 u show ?thesis
      by (intro exI [of _ "[]"]) (auto simp: word_less_nat_alt)
  next
    case True
    then obtain raw where x: "x = Inr raw" using 2(2) by (cases x) auto
    with True 2(2) obtain u1 s1 where
        one: "receive_chunk env w n raw s = (Inr u1, s1)"
        and run: "receive_loop env w n want xs fin s1 = (Inr rest, s')"
      by (auto simp: andthen_eq_Inr)
    let ?i = "le_word (take 8 raw) :: u64"
    note any = receive_chunk_any [OF one]
    have prems: "distinct (rx_seen s1)" "\<forall>i \<in> set (rx_seen s1). i < n" "length (rx_seen s1) \<le> unat want"
      using any 2(3-5) True u by (auto simp: word_less_nat_alt split: if_splits)
    obtain used new where ih: "xs = map Inr used @ rest" "rx_seen s' = rev new @ rx_seen s1"
        "rx_marks s' = rx_marks s1 @ new" "distinct (rx_seen s')" "\<forall>i \<in> set (rx_seen s'). i < n"
        "length (rx_seen s') = unat want"
        "set (rx_seen s') = set (rx_seen s1) \<union> (\<lambda>raw. le_word (take 8 raw)) ` set used"
        "\<forall>raw \<in> set used. length raw \<le> MAX_CHUNK_STREAM_BYTES"
      using "2.IH" [OF True x run prems] by blast
    show ?thesis
      using ih any x
      by (intro exI [of _ "raw # used"] exI [of _ "(if ?i \<in> set (rx_seen s) then [] else [?i]) @ new"])
         (auto split: if_splits)
  qed
qed

lemma finalize_Inr:
  "finalize sha w d = (Inr digest, d') \<longleftrightarrow>
     (\<exists>f. d (partial_path (cw_path w)) = Some f \<and> digest = sha f \<and>
          d' = d(partial_path (cw_path w) := None, cw_path w := Some f))"
  by (auto simp: finalize_def read_loop_eq split: option.splits)

lemma on_disk_Inr:
  "on_disk p s = (Inr x, s') \<longleftrightarrow> (\<exists>d. p (rx_disk s) = (Inr x, d) \<and> s' = s\<lparr> rx_disk := d \<rparr>)"
  by (auto simp: on_disk_def split: prod.splits)

lemma ex_on_disk_Inr:
  "(\<exists>x s'. on_disk p s = (Inr x, s') \<and> Q x s') \<longleftrightarrow>
     (\<exists>x d. p (rx_disk s) = (Inr x, d) \<and> Q x (s\<lparr> rx_disk := d \<rparr>))"
  by (auto simp: on_disk_Inr)

lemma receive_file_Inr:
  "receive_file env dst ntotal want streams fin s = (Inr (digest, rest), s') \<longleftrightarrow>
     want \<le> ntotal \<and>
     (\<exists>w d1 s2 d2. chunk_writer_new dst (ucast (chunk_size (re_config env)))
              (ntotal * ucast (chunk_size (re_config env))) (rx_disk s) = (Inr w, d1) \<and>
        receive_loop env w ntotal want streams fin (s\<lparr> rx_disk := d1, rx_seen := [] \<rparr>) = (Inr rest, s2) \<and>
        finalize (re_sha env) w (rx_disk s2) = (Inr digest, d2) \<and> s' = s2\<lparr> rx_disk := d2 \<rparr>)"
proof (cases "want \<le> ntotal")
  case True
  then have "\<not> want > ntotal" by simp
  with True show ?thesis
    by (simp add: receive_file_def andthen_eq_Inr ex_on_disk_Inr) (simp add: on_disk_Inr)
next
  case False
  then show ?thesis by (auto simp: receive_file_def not_less)
qed

text \<open>
  C20: whatever a peer sends, a successful \<open>receive_file\<close> has accepted a prefix
  of the streams from which it took exactly the announced number of distinct chunk indices, all
  below the total; it called the progress callback once for each, in order of first arrival; and
  the checksum it returns is that of the file it left at the output path, the partial file gone.
\<close>

theorem receive_exact_count:
  assumes "receive_file env dst ntotal want streams fin s = (Inr (digest, rest), s')"
  shows "want \<le> ntotal \<and>
    (\<exists>used. streams = map Inr used @ rest \<and>
       set (rx_seen s') = (\<lambda>raw. le_word (take 8 raw)) ` set used \<and>
       (\<forall>raw \<in> set used. length raw \<le> MAX_CHUNK_STREAM_BYTES)) \<and>
    distinct (rx_seen s') \<and> length (rx_seen s') = unat want \<and> (\<forall>i \<in> set (rx_seen s'). i < ntotal) \<and>
    rx_marks s' = rx_marks s @ rev (rx_seen s') \<and>
    (\<exists>f. rx_disk s' dst = Some f \<and> digest = re_sha env f) \<and> rx_disk s' (partial_path dst) = None"
proof -
  obtain w d1 s2 d2 where want: "want \<le> ntotal" and
      new: "chunk_writer_new dst (ucast (chunk_size (re_config env)))
              (ntotal * ucast (chunk_size (re_config env))) (rx_disk s) = (Inr w, d1)"
      and lp: "receive_loop env w ntotal want streams fin (s\<lparr> rx_disk := d1, rx_seen := [] \<rparr>) = (Inr rest, s2)"
      and fin: "finalize (re_sha env) w (rx_disk s2) = (Inr digest, d2)"
      and s': "s' = s2\<lparr> rx_disk := d2 \<rparr>"
    using assms by (auto simp: receive_file_Inr)
  have w: "cw_path w = dst" using new by (auto simp: chunk_writer_new_def Let_def)
  obtain f where f: "rx_disk s2 (partial_path dst) = Some f" "digest = re_sha env f"
      "d2 = (rx_disk s2)(partial_path dst := None, dst := Some f)"
    using fin by (auto simp: finalize_Inr w)
  have ne: "dst \<noteq> partial_path dst" by (simp add: partial_path_def)
  obtain used new where u: "streams = map Inr used @ rest" "rx_seen s2 = rev new"
     "rx_marks s2 = rx_marks s @ new" "distinct (rx_seen s2)" "\<forall>i \<in> set (rx_seen s2). i < ntotal"
     "length (rx_seen s2) = unat want"
     "set (rx_seen s2) = (\<lambda>raw. le_word (take 8 raw)) ` set used"
     "\<forall>raw \<in> set used. length raw \<le> MAX_CHUNK_STREAM_BYTES"
    using receive_loop_any [OF lp] by auto
  with f ne want s' show ?thesis by auto
qed

theorem receive_exact_count_witness:
  "\<exists>s'. receive_file
      \<lparr> re_config = config_default\<lparr> compression_enabled := False, chunk_size := 2 \<rparr>,
        re_decode = (\<lambda>x. Inl []), re_sha = (\<lambda>b. word_of_nat (length b)) \<rparr>
      ''b'' 2 1 [Inr (chunk_stream 1 False [3]), Inr []] None
      \<lparr> rx_disk = [''b.partial'' \<mapsto> [1, 2]], rx_seen = [], rx_progress = 0, rx_marks = [] \<rparr> =
        (Inr (3, [Inr []]), s') \<and>
     distinct (rx_seen s') \<and> length (rx_seen s') = 1"
proof -
  let ?run = "receive_file
      \<lparr> re_config = config_default\<lparr> compression_enabled := False, chunk_size := 2 \<rparr>,
        re_decode = (\<lambda>x. Inl []), re_sha = (\<lambda>b. word_of_nat (length b)) \<rparr>
      ''b'' 2 1 [Inr (chunk_stream 1 False [3]), Inr []] None
      \<lparr> rx_disk = [''b.partial'' \<mapsto> [1, 2]], rx_seen = [], rx_progress = 0, rx_marks = [] \<rparr>"
  have "fst ?run = Inr (3, [Inr []])"
    by (simp add: receive_file_def on_disk_def chunk_writer_new_def partial_path_def
        config_default_def file_len_def Let_def andthen_apply receive_chunk_def
        MAX_CHUNK_STREAM_BYTES_def CHUNK_HEADER_BYTES_def
        chunk_stream_parts [unfolded CHUNK_HEADER_BYTES_def] write_chunk_def write_at_def
        finalize_def read_loop_eq word_le_nat_alt)
  then have run: "?run = (Inr (3, [Inr []]), snd ?run)"
    by (metis prod.collapse)
  from receive_exact_count [OF run] run show ?thesis
    by (intro exI [of _ "snd ?run"]) simp
qed

text \<open>
  A stream longer than the limit is refused with an error that the session treats as a lost
  connection. An uncompressed full chunk is that long as soon as the chunk size exceeds the limit
  less the header, which nothing in the handshake rules out: every attempt to receive it fails.
\<close>

lemma oversized_chunk_refused:
  assumes "MAX_CHUNK_STREAM_BYTES - CHUNK_HEADER_BYTES < c" "i * c + c \<le> length data"
    and "(word_of_nat (length (rx_seen s)) :: u64) < want"
  shows "\<exists>e. receive_loop env w n want (Inr (chunk_stream (word_of_nat i) False (chunk_of data c i)) # xs) fin s =
    (Inl (Err (Quic e)), s)"
proof -
  have "MAX_CHUNK_STREAM_BYTES < length (chunk_stream (word_of_nat i) False (chunk_of data c i))"
    using assms(1,2) by (simp add: chunk_of_def CHUNK_HEADER_BYTES_def)
  then show ?thesis
    using assms(3) by (simp add: andthen_apply receive_chunk_def)
qed

section \<open>Streams that carry the chunks of one file\<close>

definition holds :: "disk \<Rightarrow> string \<Rightarrow> bytes \<Rightarrow> nat \<Rightarrow> nat set \<Rightarrow> bool" where
  "holds d dst data c K \<longleftrightarrow>
     (\<exists>f. d (partial_path dst) = Some f \<and> length f \<le> length data \<and>
        (\<forall>i \<in> K. agrees byte_of ((!) data) (span (i * c, chunk_of data c i)) f))"

lemma write_chunk_holds:
  assumes "holds d dst data (unat (c :: u32)) K" "cw_path w = dst" "cw_chunk_size w = ucast c"
    and i: "i < div_ceil (length data) (unat c)" "length data \<le> 2 ^ 40" "c \<noteq> 0"
  shows "\<exists>d'. write_chunk w (word_of_nat i) (chunk_of data (unat c) i) d = (Inr (), d') \<and>
     holds d' dst data (unat c) (insert i K)"
proof -
  obtain f where f: "d (partial_path dst) = Some f" "length f \<le> length data"
      "\<forall>j \<in> K. agrees byte_of ((!) data) (span (j * unat c, chunk_of data (unat c) j)) f"
    using assms(1) by (auto simp: holds_def)
  let ?f' = "write_at (i * unat c) (chunk_of data (unat c) i) f"
  have "agrees byte_of ((!) data) ((\<Union>j\<in>K. span (j * unat c, chunk_of data (unat c) j)) \<union>
      span (i * unat c, chunk_of data (unat c) i)) ?f'"
    using f(3) by (intro disk_file.put_agrees piece_of_chunk) (simp add: agrees_UN)
  then have "\<forall>j \<in> insert i K. agrees byte_of ((!) data) (span (j * unat c, chunk_of data (unat c) j)) ?f'"
    by (simp add: agrees_UN)
  moreover have "length ?f' \<le> length data"
    using f(2) by (rule length_write_chunk)
  ultimately show ?thesis
    using chunk_index_word(4) [OF i] assms(2,3) f(1)
    by (simp add: write_chunk_def Let_def holds_def)
qed

lemma receive_chunk_carries:
  assumes "carries (compression_enabled (re_config env)) (re_decode env) i (chunk_of data (unat c) i) raw"
    and "length raw \<le> MAX_CHUNK_STREAM_BYTES"
    and "holds (rx_disk s) dst data (unat c) K" "cw_path w = dst" "cw_chunk_size w = ucast (c :: u32)"
    and i: "i < div_ceil (length data) (unat c)" "length data \<le> 2 ^ 40" "c \<noteq> 0"
    and n: "unat n = div_ceil (length data) (unat c)"
    and new: "word_of_nat i \<notin> set (rx_seen s)"
  shows "\<exists>s'. receive_chunk env w n raw s = (Inr (), s') \<and>
     rx_seen s' = word_of_nat i # rx_seen s \<and> rx_marks s' = rx_marks s @ [word_of_nat i] \<and>
     holds (rx_disk s') dst data (unat c) (insert i K)"
proof -
  obtain used payload where raw: "raw = chunk_stream (word_of_nat i) used payload"
      "if used then compression_enabled (re_config env) \<and> re_decode env payload = Inr (chunk_of data (unat c) i)
       else payload = chunk_of data (unat c) i"
    using assms(1) by (auto simp: carries_def)
  have "\<not> n \<le> word_of_nat i"
    using chunk_index_word(1) [OF i] n i(1) by (simp add: word_le_nat_alt)
  moreover have "CHUNK_HEADER_BYTES \<le> length raw" by (simp add: raw CHUNK_HEADER_BYTES_def)
  moreover obtain d' where "write_chunk w (word_of_nat i) (chunk_of data (unat c) i) (rx_disk s) = (Inr (), d')"
      "holds d' dst data (unat c) (insert i K)"
    using write_chunk_holds [OF assms(3-5) i] by blast
  ultimately show ?thesis
    using raw assms(2) new
    by (cases used)
       (auto simp: receive_chunk_def Let_def not_less andthen_apply on_disk_def decompress_def
         FLAG_COMPRESSED_def)
qed

lemma receive_loop_carries:
  assumes "list_all2 (\<lambda>i. carries (compression_enabled (re_config env)) (re_decode env) i (chunk_of data (unat c) i)) idx raws"
    and "\<forall>raw \<in> set raws. length raw \<le> MAX_CHUNK_STREAM_BYTES"
    and "holds (rx_disk s) dst data (unat c) K"
    and w: "cw_path w = dst" "cw_chunk_size w = ucast (c :: u32)"
    and c: "length data \<le> 2 ^ 40" "c \<noteq> 0" "unat n = div_ceil (length data) (unat c)"
    and "distinct (map word_of_nat idx :: u64 list)" "\<forall>i \<in> set idx. i < unat n"
    and "set (map word_of_nat idx) \<inter> set (rx_seen s) = {}"
    and "length (rx_seen s) + length idx = unat want"
  shows "\<exists>s'. receive_loop env w n want (map Inr raws) fin s = (Inr [], s') \<and>
     rx_seen s' = rev (map word_of_nat idx) @ rx_seen s \<and>
     rx_marks s' = rx_marks s @ map word_of_nat idx \<and>
     holds (rx_disk s') dst data (unat c) (K \<union> set idx)"
  using assms(1-3,9-12)
proof (induction idx raws arbitrary: s K rule: list_all2_induct)
  case Nil
  then have "unat (word_of_nat (length (rx_seen s)) :: u64) = unat want"
    using length_u64 [of "rx_seen s" want] by simp
  with Nil show ?case by (simp add: word_less_nat_alt)
next
  case (Cons i idx raw raws)
  have u: "unat (word_of_nat (length (rx_seen s)) :: u64) = length (rx_seen s)"
    using Cons.prems(6) length_u64 [of "rx_seen s" want] by simp
  have more: "(word_of_nat (length (rx_seen s)) :: u64) < want"
    using Cons.prems(6) u by (simp add: word_less_nat_alt)
  have i: "i < div_ceil (length data) (unat c)" using Cons.prems(4) c(3) by simp
  obtain s1 where s1: "receive_chunk env w n raw s = (Inr (), s1)"
      "rx_seen s1 = word_of_nat i # rx_seen s" "rx_marks s1 = rx_marks s @ [word_of_nat i]"
      "holds (rx_disk s1) dst data (unat c) (insert i K)"
    using receive_chunk_carries [OF Cons.hyps(1) _ Cons.prems(2) w i c] Cons.prems by auto
  obtain s' where s': "receive_loop env w n want (map Inr raws) fin s1 = (Inr [], s')"
      "rx_seen s' = rev (map word_of_nat idx) @ rx_seen s1"
      "rx_marks s' = rx_marks s1 @ map word_of_nat idx"
      "holds (rx_disk s') dst data (unat c) (insert i K \<union> set idx)"
    using Cons.IH [of s1 "insert i K"] Cons.prems s1 by auto
  with s1 more show ?case by (auto simp: andthen_apply)
qed

end
