(* ===== verification/Transfer_Correct.thy ===== *)
theory Transfer_Correct
  imports Chunk_Receive "HOL-Library.Multiset"
begin

text \<open>
  The two ends of \<open>transfer_file.rs\<close> together: what one \<open>send_file\<close> delivers is what one
  \<open>receive_file\<close> needs, on a fresh transfer and on a resume.
\<close>

definition resumable :: "disk \<Rightarrow> string \<Rightarrow> bytes \<Rightarrow> nat \<Rightarrow> nat set \<Rightarrow> bool" where
  "resumable d dst data c K \<longleftrightarrow> (d (partial_path dst) = None \<and> K = {}) \<or> holds d dst data c K"

lemma chunk_writer_new_holds:
  assumes "resumable d dst data c K" "length data \<le> unat expected"
  shows "\<exists>w d'. chunk_writer_new dst cs expected d = (Inr w, d') \<and> cw_path w = dst \<and>
     cw_chunk_size w = cs \<and> holds d' dst data c K"
proof -
  have "\<not> file_len f > expected" if "length f \<le> length data" for f
  proof -
    have "unat (file_len f) \<le> length f"
      by (simp add: file_len_def unsigned_of_nat take_bit_eq_mod)
    then show ?thesis using that assms(2) by (simp add: word_less_nat_alt)
  qed
  from this this [of "[]"] show ?thesis
    using assms(1)
    by (auto simp: chunk_writer_new_def Let_def resumable_def holds_def)
qed

lemma todo_props:
  fixes n :: u64
  assumes "distinct completed" "\<forall>i \<in> set completed. i < n"
  shows "distinct (map word_of_nat (todo completed 0 (unat n)) :: u64 list)"
    "\<forall>i \<in> set (todo completed 0 (unat n)). i < unat n"
    "length (todo completed 0 (unat n)) = unat n - length completed"
    "unat ` set completed \<union> set (todo completed 0 (unat n)) = {..<unat n}"
proof -
  let ?td = "todo completed 0 (unat n)"
  have small: "unat (word_of_nat i :: u64) = i" if "i < unat n" for i
    using that unsigned_less [of n, where 'a = nat]
    by (simp add: unsigned_of_nat take_bit_nat_eq_self)
  show below: "\<forall>i \<in> set ?td. i < unat n" by (auto simp: todo_def)
  have "inj_on (word_of_nat :: nat \<Rightarrow> u64) (set ?td)"
    by (rule inj_onI) (metis below small)
  then show "distinct (map word_of_nat ?td :: u64 list)"
    by (simp add: distinct_map) (simp add: todo_def)
  have mem: "word_of_nat i \<in> set completed \<longleftrightarrow> i \<in> set (map unat completed)" if "i < unat n" for i
    using small [OF that] by force
  have c: "distinct (map unat completed)" "set (map unat completed) \<subseteq> {..<unat n}"
    using assms by (auto simp: distinct_map inj_on_def word_unat_eq_iff word_less_nat_alt)
  have td: "?td = filter (\<lambda>i. i \<notin> set (map unat completed)) [0..<unat n]"
    unfolding todo_def by (rule filter_cong) (simp_all add: mem del: set_map)
  show "length ?td = unat n - length completed"
    using distinct_card_filter [OF c] by (simp add: td)
  show "unat ` set completed \<union> set ?td = {..<unat n}"
    using c(2) by (auto simp: td)
qed

lemma image_word_lessThan: "(word_of_nat :: nat \<Rightarrow> u64) ` {..<unat n} = {..<n}"
proof (intro equalityI subsetI)
  fix x :: u64 assume "x \<in> word_of_nat ` {..<unat n}"
  then obtain i where "i < unat n" "x = word_of_nat i" by blast
  moreover from this have "unat x = i"
    using unsigned_less [of n, where 'a = nat] by (simp add: unsigned_of_nat take_bit_nat_eq_self)
  ultimately show "x \<in> {..<n}" by (simp add: word_less_nat_alt)
next
  fix x :: u64 assume "x \<in> {..<n}"
  then have "unat x \<in> {..<unat n}" by (simp add: word_less_nat_alt)
  moreover have "x = word_of_nat (unat x)" by (metis of_nat_unat ucast_id)
  ultimately show "x \<in> word_of_nat ` {..<unat n}" by (rule rev_image_eqI)
qed

lemma holds_all:
  assumes "holds d dst data c {..<div_ceil (length data) c}" "0 < c"
  shows "d (partial_path dst) = Some data"
proof -
  obtain f where f: "d (partial_path dst) = Some f" "length f \<le> length data"
      "\<forall>i < div_ceil (length data) c. agrees byte_of ((!) data) (span (i * c, chunk_of data c i)) f"
    using assms(1) by (auto simp: holds_def)
  have "agrees byte_of ((!) data) (\<Union>i < div_ceil (length data) c. span (i * c, chunk_of data c i)) f"
    using f(3) by (simp add: agrees_UN)
  then have "agrees byte_of ((!) data) {..<length data} f"
    by (simp add: spans_cover [OF assms(2)])
  with f show ?thesis by (simp add: agrees_all_eq)
qed

lemma list_all2_mset:
  assumes "list_all2 R xs ys" "mset ys' = mset ys"
  shows "\<exists>xs'. list_all2 R xs' ys' \<and> mset xs' = mset xs"
  using list_all2_reorder_left_invariance [of "\<lambda>y x. R x y" ys xs ys'] assms
  by (auto simp: list_all2_conv_all_nth)

text \<open>Streams that arrive after the last one needed are left for the next file.\<close>

lemma receive_loop_more:
  "receive_loop env w n want xs fin s = (Inr [], s') \<Longrightarrow>
     receive_loop env w n want (xs @ ys) fin' s = (Inr ys, s')"
proof (induction env w n want xs fin arbitrary: s rule: receive_loop.induct)
  case (1 env w n want fin)
  then show ?case by (cases ys) (auto split: if_splits)
next
  case (2 env w n want x xs fin)
  then show ?case by (auto simp: andthen_eq_Inr split: if_splits sum.splits)
qed

lemma transfer_file_run:
  assumes src: "d path = Some data" "length data \<le> 2 ^ 40"
    and cfg: "re_config renv = se_config env" "re_sha renv = se_sha env" "chunk_size (se_config env) \<noteq> 0"
    and inv: "inverts (se_encode env) (re_decode renv)"
    and snd: "send_file env d path completed (session_new (se_config env) now) = (Inr digest, t')"
    and n: "chunk_count (word_of_nat (length data)) (chunk_size (se_config env)) = Some n"
    and comp: "distinct completed" "\<forall>i \<in> set completed. i < n"
    and net: "mset streams = mset (tx_streams t')" "\<forall>raw \<in> set streams. length raw \<le> MAX_CHUNK_STREAM_BYTES"
    and dst: "resumable (rx_disk s) dst data (unat (chunk_size (se_config env))) (unat ` set completed)"
  shows "digest = se_sha env data \<and>
     (\<exists>s'. receive_file renv dst n (n - word_of_nat (length completed)) (map Inr streams @ later) fin s =
              (Inr (digest, later), s') \<and>
       rx_disk s' dst = Some data \<and> rx_disk s' (partial_path dst) = None \<and>
       set completed \<union> set (rx_seen s') = {..<n})"
proof -
  let ?c = "chunk_size (se_config env)"
  let ?td = "todo completed 0 (unat n)"
  have len: "unat (word_of_nat (length data) :: u64) = length data"
    using src(2) by (rule unat_of_length)
  have c0: "0 < unat ?c" using cfg(3) by (simp add: unat_gt_0)
  have nn: "unat n = div_ceil (length data) (unat ?c)"
    using chunk_count_nat_eq [OF n] len src(2) by simp
  obtain sent where digest: "digest = se_sha env data"
      and sent: "tx_streams t' = sent"
        "list_all2 (\<lambda>i. carries (compression_enabled (se_config env)) (re_decode renv) i (chunk_of data (unat ?c) i)) ?td sent"
    using send_file_run [OF src cfg(3) inv snd] n
    by (auto simp: sends_def session_new_def split: if_splits)
  note td = todo_props [OF comp]
  obtain idx where idx: "mset idx = mset ?td"
      "list_all2 (\<lambda>i. carries (compression_enabled (se_config env)) (re_decode renv) i (chunk_of data (unat ?c) i)) idx streams"
    using list_all2_mset [OF sent(2)] net(1) sent(1) by blast
  have idx': "set idx = set ?td" "length idx = length ?td"
      "distinct (map word_of_nat idx :: u64 list)"
    using idx(1) td(1) by (metis set_mset_mset, metis size_mset, metis distinct_map mset_eq_imp_distinct_iff set_mset_mset)
  have cl: "length completed \<le> unat n" using comp by (rule distinct_below_length)
  have want: "unat (n - word_of_nat (length completed)) = unat n - length completed"
    using cl length_u64 [OF cl] by (simp add: unat_u64_sub word_le_nat_alt)
  have "length data \<le> unat (n * ucast ?c)"
    using chunk_total_bytes [of n "word_of_nat (length data)" ?c] nn src(2) div_ceil_covers [OF c0, of "length data"]
    unfolding len by simp
  then obtain w d1 where w: "chunk_writer_new dst (ucast ?c) (n * ucast ?c) (rx_disk s) = (Inr w, d1)"
      "cw_path w = dst" "cw_chunk_size w = ucast ?c" "holds d1 dst data (unat ?c) (unat ` set completed)"
    using chunk_writer_new_holds [OF dst] by blast
  obtain s2 where s2': "receive_loop renv w n (n - word_of_nat (length completed)) (map Inr streams) fin
        (s\<lparr> rx_disk := d1, rx_seen := [] \<rparr>) = (Inr [], s2)"
      "rx_seen s2 = rev (map word_of_nat idx)"
      "holds (rx_disk s2) dst data (unat ?c) (unat ` set completed \<union> set idx)"
    using receive_loop_carries [of renv data ?c idx streams "s\<lparr> rx_disk := d1, rx_seen := [] \<rparr>" dst
        "unat ` set completed" w n "n - word_of_nat (length completed)" fin]
      idx idx' net(2) w src(2) cfg nn td want by auto
  note s2 = receive_loop_more [OF s2'(1), of later fin] s2'(2-)
  have "rx_disk s2 (partial_path dst) = Some data"
    using s2(3) td(4) c0 nn by (intro holds_all) (simp_all add: idx')
  then have fin: "finalize (re_sha renv) w (rx_disk s2) =
      (Inr digest, (rx_disk s2)(partial_path dst := None, dst := Some data))"
    by (simp add: finalize_Inr w digest cfg)
  have "n - word_of_nat (length completed) \<le> n"
    using want by (simp add: word_le_nat_alt)
  then have run: "receive_file renv dst n (n - word_of_nat (length completed)) (map Inr streams @ later) fin s =
      (Inr (digest, later), s2\<lparr> rx_disk := (rx_disk s2)(partial_path dst := None, dst := Some data) \<rparr>)"
    using w s2 fin by (auto simp: receive_file_Inr cfg)
  have "set completed \<union> word_of_nat ` set ?td = {..<n}"
  proof -
    have "(word_of_nat :: nat \<Rightarrow> u64) ` (unat ` set completed \<union> set ?td) = word_of_nat ` {..<unat n}"
      by (simp only: td(4))
    moreover have "(word_of_nat :: nat \<Rightarrow> u64) ` {..<unat n} = {..<n}"
      by (rule image_word_lessThan)
    ultimately show ?thesis by (simp add: image_Un image_image)
  qed
  moreover have "partial_path dst \<noteq> dst" by (simp add: partial_path_def)
  ultimately show ?thesis
    using run digest s2(2) idx'(1) by simp
qed

text \<open>
  C1: let a sender with the chunks \<open>completed\<close> behind it run to the end of
  \<open>send_file\<close>, and a receiver whose partial file agrees with the sender's on those chunks accept
  the streams in any order at all. Then \<open>receive_file\<close>, told to expect the remaining number of
  streams, returns (it neither fails nor waits for ever), consumes every stream, computes the
  sender's checksum, which is that of the sender's file, and leaves exactly that file at the output
  path; the chunks it reports and the completed ones are together all the chunks.
\<close>

theorem transfer_file_correct:
  assumes src: "d path = Some data" "length data \<le> 2 ^ 40"
    and cfg: "re_config renv = se_config env" "re_sha renv = se_sha env" "chunk_size (se_config env) \<noteq> 0"
    and inv: "inverts (se_encode env) (re_decode renv)"
    and snd: "send_file env d path completed (session_new (se_config env) now) = (Inr digest, t')"
    and n: "chunk_count (word_of_nat (length data)) (chunk_size (se_config env)) = Some n"
    and comp: "distinct completed" "\<forall>i \<in> set completed. i < n"
    and net: "mset streams = mset (tx_streams t')" "\<forall>raw \<in> set streams. length raw \<le> MAX_CHUNK_STREAM_BYTES"
    and dst: "resumable (rx_disk s) dst data (unat (chunk_size (se_config env))) (unat ` set completed)"
  shows "digest = se_sha env data \<and>
     (\<exists>s'. receive_file renv dst n (n - word_of_nat (length completed)) (map Inr streams) fin s =
              (Inr (digest, []), s') \<and>
       rx_disk s' dst = Some data \<and> rx_disk s' (partial_path dst) = None \<and>
       set completed \<union> set (rx_seen s') = {..<n})"
  using transfer_file_run [OF assms, of "[]" fin] unfolding append_Nil2 .

theorem transfer_file_correct_witness:
  "\<exists>s'. receive_file
      \<lparr> re_config = config_default\<lparr> compression_enabled := False, chunk_size := 2 \<rparr>,
        re_decode = (\<lambda>x. Inl []), re_sha = (\<lambda>b. word_of_nat (length b)) \<rparr>
      ''b'' 3 (3 - 1) (map Inr [chunk_stream 2 False [5], chunk_stream 0 False [1, 2]]) None
      \<lparr> rx_disk = [''b.partial'' \<mapsto> [0, 0, 3, 4]], rx_seen = [], rx_progress = 0, rx_marks = [] \<rparr> =
        (Inr (5, []), s') \<and> rx_disk s' ''b'' = Some [1, 2, 3, 4, 5]"
proof -
  let ?cfg = "config_default\<lparr> compression_enabled := False, chunk_size := 2 \<rparr>"
  let ?data = "[1, 2, 3, 4, 5] :: bytes"
  let ?send = "\<lparr> se_config = ?cfg, se_encode = (\<lambda>x l. Inl []),
      se_sha = (\<lambda>b. word_of_nat (length b)), se_link = (\<lambda>_. None) \<rparr>"
  let ?run = "send_file ?send [''a'' \<mapsto> ?data] ''a'' [1] (session_new (se_config ?send) 0)"
  have ev: "fst ?run = Inr 5 \<and> tx_streams (snd ?run) = [chunk_stream 0 False [1, 2], chunk_stream 2 False [5]]"
    by (simp add: send_file_def chunk_reader_new_def chunk_count_def config_default_def
        session_new_def Let_def indices_def send_chunk_def on_reader_def andthen_apply fold_chunk_def
        read_chunk_def compress_chunk_def throttle_def send_chunk_stream_def account_def upt_rec)
  then have run: "?run = (Inr 5, snd ?run)"
    by (metis prod.collapse)
  have dst: "holds [''b.partial'' \<mapsto> [0, 0, 3, 4]] ''b'' ?data 2 {1}"
    by (auto simp: holds_def partial_path_def agrees_def span_def chunk_of_def byte_of_def
        nth_Cons' numeral_eq_Suc less_Suc_eq)
  show ?thesis
    using transfer_file_correct [of "[''a'' \<mapsto> ?data]" "''a''" ?data
        "\<lparr> re_config = ?cfg, re_decode = (\<lambda>x. Inl []), re_sha = (\<lambda>b. word_of_nat (length b)) \<rparr>"
        ?send "[1]" 0 5 "snd ?run" 3 "[chunk_stream 2 False [5], chunk_stream 0 False [1, 2]]"
        "\<lparr> rx_disk = [''b.partial'' \<mapsto> [0, 0, 3, 4]], rx_seen = [], rx_progress = 0, rx_marks = [] \<rparr>"
        "''b''" None, OF _ _ _ _ _ _ run] ev dst
    by (auto simp: chunk_count_def config_default_def inverts_def resumable_def
        MAX_CHUNK_STREAM_BYTES_def word_less_nat_alt)
qed

text \<open>
  The truncation in \<open>chunk_writer_new\<close> is to a whole number of chunks, not to the file size: bytes
  of an older, longer partial file behind the last chunk of the new file survive, and the received
  file is wrong although every chunk arrived.
\<close>

theorem stale_partial_survives:
  "\<exists>s'. receive_file
      \<lparr> re_config = config_default\<lparr> compression_enabled := False, chunk_size := 2 \<rparr>,
        re_decode = (\<lambda>x. Inl []), re_sha = sha \<rparr>
      ''b'' 1 1 [Inr (chunk_stream 0 False [1])] None
      \<lparr> rx_disk = [''b.partial'' \<mapsto> [9, 9, 9]], rx_seen = [], rx_progress = 0, rx_marks = [] \<rparr> =
        (Inr (sha [1, 9], []), s') \<and> rx_disk s' ''b'' = Some [1, 9]"
  by (simp add: receive_file_def on_disk_def chunk_writer_new_def partial_path_def
        config_default_def file_len_def Let_def andthen_apply receive_chunk_def
        MAX_CHUNK_STREAM_BYTES_def CHUNK_HEADER_BYTES_def
        chunk_stream_parts [unfolded CHUNK_HEADER_BYTES_def] write_chunk_def write_at_def
        finalize_def read_loop_eq word_le_nat_alt word_less_nat_alt)

end
