(* ===== verification/Resume_State.thy ===== *)
theory Resume_State
  imports Transfer_Correct
begin

text \<open>
  The two records of what is already transferred: \<open>FolderTransferState\<close> of
  \<open>p2p-core/src/transfer_folder.rs\<close>, a list of chunk indices per file, and \<open>TransferState\<close> of
  \<open>p2p-core/src/state.rs\<close>, a bitmap per file. File indices are \<open>usize\<close>, here naturals. What the
  sending loop needs from either is the interface \<open>chunk_tracker\<close>.
\<close>

section \<open>Interface: a tracker of completed chunks\<close>

text \<open>
  \<open>n s f\<close> is the number of chunks the tracker allows for file \<open>f\<close>, \<open>completed s f\<close> the chunks
  marked so far.
\<close>

locale chunk_tracker =
  fixes ok :: "'s \<Rightarrow> bool"
    and bound :: "'s \<Rightarrow> nat \<Rightarrow> u64 \<Rightarrow> bool"
    and mark :: "nat \<Rightarrow> u64 \<Rightarrow> 's \<Rightarrow> 's"
    and completed :: "'s \<Rightarrow> nat \<Rightarrow> u64 list"
  assumes mark_ok: "ok s \<Longrightarrow> bound s f i \<Longrightarrow> i \<notin> set (completed s f) \<Longrightarrow> ok (mark f i s)"
    and mark_bound: "bound (mark f i s) g j = bound s g j"
    and mark_set: "ok s \<Longrightarrow> bound s f i \<Longrightarrow> set (completed (mark f i s) f) = insert i (set (completed s f))"
    and mark_other: "ok s \<Longrightarrow> bound s f i \<Longrightarrow> g \<noteq> f \<Longrightarrow> completed (mark f i s) g = completed s g"
    and ok_distinct: "ok s \<Longrightarrow> distinct (completed s f)"
begin

lemma marks_all:
  assumes "ok s" "distinct is" "set is \<inter> set (completed s f) = {}" "\<forall>i \<in> set is. bound s f i"
  shows "ok (fold (mark f) is s) \<and>
    set (completed (fold (mark f) is s) f) = set (completed s f) \<union> set is \<and>
    (\<forall>g. g \<noteq> f \<longrightarrow> completed (fold (mark f) is s) g = completed s g) \<and>
    (\<forall>g j. bound (fold (mark f) is s) g j = bound s g j)"
  using assms
proof (induction "is" arbitrary: s)
  case Nil
  then show ?case by simp
next
  case (Cons i "is")
  have "ok (mark f i s)" "set (completed (mark f i s) f) = insert i (set (completed s f))"
    using Cons.prems by (auto intro: mark_ok simp: mark_set)
  with Cons.IH [of "mark f i s"] Cons.prems show ?case
    by (auto simp: mark_bound mark_other)
qed

text \<open>The length of the completed list is then the number of chunks behind the sender.\<close>

lemma marks_count:
  assumes "ok s" "distinct is" "set is \<inter> set (completed s f) = {}" "\<forall>i \<in> set is. bound s f i"
  shows "length (completed (fold (mark f) is s) f) = length (completed s f) + length is"
proof -
  note all = marks_all [OF assms]
  have "length (completed (fold (mark f) is s) f) = card (set (completed s f) \<union> set is)"
    using all ok_distinct distinct_card by metis
  also have "\<dots> = length (completed s f) + length is"
    using assms ok_distinct [of s f] by (simp add: card_Un_disjoint distinct_card Int_commute)
  finally show ?thesis .
qed

end

section \<open>FolderTransferState\<close>

record folder_transfer_state =
  ft_transfer_id :: uuid
  ft_folder_name :: string
  ft_files :: "file_metadata list"
  ft_completed_files :: "nat list"
  ft_current_file :: "nat option"
  ft_total_bytes :: u64
  ft_transferred_bytes :: u64
  ft_file_chunks :: "nat \<Rightarrow> u64 list option"
  ft_config :: config_message

definition folder_state_new ::
  "uuid \<Rightarrow> string \<Rightarrow> file_metadata list \<Rightarrow> config_message \<Rightarrow> folder_transfer_state" where
  "folder_state_new tid folder_name files cfg =
     \<lparr> ft_transfer_id = tid, ft_folder_name = folder_name, ft_files = files,
       ft_completed_files = [], ft_current_file = None,
       ft_total_bytes = sum_list (map fm_size files), ft_transferred_bytes = 0,
       ft_file_chunks = (\<lambda>_. None), ft_config = cfg \<rparr>"

definition mark_chunk_complete :: "nat \<Rightarrow> u64 \<Rightarrow> folder_transfer_state \<Rightarrow> folder_transfer_state" where
  "mark_chunk_complete file_index chunk_index s =
     s\<lparr> ft_file_chunks := (ft_file_chunks s)(file_index \<mapsto>
          (case ft_file_chunks s file_index of None \<Rightarrow> [] | Some cs \<Rightarrow> cs) @ [chunk_index]) \<rparr>"

definition get_completed_chunks :: "folder_transfer_state \<Rightarrow> nat \<Rightarrow> u64 list" where
  "get_completed_chunks s file_index =
     (case ft_file_chunks s file_index of None \<Rightarrow> [] | Some cs \<Rightarrow> cs)"

definition mark_file_complete :: "nat \<Rightarrow> folder_transfer_state \<Rightarrow> folder_transfer_state" where
  "mark_file_complete file_index s =
     (if file_index \<in> set (ft_completed_files s) then s
      else
        let s' = s\<lparr> ft_completed_files := ft_completed_files s @ [file_index] \<rparr>
        in if file_index < length (ft_files s')
           then s'\<lparr> ft_transferred_bytes := ft_transferred_bytes s' + fm_size (ft_files s' ! file_index) \<rparr>
           else s')"

definition next_file :: "folder_transfer_state \<Rightarrow> nat option" where
  "next_file s = List.find (\<lambda>i. i \<notin> set (ft_completed_files s)) [0..<length (ft_files s)]"

definition folder_is_complete :: "folder_transfer_state \<Rightarrow> bool" where
  "folder_is_complete s \<longleftrightarrow> length (ft_completed_files s) = length (ft_files s)"

definition progress_percentage :: "folder_transfer_state \<Rightarrow> rat" where
  "progress_percentage s =
     (if ft_total_bytes s = 0 then 0
      else of_nat (unat (ft_transferred_bytes s)) / of_nat (unat (ft_total_bytes s)) * 100)"

text \<open>
  Saving and loading go through the JSON text of the state; the text's codec is a parameter.
\<close>

definition save_to_file ::
  "(folder_transfer_state \<Rightarrow> string + string) \<Rightarrow> string \<Rightarrow> folder_transfer_state \<Rightarrow>
     (string \<Rightarrow> string option, error, unit) proc" where
  "save_to_file to_json path s = (\<lambda>fs.
     case to_json s of
       Inl e \<Rightarrow> (Inl (Protocol (''Failed to serialize state: '' @ e)), fs)
     | Inr json \<Rightarrow> (Inr (), fs(path \<mapsto> json)))"

definition load_from_file ::
  "(string \<Rightarrow> string + folder_transfer_state) \<Rightarrow> string \<Rightarrow>
     (string \<Rightarrow> string option, error, folder_transfer_state) proc" where
  "load_from_file of_json path = (\<lambda>fs.
     case fs path of
       None \<Rightarrow> (Inl (Network (IoError NotFound path)), fs)
     | Some json \<Rightarrow>
         (case of_json json of
            Inl e \<Rightarrow> (Inl (Protocol (''Failed to deserialize state: '' @ e)), fs)
          | Inr s \<Rightarrow> (Inr s, fs)))"

subsection \<open>Invariant\<close>

definition folder_chunks :: "folder_transfer_state \<Rightarrow> nat \<Rightarrow> u64 option" where
  "folder_chunks s f =
     (if f < length (ft_files s)
      then chunk_count (fm_size (ft_files s ! f)) (chunk_size (ft_config s)) else None)"

definition in_range :: "folder_transfer_state \<Rightarrow> nat \<Rightarrow> u64 \<Rightarrow> bool" where
  "in_range s f i \<longleftrightarrow> (\<exists>n. folder_chunks s f = Some n \<and> i < n)"

definition folder_ok :: "folder_transfer_state \<Rightarrow> bool" where
  "folder_ok s \<longleftrightarrow>
     (\<forall>f. distinct (get_completed_chunks s f) \<and> (\<forall>i \<in> set (get_completed_chunks s f). in_range s f i)) \<and>
     distinct (ft_completed_files s) \<and> set (ft_completed_files s) \<subseteq> {..<length (ft_files s)} \<and>
     ft_total_bytes s = sum_list (map fm_size (ft_files s)) \<and>
     ft_transferred_bytes s = sum_list (map (\<lambda>f. fm_size (ft_files s ! f)) (ft_completed_files s))"

lemma get_mark [simp]:
  "get_completed_chunks (mark_chunk_complete f i s) g =
     (if g = f then get_completed_chunks s f @ [i] else get_completed_chunks s g)"
  by (simp add: get_completed_chunks_def mark_chunk_complete_def)

lemma mark_chunk_frame [simp]:
  "ft_files (mark_chunk_complete f i s) = ft_files s"
  "ft_completed_files (mark_chunk_complete f i s) = ft_completed_files s"
  "ft_config (mark_chunk_complete f i s) = ft_config s"
  "ft_total_bytes (mark_chunk_complete f i s) = ft_total_bytes s"
  "ft_transferred_bytes (mark_chunk_complete f i s) = ft_transferred_bytes s"
  "folder_chunks (mark_chunk_complete f i s) g = folder_chunks s g"
  "in_range (mark_chunk_complete f i s) g j = in_range s g j"
  by (simp_all add: mark_chunk_complete_def in_range_def folder_chunks_def)

lemma folder_ok_new: "folder_ok (folder_state_new tid name files cfg)"
  by (simp add: folder_ok_def folder_state_new_def get_completed_chunks_def)

lemma folder_ok_mark:
  assumes "folder_ok s" "in_range s f i" "i \<notin> set (get_completed_chunks s f)"
  shows "folder_ok (mark_chunk_complete f i s)"
  using assms by (auto simp: folder_ok_def)

lemma mark_file_frame [simp]:
  "ft_files (mark_file_complete f s) = ft_files s"
  "get_completed_chunks (mark_file_complete f s) g = get_completed_chunks s g"
  "ft_config (mark_file_complete f s) = ft_config s"
  "ft_total_bytes (mark_file_complete f s) = ft_total_bytes s"
  "in_range (mark_file_complete f s) g j = in_range s g j"
  by (simp_all add: mark_file_complete_def Let_def get_completed_chunks_def in_range_def folder_chunks_def)

lemma folder_ok_mark_file:
  assumes "folder_ok s" "f < length (ft_files s)"
  shows "folder_ok (mark_file_complete f s)"
proof (cases "f \<in> set (ft_completed_files s)")
  case True
  with assms show ?thesis by (simp add: mark_file_complete_def)
next
  case False
  then have "ft_completed_files (mark_file_complete f s) = ft_completed_files s @ [f]"
    "ft_transferred_bytes (mark_file_complete f s) =
       ft_transferred_bytes s + fm_size (ft_files s ! f)"
    using assms(2) by (simp_all add: mark_file_complete_def Let_def)
  with assms False show ?thesis by (auto simp: folder_ok_def)
qed

interpretation folder: chunk_tracker folder_ok in_range mark_chunk_complete get_completed_chunks
  by unfold_locales (auto intro: folder_ok_mark simp: folder_ok_def)

lemma todo_prefix:
  assumes "k \<le> n"
  shows "todo completed 0 n = todo completed 0 k @ todo completed k n"
proof -
  have "[0..<n] = [0..<k] @ [k..<n]"
    using assms upt_add_eq_append [of 0 k "n - k"] by simp
  then show ?thesis by (simp add: todo_def)
qed

lemma resume_marks:
  assumes "folder_ok s" "folder_chunks s f = Some n"
    and "disk path = Some data" "length data \<le> 2 ^ 40"
    and "fm_size (ft_files s ! f) = word_of_nat (length data)"
    and "se_config env = ft_config s" "inverts (se_encode env) decode"
    and "send_file env disk path (get_completed_chunks s f) (session_new (ft_config s) now) = (res, t')"
  shows "folder_ok (fold (mark_chunk_complete f) (tx_marks t') s) \<and>
    unat (sat_sub n (word_of_nat (length (get_completed_chunks (fold (mark_chunk_complete f) (tx_marks t') s) f)))) =
      length (todo (get_completed_chunks (fold (mark_chunk_complete f) (tx_marks t') s) f) 0 (unat n))"
proof -
  let ?done = "get_completed_chunks s f" and ?s' = "fold (mark_chunk_complete f) (tx_marks t') s"
  have cc: "chunk_count (word_of_nat (length data)) (chunk_size (se_config env)) = Some n"
    using assms(2,5,6) by (auto simp: folder_chunks_def split: if_splits)
  then have cs: "chunk_size (se_config env) \<noteq> 0"
    by (auto simp: chunk_count_def Let_def)
  obtain k where k: "k \<le> unat n" "tx_marks t' = map word_of_nat (todo ?done 0 k)"
    using send_file_run [OF assms(3,4) cs assms(7) assms(8)] cc
    by (auto simp: sends_def session_new_def assms(6))
  have in_iff: "in_range s f i \<longleftrightarrow> i < n" for i
    using assms(2) by (simp add: in_range_def)
  have ok_iff: "distinct (get_completed_chunks st f) \<and> (\<forall>i \<in> set (get_completed_chunks st f). in_range st f i)"
    if "folder_ok st" for st
    using that unfolding folder_ok_def by blast
  have done_ok: "distinct ?done" "\<forall>i \<in> set ?done. i < n"
    using ok_iff [OF assms(1)] by (simp_all add: in_iff)
  note td = todo_props [OF done_ok]
  have "distinct (tx_marks t')"
    using td(1) by (simp add: k(2) todo_prefix [OF k(1)])
  moreover have "set (tx_marks t') \<inter> set ?done = {}"
    by (auto simp: k(2) todo_def)
  moreover have "\<forall>i \<in> set (tx_marks t'). in_range s f i"
  proof
    fix i assume "i \<in> set (tx_marks t')"
    then obtain j where "j < k" "i = word_of_nat j"
      by (auto simp: k(2) todo_def)
    with k(1) have "j < unat n" "i = word_of_nat j" by simp_all
    then have "i < n"
      using unsigned_less [of n, where 'a = nat]
      by (simp add: word_less_nat_alt unsigned_of_nat take_bit_nat_eq_self)
    then show "in_range s f i" by (simp add: in_iff)
  qed
  ultimately have all: "folder_ok ?s'" "\<forall>g j. in_range ?s' g j = in_range s g j"
    using folder.marks_all [OF assms(1)] by blast+
  then have ok': "distinct (get_completed_chunks ?s' f)" "\<forall>i \<in> set (get_completed_chunks ?s' f). i < n"
    using ok_iff [OF all(1)] all(2) by (simp_all add: in_iff)
  have "unat (word_of_nat (length (get_completed_chunks ?s' f)) :: u64) = length (get_completed_chunks ?s' f)"
    using distinct_below_length [OF ok'] by (rule length_u64)
  with all(1) todo_props(3) [OF ok'] show ?thesis
    by (simp add: unat_sat_sub)
qed



text \<open>
  The file the sender resumes at is the first one not completed; there is none
  exactly when every file is completed, which \<open>is_complete\<close> decides by counting.
\<close>

lemma next_file_least:
  assumes "folder_ok s"
  shows "(case next_file s of
      Some f \<Rightarrow> f < length (ft_files s) \<and> f \<notin> set (ft_completed_files s) \<and>
                 {..<f} \<subseteq> set (ft_completed_files s)
    | None \<Rightarrow> set (ft_completed_files s) = {..<length (ft_files s)}) \<and>
    (folder_is_complete s \<longleftrightarrow> next_file s = None)"
proof -
  let ?c = "ft_completed_files s" and ?n = "length (ft_files s)"
  have c: "distinct ?c" "set ?c \<subseteq> {..<?n}" using assms by (auto simp: folder_ok_def)
  have none: "next_file s = None \<longleftrightarrow> set ?c = {..<?n}"
    using c(2) by (auto simp: next_file_def find_None_iff)
  have "length ?c = ?n \<longleftrightarrow> set ?c = {..<?n}"
    using c by (metis card_lessThan card_subset_eq distinct_card finite_lessThan)
  moreover have "f < ?n \<and> f \<notin> set ?c \<and> {..<f} \<subseteq> set ?c" if "next_file s = Some f" for f
    using that by (auto simp: next_file_def find_Some_iff)
  ultimately show ?thesis
    using none by (auto simp: folder_is_complete_def split: option.splits)
qed

lemma next_file_least_witness:
  "next_file (folder_state_new (Uuid 0) ''d''
      [\<lparr> fm_path = ''a'', fm_size = 5, fm_modified = 0, fm_checksum = 0 \<rparr>] config_default) \<noteq> None"
  using next_file_least [OF folder_ok_new, of "Uuid 0" "''d''"
      "[\<lparr> fm_path = ''a'', fm_size = 5, fm_modified = 0, fm_checksum = 0 \<rparr>]" config_default]
  by (auto simp: folder_is_complete_def folder_state_new_def)

end
