(* ===== verification/Transfer_State.thy ===== *)
theory Transfer_State
  imports Resume_State
begin

text \<open>
  \<open>p2p-core/src/state.rs\<close>: the transfer state with one bitmap per file. Files are addressed by
  a \<open>u32\<close> index. The bitmap is a list of booleans as long as the file has chunks.
\<close>

datatype file_status = Pending | InProgress | Completed | Verified | Failed

record file_state =
  fs_file_index :: u32
  fs_metadata :: file_metadata
  fs_local_path :: string
  fs_total_chunks :: u64
  fs_completed_chunks :: "bool list"
  fs_status :: file_status

record transfer_state =
  ts_transfer_id :: uuid
  ts_peer_address :: string
  ts_files :: "file_state list"
  ts_timestamp :: u64
  ts_total_bytes :: u64
  ts_transferred_bytes :: u64

definition file_state_new :: "u32 \<Rightarrow> nat \<times> file_metadata \<Rightarrow> file_state option" where
  "file_state_new csize = (\<lambda>(idx, metadata).
     map_option (\<lambda>total_chunks.
       \<lparr> fs_file_index = word_of_nat idx, fs_metadata = metadata, fs_local_path = [],
         fs_total_chunks = total_chunks, fs_completed_chunks = replicate (unat total_chunks) False,
         fs_status = Pending \<rparr>) (chunk_count (fm_size metadata) csize))"

text \<open>A chunk size of zero panics as soon as there is a file.\<close>

definition transfer_state_new ::
  "uuid \<Rightarrow> string \<Rightarrow> file_metadata list \<Rightarrow> u32 \<Rightarrow> u64 \<Rightarrow> transfer_state option" where
  "transfer_state_new tid peer_address files csize now =
     map_option (\<lambda>file_states.
       \<lparr> ts_transfer_id = tid, ts_peer_address = peer_address, ts_files = file_states,
         ts_timestamp = now, ts_total_bytes = sum_list (map fm_size files), ts_transferred_bytes = 0 \<rparr>)
       (those (map (file_state_new csize) (enumerate 0 files)))"

definition set_chunk :: "u64 \<Rightarrow> file_state \<Rightarrow> file_state" where
  "set_chunk chunk_index fs =
     (let fs' = fs\<lparr> fs_completed_chunks := (fs_completed_chunks fs)[unat chunk_index := True] \<rparr>
      in if list_all id (fs_completed_chunks fs') \<and> fs_status fs' = InProgress
         then fs'\<lparr> fs_status := Completed \<rparr>
         else if fs_status fs' = Pending then fs'\<lparr> fs_status := InProgress \<rparr>
         else fs')"

definition ts_mark_chunk_complete :: "u32 \<Rightarrow> u64 \<Rightarrow> u64 \<Rightarrow> transfer_state \<Rightarrow> transfer_state" where
  "ts_mark_chunk_complete file_index chunk_index csize s =
     (if unat file_index < length (ts_files s) then
        let fs = ts_files s ! unat file_index in
        if chunk_index < fs_total_chunks fs
        then s\<lparr> ts_files := (ts_files s)[unat file_index := set_chunk chunk_index fs],
               ts_transferred_bytes := ts_transferred_bytes s + csize \<rparr>
        else s
      else s)"

definition ts_is_complete :: "transfer_state \<Rightarrow> bool" where
  "ts_is_complete s \<longleftrightarrow> list_all (\<lambda>f. fs_status f = Verified) (ts_files s)"

definition ts_progress :: "transfer_state \<Rightarrow> rat" where
  "ts_progress s =
     (if ts_total_bytes s = 0 then 1
      else of_nat (unat (ts_transferred_bytes s)) / of_nat (unat (ts_total_bytes s)))"

text \<open>The position of the first clear bit.\<close>

definition first_clear :: "bool list \<Rightarrow> nat option" where
  "first_clear bits = List.find (\<lambda>i. \<not> bits ! i) [0..<length bits]"

definition unfinished :: "file_state \<Rightarrow> bool" where
  "unfinished f \<longleftrightarrow> fs_status f = Pending \<or> fs_status f = InProgress"

fun next_chunk_in :: "file_state list \<Rightarrow> (u32 \<times> u64) option" where
  "next_chunk_in [] = None"
| "next_chunk_in (f # fs) =
     (if unfinished f
      then (case first_clear (fs_completed_chunks f) of
              Some i \<Rightarrow> Some (fs_file_index f, word_of_nat i)
            | None \<Rightarrow> next_chunk_in fs)
      else next_chunk_in fs)"

definition next_chunk :: "transfer_state \<Rightarrow> (u32 \<times> u64) option" where
  "next_chunk s = next_chunk_in (ts_files s)"

section \<open>The bitmap as a tracker\<close>

definition bitmap_ok :: "transfer_state \<Rightarrow> bool" where
  "bitmap_ok s \<longleftrightarrow> (\<forall>j < length (ts_files s).
     fs_file_index (ts_files s ! j) = word_of_nat j \<and> j < 2 ^ 32 \<and>
     length (fs_completed_chunks (ts_files s ! j)) = unat (fs_total_chunks (ts_files s ! j)))"

definition bitmap_in_range :: "transfer_state \<Rightarrow> nat \<Rightarrow> u64 \<Rightarrow> bool" where
  "bitmap_in_range s f i \<longleftrightarrow> f < length (ts_files s) \<and> f < 2 ^ 32 \<and> i < fs_total_chunks (ts_files s ! f)"

definition set_bits :: "bool list \<Rightarrow> u64 list" where
  "set_bits bits = map word_of_nat (filter (\<lambda>i. bits ! i) [0..<length bits])"

definition bitmap_completed :: "transfer_state \<Rightarrow> nat \<Rightarrow> u64 list" where
  "bitmap_completed s f =
     (if f < length (ts_files s) \<and> bitmap_ok s then set_bits (fs_completed_chunks (ts_files s ! f)) else [])"

lemma set_chunk_simps [simp]:
  "fs_completed_chunks (set_chunk i f) = (fs_completed_chunks f)[unat i := True]"
  "fs_file_index (set_chunk i f) = fs_file_index f"
  "fs_total_chunks (set_chunk i f) = fs_total_chunks f"
  by (simp_all add: set_chunk_def Let_def)

lemma unat_u32_small: "f < 2 ^ 32 \<Longrightarrow> unat (word_of_nat f :: u32) = f"
  by (simp add: unsigned_of_nat take_bit_nat_eq_self)

lemma set_set_bits:
  assumes "length bits \<le> unat (n :: u64)"
  shows "set (set_bits bits) = {i. unat i < length bits \<and> bits ! unat i}"
proof -
  have small: "unat (word_of_nat i :: u64) = i" if "i < length bits" for i
    using that assms unsigned_less [of n, where 'a = nat]
    by (simp add: unsigned_of_nat take_bit_nat_eq_self)
  show ?thesis
  proof (intro equalityI subsetI)
    fix x assume "x \<in> set (set_bits bits)"
    then show "x \<in> {i. unat i < length bits \<and> bits ! unat i}"
      by (auto simp: set_bits_def small)
  next
    fix x :: u64 assume "x \<in> {i. unat i < length bits \<and> bits ! unat i}"
    then have "unat x \<in> set (filter (\<lambda>i. bits ! i) [0..<length bits])" by simp
    moreover have "x = word_of_nat (unat x)" by (metis of_nat_unat ucast_id)
    ultimately show "x \<in> set (set_bits bits)"
      unfolding set_bits_def set_map by (rule rev_image_eqI)
  qed
qed

lemma distinct_set_bits:
  assumes "length bits \<le> unat (n :: u64)"
  shows "distinct (set_bits bits)"
proof -
  have "inj_on (word_of_nat :: nat \<Rightarrow> u64) {..<length bits}"
  proof (rule inj_onI)
    fix i j assume "i \<in> {..<length bits}" "j \<in> {..<length bits}"
      "(word_of_nat i :: u64) = word_of_nat j"
    then show "i = j"
      using assms unsigned_less [of n, where 'a = nat]
      by (simp add: word_unat_eq_iff unsigned_of_nat take_bit_nat_eq_self)
  qed
  then show ?thesis
    by (auto simp: set_bits_def distinct_map inj_on_def)
qed

lemma bitmap_mark:
  assumes "bitmap_in_range s f i"
  shows "ts_files (ts_mark_chunk_complete (word_of_nat f) i c s) =
    (ts_files s)[f := set_chunk i (ts_files s ! f)]"
  using assms
  by (simp add: ts_mark_chunk_complete_def bitmap_in_range_def unat_u32_small Let_def)

lemma bitmap_ok_mark:
  "bitmap_ok s \<Longrightarrow> bitmap_ok (ts_mark_chunk_complete x i c s)"
  by (auto simp: ts_mark_chunk_complete_def Let_def bitmap_ok_def nth_list_update)

lemma bitmap_range_mark [simp]:
  "bitmap_in_range (ts_mark_chunk_complete x i c s) g j = bitmap_in_range s g j"
  by (auto simp: ts_mark_chunk_complete_def Let_def bitmap_in_range_def nth_list_update)

interpretation bitmap: chunk_tracker bitmap_ok bitmap_in_range
    "\<lambda>f i. ts_mark_chunk_complete (word_of_nat f) i c" bitmap_completed for c
proof
  fix s f i g j
  show "bitmap_ok s \<Longrightarrow> bitmap_ok (ts_mark_chunk_complete (word_of_nat f) i c s)"
    by (rule bitmap_ok_mark)
  show "bitmap_in_range (ts_mark_chunk_complete (word_of_nat f) i c s) g j = bitmap_in_range s g j"
    by simp
  show "distinct (bitmap_completed s f)" if "bitmap_ok s"
    using that
    by (auto simp: bitmap_completed_def bitmap_ok_def
        intro!: distinct_set_bits [of _ "fs_total_chunks (ts_files s ! f)"])
  assume ok: "bitmap_ok s" and r: "bitmap_in_range s f i"
  note ok' = bitmap_ok_mark [OF ok, of "word_of_nat f" i c]
  have f: "f < length (ts_files s)" "i < fs_total_chunks (ts_files s ! f)"
    using r by (auto simp: bitmap_in_range_def)
  have len: "length (fs_completed_chunks (ts_files s ! f)) = unat (fs_total_chunks (ts_files s ! f))"
    using ok f by (simp add: bitmap_ok_def)
  show "set (bitmap_completed (ts_mark_chunk_complete (word_of_nat f) i c s) f) =
      insert i (set (bitmap_completed s f))"
    using ok ok' f len
    by (auto simp: bitmap_completed_def bitmap_mark [OF r] set_set_bits [of _ "fs_total_chunks (ts_files s ! f)"]
        nth_list_update word_less_nat_alt word_unat_eq_iff)
  show "bitmap_completed (ts_mark_chunk_complete (word_of_nat f) i c s) g = bitmap_completed s g"
    if "g \<noteq> f"
    using ok ok' that by (simp add: bitmap_completed_def bitmap_mark [OF r])
qed

section \<open>What is left to do\<close>

definition missing_in :: "file_state \<Rightarrow> nat" where
  "missing_in f = (if unfinished f then length (filter Not (fs_completed_chunks f)) else 0)"

definition missing :: "transfer_state \<Rightarrow> nat" where
  "missing s = sum_list (map missing_in (ts_files s))"

lemma first_clear_Some:
  "first_clear bits = Some i \<Longrightarrow> i < length bits \<and> \<not> bits ! i \<and> (\<forall>j < i. bits ! j)"
  by (auto simp: first_clear_def find_Some_iff)

lemma first_clear_None: "first_clear bits = None \<longleftrightarrow> filter Not bits = []"
proof -
  have "first_clear bits = None \<longleftrightarrow> (\<forall>i < length bits. bits ! i)"
    by (auto simp: first_clear_def find_None_iff)
  also have "\<dots> \<longleftrightarrow> (\<forall>b \<in> set bits. b)" by (simp add: all_set_conv_all_nth)
  finally show ?thesis by (simp add: filter_empty_conv)
qed

lemma filter_Not_set:
  "i < length bits \<Longrightarrow> \<not> bits ! i \<Longrightarrow>
     Suc (length (filter Not (bits[i := True]))) = length (filter Not bits)"
proof (induction bits arbitrary: i)
  case Nil
  then show ?case by simp
next
  case (Cons b bits)
  then show ?case by (cases i) auto
qed

lemma next_chunk_in_Some:
  "next_chunk_in fs = Some (x, i) \<Longrightarrow>
     \<exists>j k. j < length fs \<and> unfinished (fs ! j) \<and> x = fs_file_index (fs ! j) \<and>
       first_clear (fs_completed_chunks (fs ! j)) = Some k \<and> i = word_of_nat k \<and>
       (\<forall>m < j. missing_in (fs ! m) = 0)"
proof (induction fs)
  case Nil
  then show ?case by simp
next
  case (Cons f fs)
  show ?case
  proof (cases "unfinished f \<and> first_clear (fs_completed_chunks f) \<noteq> None")
    case True
    then obtain k where "first_clear (fs_completed_chunks f) = Some k" by blast
    with True Cons.prems show ?thesis by (intro exI [of _ 0] exI [of _ k]) auto
  next
    case False
    then have "next_chunk_in fs = Some (x, i)" "missing_in f = 0"
      using Cons.prems by (auto simp: missing_in_def first_clear_None [symmetric] split: if_splits)
    with Cons.IH obtain j k where "j < length fs" "unfinished (fs ! j)"
        "x = fs_file_index (fs ! j)" "first_clear (fs_completed_chunks (fs ! j)) = Some k"
        "i = word_of_nat k" "\<forall>m < j. missing_in (fs ! m) = 0"
      by blast
    with \<open>missing_in f = 0\<close> show ?thesis
      by (intro exI [of _ "Suc j"] exI [of _ k]) (auto simp: less_Suc_eq_0_disj)
  qed
qed

lemma next_chunk_in_None: "next_chunk_in fs = None \<longleftrightarrow> (\<forall>f \<in> set fs. missing_in f = 0)"
  by (induction fs) (auto simp: missing_in_def first_clear_None [symmetric] split: option.splits)

lemma missing_set_chunk:
  assumes "unfinished f" "unat i < length (fs_completed_chunks f)" "\<not> fs_completed_chunks f ! unat i"
  shows "Suc (missing_in (set_chunk i f)) = missing_in f"
proof -
  let ?b = "(fs_completed_chunks f)[unat i := True]"
  have "list_all id ?b \<Longrightarrow> filter Not ?b = []"
    by (auto simp: list_all_iff filter_empty_conv)
  with filter_Not_set [OF assms(2,3)] assms(1) show ?thesis
    by (auto simp: missing_in_def unfinished_def set_chunk_def Let_def)
qed

text \<open>
  As long as an unfinished file lacks a chunk, \<open>next_chunk\<close> gives the
  first such chunk of the first such file, and marking it leaves exactly one chunk less to do, so
  a loop that sends and marks the next chunk ends after as many rounds as chunks are missing; it
  gives nothing exactly when no unfinished file lacks a chunk.
\<close>

lemma next_chunk_progress:
  assumes "bitmap_ok s"
  shows "case next_chunk s of
      None \<Rightarrow> missing s = 0
    | Some (x, i) \<Rightarrow>
        bitmap_in_range s (unat x) i \<and> i \<notin> set (bitmap_completed s (unat x)) \<and>
        i \<in> set (bitmap_completed (ts_mark_chunk_complete x i c s) (unat x)) \<and>
        Suc (missing (ts_mark_chunk_complete x i c s)) = missing s \<and>
        bitmap_ok (ts_mark_chunk_complete x i c s)"
proof (cases "next_chunk s")
  case None
  then have "missing s = 0" by (simp add: next_chunk_def next_chunk_in_None missing_def)
  with None show ?thesis by simp
next
  case (Some p)
  obtain x i where p: "p = (x, i)" by fastforce
  obtain j k where jk: "j < length (ts_files s)" "unfinished (ts_files s ! j)"
      "x = fs_file_index (ts_files s ! j)"
      "first_clear (fs_completed_chunks (ts_files s ! j)) = Some k" "i = word_of_nat k"
    using Some p next_chunk_in_Some [of "ts_files s" x i] by (auto simp: next_chunk_def)
  let ?f = "ts_files s ! j"
  have f: "x = word_of_nat j" "unat x = j" "j < 2 ^ 32"
      "length (fs_completed_chunks ?f) = unat (fs_total_chunks ?f)"
    using assms jk by (simp_all add: bitmap_ok_def unat_u32_small)
  have k: "k < length (fs_completed_chunks ?f)" "\<not> fs_completed_chunks ?f ! k"
    using first_clear_Some [OF jk(4)] by auto
  then have i: "unat i = k"
    using f(4) unsigned_less [of "fs_total_chunks ?f", where 'a = nat] jk(5)
    by (simp add: unsigned_of_nat take_bit_nat_eq_self)
  have r: "bitmap_in_range s j i"
    using jk(1) f k by (simp add: bitmap_in_range_def word_less_nat_alt i)
  have un: "i \<notin> set (bitmap_completed s j)"
    using assms jk(1) k f(4) i
    by (simp add: bitmap_completed_def set_set_bits [of _ "fs_total_chunks ?f"])
  have "sum_list (map missing_in ((ts_files s)[j := set_chunk i ?f])) =
      sum_list (map missing_in (ts_files s)) + missing_in (set_chunk i ?f) - missing_in ?f"
    using jk(1) by (simp add: map_update sum_list_update)
  moreover have "Suc (missing_in (set_chunk i ?f)) = missing_in ?f"
    using jk(2) k i by (intro missing_set_chunk) simp_all
  moreover have "missing_in ?f \<le> sum_list (map missing_in (ts_files s))"
    using jk(1) elem_le_sum_list [of j "map missing_in (ts_files s)"] by simp
  ultimately have "Suc (missing (ts_mark_chunk_complete x i c s)) = missing s"
    using bitmap_mark [OF r, of c] f(1) by (simp add: missing_def)
  with Some p r un f bitmap.mark_set [OF assms r, of c] bitmap_ok_mark [OF assms] show ?thesis
    by simp
qed

lemma next_chunk_progress_witness:
  "\<exists>s. transfer_state_new (Uuid 0) ''peer''
        [\<lparr> fm_path = ''a'', fm_size = 300, fm_modified = 0, fm_checksum = 0 \<rparr>] 100 0 = Some s \<and>
     next_chunk s = Some (0, 0) \<and> Suc (missing (ts_mark_chunk_complete 0 0 100 s)) = missing s"
proof -
  obtain s where s: "transfer_state_new (Uuid 0) ''peer''
        [\<lparr> fm_path = ''a'', fm_size = 300, fm_modified = 0, fm_checksum = 0 \<rparr>] 100 0 = Some s"
      "bitmap_ok s" "next_chunk s = Some (0, 0)"
    by (simp add: transfer_state_new_def file_state_new_def chunk_count_def bitmap_ok_def
        next_chunk_def unfinished_def first_clear_def upt_rec)
  with next_chunk_progress [OF s(2), of 100] show ?thesis by auto
qed

text \<open>
  A file of one chunk goes from \<open>Pending\<close> to \<open>InProgress\<close> when its only chunk is marked and is
  not promoted to \<open>Completed\<close>, unlike a file of several chunks.
\<close>

theorem single_chunk_not_completed:
  "fs_status (set_chunk 0 \<lparr> fs_file_index = 0, fs_metadata = m, fs_local_path = [],
      fs_total_chunks = 1, fs_completed_chunks = [False], fs_status = Pending \<rparr>) = InProgress"
  by (simp add: set_chunk_def Let_def)

end
