(* ===== verification/Path_Safety.thy ===== *)
theory Path_Safety
  imports P2P_Error
begin

text \<open>
  \<open>sanitize_relative_path\<close> of \<open>p2p-core/src/transfer_folder.rs\<close>, on Unix paths: a path is a byte
  string, and what the check reads of it are the components \<open>std::path\<close> parses. Windows prefixes
  do not occur. The theorems say where a path that passes can lead.
\<close>

section \<open>Paths of the standard library\<close>

datatype component = RootDir | CurDir | ParentDir | Normal string

fun split_slash :: "string \<Rightarrow> string list" where
  "split_slash [] = [[]]"
| "split_slash (c # cs) =
     (if c = CHR ''/'' then [] # split_slash cs
      else (c # hd (split_slash cs)) # tl (split_slash cs))"

definition pieces :: "string \<Rightarrow> string list" where
  "pieces p = filter (\<lambda>w. w \<noteq> []) (split_slash p)"

definition is_absolute :: "string \<Rightarrow> bool" where
  "is_absolute p \<longleftrightarrow> p \<noteq> [] \<and> hd p = CHR ''/''"

definition component_of :: "string \<Rightarrow> component" where
  "component_of w = (if w = ''.'' then CurDir else if w = ''..'' then ParentDir else Normal w)"

text \<open>Repeated slashes vanish, and so does every \<open>.\<close> that is not the first component.\<close>

definition components :: "string \<Rightarrow> component list" where
  "components p =
     (if is_absolute p
      then RootDir # map component_of (filter (\<lambda>w. w \<noteq> ''.'') (pieces p))
      else (case pieces p of
              [] \<Rightarrow> []
            | w # ws \<Rightarrow> component_of w # map component_of (filter (\<lambda>w. w \<noteq> ''.'') ws)))"

text \<open>\<open>PathBuf::push\<close> and \<open>Path::join\<close>.\<close>

definition push :: "string \<Rightarrow> string \<Rightarrow> string" where
  "push buf part =
     (if is_absolute part then part
      else if buf = [] \<or> last buf = CHR ''/'' then buf @ part
      else buf @ ''/'' @ part)"

definition join :: "string \<Rightarrow> string \<Rightarrow> string" where
  "join base p = push base p"

section \<open>The check\<close>

fun sanitize_loop :: "string \<Rightarrow> string \<Rightarrow> component list \<Rightarrow> string result" where
  "sanitize_loop p clean [] = Inr clean"
| "sanitize_loop p clean (Normal part # comps) = sanitize_loop p (push clean part) comps"
| "sanitize_loop p clean (CurDir # comps) =
     Inl (Protocol (''rejecting `.` component in transfer path: '' @ p))"
| "sanitize_loop p clean (ParentDir # comps) =
     Inl (Protocol (''rejecting `..` component in transfer path: '' @ p))"
| "sanitize_loop p clean (RootDir # comps) =
     Inl (Protocol (''rejecting drive/root component in transfer path: '' @ p))"

definition sanitize_relative_path :: "string \<Rightarrow> string result" where
  "sanitize_relative_path p =
     (if is_absolute p
      then Inl (Protocol (''rejecting absolute path in transfer: '' @ p))
      else rbind (sanitize_loop p [] (components p)) (\<lambda>clean.
        if clean = [] then Inl (Protocol ''transfer path is empty'') else Inr clean))"

section \<open>Splitting\<close>

lemma split_slash_ne [simp]: "split_slash p \<noteq> []"
  by (cases p) auto

lemma split_slash_append: "split_slash (a @ CHR ''/'' # b) = split_slash a @ split_slash b"
  by (induction a) auto

lemma split_slash_plain: "CHR ''/'' \<notin> set w \<Longrightarrow> split_slash w = [w]"
  by (induction w) auto

lemma split_slash_no_slash: "w \<in> set (split_slash p) \<Longrightarrow> CHR ''/'' \<notin> set w"
proof (induction p arbitrary: w)
  case Nil
  then show ?case by simp
next
  case (Cons c p)
  have "hd (split_slash p) \<in> set (split_slash p)" by simp
  with Cons show ?case
    by (auto split: if_splits dest: list.set_sel(2) [OF split_slash_ne])
qed

lemma pieces_append: "pieces (a @ CHR ''/'' # b) = pieces a @ pieces b"
  by (simp add: pieces_def split_slash_append)

lemma pieces_plain: "CHR ''/'' \<notin> set w \<Longrightarrow> w \<noteq> [] \<Longrightarrow> pieces w = [w]"
  by (simp add: pieces_def split_slash_plain)

lemma pieces_Nil [simp]: "pieces [] = []"
  by (simp add: pieces_def)

lemma pieces_good: "w \<in> set (pieces p) \<Longrightarrow> w \<noteq> [] \<and> CHR ''/'' \<notin> set w"
  by (auto simp: pieces_def dest: split_slash_no_slash)

lemma pieces_after_slash:
  assumes "buf \<noteq> []" "last buf = CHR ''/''"
  shows "pieces (buf @ w) = pieces buf @ pieces w"
proof -
  obtain b where b: "buf = b @ ''/''"
    using assms by (metis append_butlast_last_id)
  have "pieces (b @ CHR ''/'' # w) = pieces b @ pieces w" by (rule pieces_append)
  moreover have "pieces (b @ ''/'') = pieces b" using pieces_append [of b "[]"] by simp
  ultimately show ?thesis by (simp add: b)
qed

lemma pieces_push: "\<not> is_absolute w \<Longrightarrow> pieces (push buf w) = pieces buf @ pieces w"
  by (cases "buf = []") (auto simp: push_def pieces_append pieces_after_slash)

lemma is_absolute_push:
  "\<not> is_absolute w \<Longrightarrow> buf \<noteq> [] \<Longrightarrow> is_absolute (push buf w) = is_absolute buf"
  by (auto simp: push_def is_absolute_def)

lemma not_absolute_plain: "CHR ''/'' \<notin> set w \<Longrightarrow> \<not> is_absolute w"
  by (cases w) (auto simp: is_absolute_def)

section \<open>The loop\<close>

lemma sanitize_loop_normal: "sanitize_loop p clean (map Normal ws) = Inr (foldl push clean ws)"
  by (induction ws arbitrary: clean) auto

lemma sanitize_loop_Inr:
  "sanitize_loop p clean comps = Inr q \<Longrightarrow> \<exists>ws. comps = map Normal ws \<and> q = foldl push clean ws"
proof (induction p clean comps rule: sanitize_loop.induct)
  case (2 p clean part comps)
  then obtain ws where "comps = map Normal ws \<and> q = foldl push (push clean part) ws" by auto
  then show ?case by (intro exI [of _ "part # ws"]) simp
qed auto

lemma pieces_foldl_push:
  assumes "\<forall>w \<in> set ws. w \<noteq> [] \<and> CHR ''/'' \<notin> set w"
  shows "pieces (foldl push clean ws) = pieces clean @ ws"
  using assms by (induction ws arbitrary: clean) (auto simp: pieces_push not_absolute_plain pieces_plain)

lemma relative_foldl_push:
  assumes "\<forall>w \<in> set ws. w \<noteq> [] \<and> CHR ''/'' \<notin> set w" "\<not> is_absolute clean"
  shows "\<not> is_absolute (foldl push clean ws)"
  using assms
proof (induction ws arbitrary: clean)
  case Nil
  then show ?case by simp
next
  case (Cons w ws)
  then have "\<not> is_absolute (push clean w)"
    using is_absolute_push [of w clean] not_absolute_plain [of w]
    by (cases "clean = []") (simp_all add: push_def)
  with Cons show ?case by simp
qed

text \<open>The pieces of a path that passes: ordinary names only.\<close>

definition plain :: "string \<Rightarrow> bool" where
  "plain w \<longleftrightarrow> w \<noteq> [] \<and> CHR ''/'' \<notin> set w \<and> w \<noteq> ''.'' \<and> w \<noteq> ''..''"

lemma component_of_plain: "plain w \<Longrightarrow> component_of w = Normal w"
  by (simp add: component_of_def plain_def)

lemma components_plain:
  assumes "\<not> is_absolute p" "\<forall>w \<in> set (pieces p). plain w"
  shows "components p = map Normal (pieces p)"
proof -
  have "filter (\<lambda>w. w \<noteq> ''.'') ws = ws" if "\<forall>w \<in> set ws. plain w" for ws
    using that by (induction ws) (auto simp: plain_def)
  with assms show ?thesis
    by (cases "pieces p") (auto simp: components_def component_of_plain)
qed

lemma components_normal_pieces:
  assumes "\<not> is_absolute p" "components p = map Normal ws"
  shows "\<forall>w \<in> set ws. plain w"
proof (cases "pieces p")
  case Nil
  with assms show ?thesis by (simp add: components_def)
next
  case (Cons u us)
  then have comps: "map Normal ws = map component_of (u # filter (\<lambda>w. w \<noteq> ''.'') us)"
    using assms by (simp add: components_def)
  have plain: "plain w \<and> Normal w = component_of w" if "w \<in> set (pieces p)" "\<exists>v. component_of w = Normal v" for w
    using that pieces_good [of w p] by (auto simp: component_of_def plain_def split: if_splits)
  have "\<forall>x \<in> set (u # filter (\<lambda>w. w \<noteq> ''.'') us). \<exists>v. component_of x = Normal v"
  proof
    fix x assume "x \<in> set (u # filter (\<lambda>w. w \<noteq> ''.'') us)"
    then have "component_of x \<in> set (map component_of (u # filter (\<lambda>w. w \<noteq> ''.'') us))"
      unfolding set_map by (rule imageI)
    then have "component_of x \<in> set (map Normal ws)" unfolding comps .
    then show "\<exists>v. component_of x = Normal v" by auto
  qed
  then have "\<forall>x \<in> set (u # filter (\<lambda>w. w \<noteq> ''.'') us). plain x \<and> Normal x = component_of x"
    using plain Cons by auto
  then have "map Normal ws = map Normal (u # filter (\<lambda>w. w \<noteq> ''.'') us)"
    using comps by simp
  then have "ws = u # filter (\<lambda>w. w \<noteq> ''.'') us"
    by (metis component.inject inj_onI map_inj_on)
  with \<open>\<forall>x \<in> set (u # _). plain x \<and> _\<close> show ?thesis by simp
qed

lemma sanitize_Inr:
  "sanitize_relative_path p = Inr q \<longleftrightarrow>
     (\<exists>ws. \<not> is_absolute p \<and> components p = map Normal ws \<and> ws \<noteq> [] \<and> q = foldl push [] ws)"
proof -
  have ne: "foldl push [] ws \<noteq> []" if "components p = map Normal ws" "\<not> is_absolute p" "ws \<noteq> []" for ws
  proof -
    have "pieces (foldl push [] ws) = ws"
      using components_normal_pieces [OF that(2,1)] by (simp add: pieces_foldl_push plain_def)
    with that(3) show ?thesis by auto
  qed
  show ?thesis
  proof
    assume "sanitize_relative_path p = Inr q"
    then have "\<not> is_absolute p" "sanitize_loop p [] (components p) = Inr q" "q \<noteq> []"
      by (auto simp: sanitize_relative_path_def rbind_def split: if_splits sum.splits)
    with sanitize_loop_Inr show "\<exists>ws. \<not> is_absolute p \<and> components p = map Normal ws \<and> ws \<noteq> [] \<and> q = foldl push [] ws"
      by fastforce
  next
    assume "\<exists>ws. \<not> is_absolute p \<and> components p = map Normal ws \<and> ws \<noteq> [] \<and> q = foldl push [] ws"
    with ne show "sanitize_relative_path p = Inr q"
      by (auto simp: sanitize_relative_path_def sanitize_loop_normal rbind_def)
  qed
qed

lemma components_join:
  assumes "\<not> is_absolute q" "\<forall>w \<in> set (pieces q). plain w"
  shows "components (join out q) = components out @ map Normal (pieces q)"
proof -
  have plain: "map component_of (filter (\<lambda>w. w \<noteq> ''.'') (pieces q)) = map Normal (pieces q)"
    using assms(2) component_of_plain by (simp add: filter_id_conv plain_def)
  have pcs: "pieces (join out q) = pieces out @ pieces q"
    using assms(1) by (simp add: join_def pieces_push)
  show ?thesis
  proof (cases "out = []")
    case True
    then show ?thesis
      using components_plain [OF assms] assms(1)
      by (simp add: join_def push_def) (simp add: components_def is_absolute_def)
  next
    case False
    then have abs: "is_absolute (join out q) = is_absolute out"
      using assms(1) by (simp add: join_def is_absolute_push)
    have "pieces out \<noteq> []" if "\<not> is_absolute out"
    proof -
      obtain c cs where "out = c # cs" "c \<noteq> CHR ''/''"
        using False \<open>\<not> is_absolute out\<close> by (cases out) (auto simp: is_absolute_def)
      then show ?thesis by (simp add: pieces_def)
    qed
    then show ?thesis
      using abs pcs plain by (cases "pieces out") (auto simp: components_def)
  qed
qed

text \<open>
  C23: a path that passes the check names, under whatever output directory
  it is joined to, a file strictly below that directory: the components of the joined path are
  those of the directory followed by at least one ordinary name, none of them \<open>.\<close>, \<open>..\<close> or a
  root, and they are the components the peer sent; checking the result again changes nothing.
\<close>

theorem sanitized_path_confined:
  assumes "sanitize_relative_path p = Inr q"
  shows "\<exists>ws. ws \<noteq> [] \<and> (\<forall>w \<in> set ws. plain w) \<and> components p = map Normal ws \<and>
     components (join out q) = components out @ map Normal ws \<and>
     \<not> is_absolute q \<and> sanitize_relative_path q = Inr q"
proof -
  obtain ws where ws: "\<not> is_absolute p" "components p = map Normal ws" "ws \<noteq> []" "q = foldl push [] ws"
    using assms by (auto simp: sanitize_Inr)
  have plain: "\<forall>w \<in> set ws. plain w" using components_normal_pieces [OF ws(1,2)] .
  have pcs: "pieces q = ws" using plain by (simp add: ws(4) pieces_foldl_push plain_def)
  have rel: "\<not> is_absolute q"
    unfolding ws(4) using plain by (intro relative_foldl_push) (auto simp: plain_def is_absolute_def)
  have "components q = map Normal ws" using components_plain [OF rel] pcs plain by simp
  with rel ws(3,4) have "sanitize_relative_path q = Inr q" by (auto simp: sanitize_Inr)
  with ws plain rel components_join [OF rel] pcs show ?thesis by auto
qed

theorem sanitized_path_confined_witness:
  "\<exists>ws. ws \<noteq> [] \<and> components (join ''/srv/in'' ''photos/a.jpg'') = components ''/srv/in'' @ map Normal ws"
proof -
  have "sanitize_relative_path ''photos//a.jpg'' = Inr ''photos/a.jpg''" by code_simp
  from sanitized_path_confined [OF this, of "''/srv/in''"] show ?thesis by blast
qed

text \<open>
  The check passes exactly the relative, non-empty paths all of whose
  components are ordinary names; everything else is a protocol error, which ends the session.
\<close>

lemma sanitize_complete:
  "((\<exists>q. sanitize_relative_path p = Inr q) =
      (\<not> is_absolute p \<and> components p \<noteq> [] \<and> (\<forall>c \<in> set (components p). c \<notin> {RootDir, CurDir, ParentDir})))
   \<and> (case sanitize_relative_path p of Inl e \<Rightarrow> is_protocol e | Inr q \<Rightarrow> q \<noteq> [])"
proof
  have "(\<forall>c \<in> set cs. c \<notin> {RootDir, CurDir, ParentDir}) \<longleftrightarrow> (\<exists>ws. cs = map Normal ws)" for cs
  proof (induction cs)
    case Nil
    then show ?case by simp
  next
    case (Cons c cs)
    then show ?case by (cases c) (auto simp: Cons_eq_map_conv)
  qed
  then show "(\<exists>q. sanitize_relative_path p = Inr q) =
      (\<not> is_absolute p \<and> components p \<noteq> [] \<and> (\<forall>c \<in> set (components p). c \<notin> {RootDir, CurDir, ParentDir}))"
    by (auto simp: sanitize_Inr)
  have "is_protocol e" if "sanitize_loop p clean cs = Inl e" for clean cs e
    using that by (induction p clean cs rule: sanitize_loop.induct) auto
  then show "case sanitize_relative_path p of Inl e \<Rightarrow> is_protocol e | Inr q \<Rightarrow> q \<noteq> []"
    by (auto simp: sanitize_relative_path_def rbind_def split: sum.splits)
qed

lemma sanitize_complete_witness:
  "\<exists>q. sanitize_relative_path ''a/b'' = Inr q"
proof -
  have "components ''a/b'' = [Normal ''a'', Normal ''b'']" "\<not> is_absolute ''a/b''" by code_simp+
  with sanitize_complete [of "''a/b''"] show ?thesis by simp
qed

text \<open>A \<open>.\<close> inside the path is dropped, not refused.\<close>

theorem inner_dot_accepted: "sanitize_relative_path ''a/./b'' = Inr ''a/b''"
  by code_simp

end
