(* ===== verification/Relay.thy ===== *)
theory Relay
  imports Framing "HOL-Library.AList"
begin

text \<open>
  \<open>p2p-rendezvous/src/relay.rs\<close>: the hello datagram, the relay's session table with its reverse
  index from source addresses, and the handling of one datagram. Instants are rationals in
  seconds, and so are the token counts the code keeps as \<open>f64\<close>; the clock readings taken while one
  datagram is handled are the same instant. The session table is an association list (its order
  stands for the unspecified order of the hash map). What the socket does with an outgoing
  datagram is not modelled.
\<close>

type_synonym token = "128 word"

definition RELAY_HELLO_MAGIC :: bytes where "RELAY_HELLO_MAGIC = [0x50, 0x32, 0x52, 0x5A]"
definition SESSION_TOKEN_LEN :: nat where "SESSION_TOKEN_LEN = 16"
definition FINGERPRINT_LEN :: nat where "FINGERPRINT_LEN = 32"
definition SESSION_IDLE_TIMEOUT :: rat where "SESSION_IDLE_TIMEOUT = 120"

section \<open>The hello datagram\<close>

record relay_hello =
  rh_token :: token
  rh_fingerprint :: fingerprint

definition encode_hello :: "relay_hello \<Rightarrow> bytes" where
  "encode_hello h = RELAY_HELLO_MAGIC @
     [1, 0, word_of_nat SESSION_TOKEN_LEN, word_of_nat FINGERPRINT_LEN] @
     word_be SESSION_TOKEN_LEN (rh_token h) @ word_be FINGERPRINT_LEN (rh_fingerprint h)"

definition try_decode :: "bytes \<Rightarrow> relay_hello option" where
  "try_decode data =
     (if length data < 8 \<or> take 4 data \<noteq> RELAY_HELLO_MAGIC then None
      else if data ! 4 \<noteq> 1 then None
      else
        let token_len = unat (data ! 6); fp_len = unat (data ! 7) in
        if token_len \<noteq> SESSION_TOKEN_LEN \<or> fp_len \<noteq> FINGERPRINT_LEN then None
        else if length data < 8 + token_len + fp_len then None
        else Some \<lparr> rh_token = be_word (take token_len (drop 8 data)),
                    rh_fingerprint = be_word (take fp_len (drop (8 + token_len) data)) \<rparr>)"

section \<open>Sessions\<close>

record peer_state =
  ps_addr :: socket_addr
  ps_fingerprint :: fingerprint

record session =
  ss_peer_a :: "peer_state option"
  ss_peer_b :: "peer_state option"
  ss_created_at :: rat
  ss_last_active :: rat
  ss_peer_a_expected_fp :: fingerprint
  ss_peer_b_expected_fp :: fingerprint

record relay_state =
  rs_sessions :: "(token \<times> session) list"
  rs_addr_to_token :: "socket_addr \<Rightarrow> token option"
  rs_bytes_forwarded :: u64

datatype relay_error = RelayBind string | DuplicateFingerprint

definition relay_default :: relay_state where
  "relay_default = \<lparr> rs_sessions = [], rs_addr_to_token = (\<lambda>_. None), rs_bytes_forwarded = 0 \<rparr>"

definition reserve :: "rat \<Rightarrow> token \<Rightarrow> fingerprint \<Rightarrow> fingerprint \<Rightarrow> (relay_state, relay_error, unit) proc" where
  "reserve now token peer_a_fp peer_b_fp = (\<lambda>s.
     if peer_a_fp = peer_b_fp then (Inl DuplicateFingerprint, s)
     else (Inr (), s\<lparr> rs_sessions := AList.update token
            \<lparr> ss_peer_a = None, ss_peer_b = None, ss_created_at = now, ss_last_active = now,
              ss_peer_a_expected_fp = peer_a_fp, ss_peer_b_expected_fp = peer_b_fp \<rparr> (rs_sessions s) \<rparr>))"

definition unindex :: "peer_state option \<Rightarrow> (socket_addr \<Rightarrow> token option) \<Rightarrow> socket_addr \<Rightarrow> token option" where
  "unindex p m = (case p of None \<Rightarrow> m | Some ps \<Rightarrow> m(ps_addr ps := None))"

definition forget :: "token \<Rightarrow> relay_state \<Rightarrow> relay_state" where
  "forget token s =
     (case map_of (rs_sessions s) token of
        None \<Rightarrow> s
      | Some se \<Rightarrow> s\<lparr> rs_sessions := AList.delete token (rs_sessions s),
                      rs_addr_to_token := unindex (ss_peer_b se) (unindex (ss_peer_a se) (rs_addr_to_token s)) \<rparr>)"

definition duration_since :: "rat \<Rightarrow> rat \<Rightarrow> rat" where
  "duration_since later earlier = max 0 (later - earlier)"

definition stale :: "rat \<Rightarrow> session \<Rightarrow> bool" where
  "stale now s =
     (let half_open = ss_peer_a s = None \<or> ss_peer_b s = None in
      if half_open then duration_since now (ss_created_at s) > SESSION_IDLE_TIMEOUT
      else duration_since now (ss_last_active s) > SESSION_IDLE_TIMEOUT)"

definition evict_idle :: "rat \<Rightarrow> relay_state \<Rightarrow> relay_state" where
  "evict_idle now s =
     fold forget (map fst (filter (\<lambda>(_, se). stale now se) (rs_sessions s))) s"

section \<open>One datagram\<close>

record forward_state =
  fw_relay :: relay_state
  fw_tokens :: rat
  fw_last :: rat

definition forward_init :: "u64 \<Rightarrow> rat \<Rightarrow> forward_state" where
  "forward_init cap now = \<lparr> fw_relay = relay_default, fw_tokens = of_nat (unat cap), fw_last = now \<rparr>"

text \<open>The token bucket: whether the datagram passes.\<close>

definition rate_cap :: "u64 \<Rightarrow> rat \<Rightarrow> nat \<Rightarrow> forward_state \<Rightarrow> bool \<times> forward_state" where
  "rate_cap cap now len f =
     (if cap > 0 then
        let elapsed = duration_since now (fw_last f);
            tokens = min (fw_tokens f + elapsed * of_nat (unat cap)) (of_nat (unat cap) / 2);
            f' = f\<lparr> fw_last := now, fw_tokens := tokens \<rparr>
        in if of_nat len > tokens then (False, f') else (True, f'\<lparr> fw_tokens := tokens - of_nat len \<rparr>)
      else (True, f))"

definition partner :: "socket_addr \<Rightarrow> session \<Rightarrow> socket_addr option" where
  "partner src s =
     (case (ss_peer_a s, ss_peer_b s) of
        (Some a, Some b) \<Rightarrow>
          if src = ps_addr a then Some (ps_addr b)
          else if src = ps_addr b then Some (ps_addr a) else None
      | _ \<Rightarrow> None)"

definition handle_paired ::
  "rat \<Rightarrow> token \<Rightarrow> socket_addr \<Rightarrow> bytes \<Rightarrow> relay_state \<Rightarrow> (socket_addr \<times> bytes) option \<times> relay_state" where
  "handle_paired now token src packet s =
     (case map_of (rs_sessions s) token of
        None \<Rightarrow> (None, s)
      | Some se \<Rightarrow>
          let s' = s\<lparr> rs_sessions := AList.update token (se\<lparr> ss_last_active := now \<rparr>) (rs_sessions s) \<rparr>
          in (case partner src se of
                None \<Rightarrow> (None, s')
              | Some dest \<Rightarrow> (Some (dest, packet),
                  s'\<lparr> rs_bytes_forwarded := rs_bytes_forwarded s' + word_of_nat (length packet) \<rparr>)))"

text \<open>The session after a hello, or nothing when the hello is refused.\<close>

definition join_slot :: "rat \<Rightarrow> socket_addr \<Rightarrow> relay_hello \<Rightarrow> session \<Rightarrow> session option" where
  "join_slot now src h se =
     (let ps = \<lparr> ps_addr = src, ps_fingerprint = rh_fingerprint h \<rparr> in
      if rh_fingerprint h = ss_peer_a_expected_fp se
      then (if ss_peer_a se \<noteq> None then None else Some (se\<lparr> ss_peer_a := Some ps, ss_last_active := now \<rparr>))
      else if rh_fingerprint h = ss_peer_b_expected_fp se
      then (if ss_peer_b se \<noteq> None then None else Some (se\<lparr> ss_peer_b := Some ps, ss_last_active := now \<rparr>))
      else None)"

definition handle_hello :: "rat \<Rightarrow> socket_addr \<Rightarrow> bytes \<Rightarrow> relay_state \<Rightarrow> relay_state" where
  "handle_hello now src packet s =
     (case try_decode packet of
        None \<Rightarrow> s
      | Some h \<Rightarrow>
          (case map_of (rs_sessions s) (rh_token h) of
             None \<Rightarrow> s
           | Some se \<Rightarrow>
               (case join_slot now src h se of
                  None \<Rightarrow> s
                | Some se' \<Rightarrow> s\<lparr> rs_sessions := AList.update (rh_token h) se' (rs_sessions s),
                                rs_addr_to_token := (rs_addr_to_token s)(src \<mapsto> rh_token h) \<rparr>)))"

definition forward ::
  "u64 \<Rightarrow> rat \<Rightarrow> socket_addr \<Rightarrow> bytes \<Rightarrow> forward_state \<Rightarrow> (socket_addr \<times> bytes) option \<times> forward_state" where
  "forward cap now src packet f =
     (case rate_cap cap now (length packet) f of
        (False, f') \<Rightarrow> (None, f')
      | (True, f') \<Rightarrow>
          let s = fw_relay f' in
          (case rs_addr_to_token s src of
             Some token \<Rightarrow>
               (case handle_paired now token src packet s of
                  (out, s') \<Rightarrow> (out, f'\<lparr> fw_relay := s' \<rparr>))
           | None \<Rightarrow> (None, f'\<lparr> fw_relay := handle_hello now src packet s \<rparr>)))"

section \<open>Reachable states\<close>

text \<open>
  The relay serves reservations, datagrams and the idle sweep in any order. A fresh session token
  is one the relay does not hold: the server draws 128 random bits.
\<close>

inductive relay_step :: "u64 \<Rightarrow> forward_state \<Rightarrow> forward_state \<Rightarrow> bool" for cap where
  step_reserve: "map_of (rs_sessions (fw_relay f)) token = None \<Longrightarrow>
     reserve now token fa fb (fw_relay f) = (res, s) \<Longrightarrow> relay_step cap f (f\<lparr> fw_relay := s \<rparr>)"
| step_packet: "forward cap now src packet f = (out, f') \<Longrightarrow> relay_step cap f f'"
| step_sweep: "relay_step cap f (f\<lparr> fw_relay := evict_idle now (fw_relay f) \<rparr>)"

inductive relay_reachable :: "u64 \<Rightarrow> forward_state \<Rightarrow> bool" for cap where
  reach_init: "relay_reachable cap (forward_init cap now)"
| reach_step: "relay_reachable cap f \<Longrightarrow> relay_step cap f f' \<Longrightarrow> relay_reachable cap f'"

text \<open>The addresses in the slots of a session.\<close>

definition slots :: "session \<Rightarrow> socket_addr set" where
  "slots s = ps_addr ` (set_option (ss_peer_a s) \<union> set_option (ss_peer_b s))"

definition session_ok :: "session \<Rightarrow> bool" where
  "session_ok s \<longleftrightarrow>
     ss_peer_a_expected_fp s \<noteq> ss_peer_b_expected_fp s \<and>
     (\<forall>p. ss_peer_a s = Some p \<longrightarrow> ps_fingerprint p = ss_peer_a_expected_fp s) \<and>
     (\<forall>p. ss_peer_b s = Some p \<longrightarrow> ps_fingerprint p = ss_peer_b_expected_fp s) \<and>
     (\<forall>a b. ss_peer_a s = Some a \<longrightarrow> ss_peer_b s = Some b \<longrightarrow> ps_addr a \<noteq> ps_addr b)"

text \<open>The index holds exactly the addresses in slots, each under the token of its one session.\<close>

definition relay_ok :: "relay_state \<Rightarrow> bool" where
  "relay_ok s \<longleftrightarrow> distinct (map fst (rs_sessions s)) \<and>
     (\<forall>t se. map_of (rs_sessions s) t = Some se \<longrightarrow> session_ok se) \<and>
     (\<forall>a t. rs_addr_to_token s a = Some t \<longleftrightarrow>
            (\<exists>se. map_of (rs_sessions s) t = Some se \<and> a \<in> slots se))"

section \<open>The invariant\<close>

lemma map_of_update [simp]: "map_of (AList.update k v al) = (map_of al)(k \<mapsto> v)"
  by (rule ext) (simp add: update_conv')

lemma map_of_delete [simp]: "map_of (AList.delete k al) = (map_of al)(k := None)"
  by (simp add: delete_conv')

declare map_of_eq_Some_iff [simp del]

lemma relay_ok_default: "relay_ok relay_default"
  by (simp add: relay_ok_def relay_default_def)

lemma relay_ok_bytes [simp]: "relay_ok (s\<lparr> rs_bytes_forwarded := n \<rparr>) = relay_ok s"
  by (simp add: relay_ok_def)

lemma relay_ok_touch:
  assumes "relay_ok s" "map_of (rs_sessions s) t = Some se" "slots se' = slots se" "session_ok se'"
  shows "relay_ok (s\<lparr> rs_sessions := AList.update t se' (rs_sessions s) \<rparr>)"
  using assms by (auto simp: relay_ok_def distinct_update)

lemma relay_ok_reserve:
  assumes "relay_ok s" "map_of (rs_sessions s) t = None" "reserve now t fa fb s = (res, s')"
  shows "relay_ok s'"
proof -
  have "slots \<lparr> ss_peer_a = None, ss_peer_b = None, ss_created_at = now, ss_last_active = now,
              ss_peer_a_expected_fp = fa, ss_peer_b_expected_fp = fb \<rparr> = {}"
    by (simp add: slots_def)
  with assms show ?thesis
    by (auto simp: reserve_def relay_ok_def session_ok_def distinct_update split: if_splits)
qed

lemma unindex_slots: "unindex (ss_peer_b se) (unindex (ss_peer_a se) m) a = (if a \<in> slots se then None else m a)"
  by (auto simp: unindex_def slots_def split: option.splits)

lemma relay_ok_forget:
  assumes "relay_ok s"
  shows "relay_ok (forget t s)"
proof (cases "map_of (rs_sessions s) t")
  case None
  with assms show ?thesis by (simp add: forget_def)
next
  case (Some se)
  have idx: "rs_addr_to_token s a = Some u \<longleftrightarrow> (\<exists>se. map_of (rs_sessions s) u = Some se \<and> a \<in> slots se)" for a u
    using assms by (simp add: relay_ok_def)
  have "a \<notin> slots se'" if "map_of (rs_sessions s) u = Some se'" "u \<noteq> t" "a \<in> slots se" for u se' a
    using idx [of a u] idx [of a t] that Some by auto
  moreover have "a \<in> slots se" if "rs_addr_to_token s a = Some t" for a
    using that idx Some by auto
  ultimately show ?thesis
    using assms Some
    by (auto simp: forget_def relay_ok_def distinct_delete unindex_slots)
qed

lemma relay_ok_evict: "relay_ok s \<Longrightarrow> relay_ok (evict_idle now s)"
proof -
  have "relay_ok s \<Longrightarrow> relay_ok (fold forget ts s)" for ts
    by (induction ts arbitrary: s) (auto intro: relay_ok_forget)
  then show "relay_ok s \<Longrightarrow> relay_ok (evict_idle now s)" by (simp add: evict_idle_def)
qed

lemma join_slot_ok:
  assumes "session_ok se" "join_slot now src h se = Some se'" "src \<notin> slots se"
  shows "session_ok se' \<and> slots se' = insert src (slots se)"
  using assms
  by (auto simp: join_slot_def Let_def session_ok_def slots_def split: if_splits)

lemma relay_ok_hello:
  assumes "relay_ok s" "rs_addr_to_token s src = None"
  shows "relay_ok (handle_hello now src packet s)"
proof -
  have idx: "rs_addr_to_token s a = Some u \<longleftrightarrow> (\<exists>se. map_of (rs_sessions s) u = Some se \<and> a \<in> slots se)" for a u
    using assms by (simp add: relay_ok_def)
  have "relay_ok (s\<lparr> rs_sessions := AList.update (rh_token h) se' (rs_sessions s),
                     rs_addr_to_token := (rs_addr_to_token s)(src \<mapsto> rh_token h) \<rparr>)"
    if h: "map_of (rs_sessions s) (rh_token h) = Some se" "join_slot now src h se = Some se'" for h se se'
  proof -
    have out: "src \<notin> slots v" if "map_of (rs_sessions s) u = Some v" for u v
      using idx [of src u] assms(2) that by auto
    have "session_ok se" using assms(1) h(1) by (simp add: relay_ok_def)
    note j = join_slot_ok [OF this h(2) out [OF h(1)]]
    show ?thesis
      using assms(1) h j out idx by (auto simp: relay_ok_def distinct_update)
  qed
  then show ?thesis
    using assms(1) by (auto simp: handle_hello_def split: option.splits)
qed

lemma relay_ok_paired:
  assumes "relay_ok s" "handle_paired now t src packet s = (out, s')"
  shows "relay_ok s'"
proof (cases "map_of (rs_sessions s) t")
  case None
  with assms show ?thesis by (simp add: handle_paired_def)
next
  case (Some se)
  have "slots (se\<lparr> ss_last_active := now \<rparr>) = slots se" "session_ok (se\<lparr> ss_last_active := now \<rparr>)"
    using assms(1) Some by (auto simp: slots_def session_ok_def relay_ok_def)
  from relay_ok_touch [OF assms(1) Some this] Some assms(2) show ?thesis
    by (auto simp: handle_paired_def Let_def split: option.splits)
qed

lemma rate_cap_relay: "rate_cap cap now len f = (ok, f') \<Longrightarrow> fw_relay f' = fw_relay f"
  by (auto simp: rate_cap_def Let_def split: if_splits)

lemma relay_ok_forward:
  assumes "relay_ok (fw_relay f)" "forward cap now src packet f = (out, f')"
  shows "relay_ok (fw_relay f')"
proof -
  obtain pass f1 where rate: "rate_cap cap now (length packet) f = (pass, f1)" by fastforce
  have "relay_ok (fw_relay f1)" using assms(1) rate_cap_relay [OF rate] by simp
  then show ?thesis
    using assms(2) rate
    by (auto simp: forward_def Let_def intro: relay_ok_hello relay_ok_paired
        split: bool.splits option.splits prod.splits)
qed

lemma reachable_ok: "relay_reachable cap f \<Longrightarrow> relay_ok (fw_relay f)"
proof (induction rule: relay_reachable.induct)
  case (reach_init now)
  then show ?case by (simp add: forward_init_def relay_ok_default)
next
  case (reach_step f f')
  from reach_step.hyps(2) reach_step.IH show ?case
    by (induction rule: relay_step.induct)
       (auto intro: relay_ok_reserve relay_ok_forward relay_ok_evict)
qed

section \<open>The codec of the hello\<close>

lemma length_magic [simp]: "length RELAY_HELLO_MAGIC = 4"
  by (simp add: RELAY_HELLO_MAGIC_def)

lemma length_encode_hello [simp]: "length (encode_hello h) = 56"
  by (simp add: encode_hello_def SESSION_TOKEN_LEN_def FINGERPRINT_LEN_def)

lemma word_be_be_16: "length bs = 16 \<Longrightarrow> word_be 16 (be_word bs :: 128 word) = bs"
  by (rule word_be_be_word) simp_all

lemma word_be_be_32: "length bs = 32 \<Longrightarrow> word_be 32 (be_word bs :: 256 word) = bs"
  by (rule word_be_be_word) simp_all

lemma try_decode_layout:
  "try_decode (RELAY_HELLO_MAGIC @ [1, r, 16, 32] @ word_be 16 (t :: 128 word) @ word_be 32 (fp :: 256 word) @ junk) =
     Some \<lparr> rh_token = t, rh_fingerprint = fp \<rparr>"
  by (simp add: try_decode_def Let_def nth_append SESSION_TOKEN_LEN_def FINGERPRINT_LEN_def)

lemma layout_of_bytes:
  assumes "56 \<le> length data" "take 4 data = RELAY_HELLO_MAGIC" "data ! 4 = 1" "data ! 6 = 16" "data ! 7 = 32"
  shows "data = RELAY_HELLO_MAGIC @ [1, data ! 5, 16, 32] @ take 16 (drop 8 data) @ take 32 (drop 24 data) @ drop 56 data"
proof -
  have "data = take 4 data @ take 4 (drop 4 data) @ take 16 (drop 8 data) @ take 32 (drop 24 data) @ drop 56 data"
  proof -
    have "take 4 data @ drop 4 data = data" by (rule append_take_drop_id)
    moreover have "take 4 (drop 4 data) @ drop 8 data = drop 4 data"
      using append_take_drop_id [of 4 "drop 4 data"] unfolding drop_drop by simp
    moreover have "take 16 (drop 8 data) @ drop 24 data = drop 8 data"
      using append_take_drop_id [of 16 "drop 8 data"] unfolding drop_drop by simp
    moreover have "take 32 (drop 24 data) @ drop 56 data = drop 24 data"
      using append_take_drop_id [of 32 "drop 24 data"] unfolding drop_drop by simp
    ultimately show ?thesis by metis
  qed
  moreover have "take 4 (drop 4 data) = [data ! 4, data ! 5, data ! 6, data ! 7]"
    using assms(1) by (intro nth_equalityI) (auto simp: less_Suc_eq numeral_eq_Suc)
  ultimately show ?thesis using assms by metis
qed

text \<open>
  The decoder accepts exactly the encodings, with any value in the reserved
  byte and any bytes after the hello, and returns the token and fingerprint that were encoded.
\<close>

lemma relay_hello_exact:
  "(try_decode data = Some h) =
     (\<exists>r junk. data = take 5 (encode_hello h) @ [r] @ drop 6 (encode_hello h) @ junk)"
proof -
  have enc: "take 5 (encode_hello h) @ [r] @ drop 6 (encode_hello h) @ junk =
      RELAY_HELLO_MAGIC @ [1, r, 16, 32] @ word_be 16 (rh_token h) @ word_be 32 (rh_fingerprint h) @ junk" for r junk
    by (simp add: encode_hello_def SESSION_TOKEN_LEN_def FINGERPRINT_LEN_def)
  show ?thesis
  proof
    assume d: "try_decode data = Some h"
    then have c: "56 \<le> length data" "take 4 data = RELAY_HELLO_MAGIC" "data ! 4 = 1"
        "unat (data ! 6) = 16" "unat (data ! 7) = 32"
        "h = \<lparr> rh_token = be_word (take 16 (drop 8 data)), rh_fingerprint = be_word (take 32 (drop 24 data)) \<rparr>"
      by (auto simp: try_decode_def Let_def SESSION_TOKEN_LEN_def FINGERPRINT_LEN_def split: if_splits)
    then have "data ! 6 = 16" "data ! 7 = 32"
      by (simp_all add: word_unat_eq_iff)
    from layout_of_bytes [OF c(1-3) this] c(1,6)
    show "\<exists>r junk. data = take 5 (encode_hello h) @ [r] @ drop 6 (encode_hello h) @ junk"
      unfolding enc by (intro exI [of _ "data ! 5"] exI [of _ "drop 56 data"]) (simp add: word_be_be_16 word_be_be_32)
  next
    assume "\<exists>r junk. data = take 5 (encode_hello h) @ [r] @ drop 6 (encode_hello h) @ junk"
    then show "try_decode data = Some h"
      unfolding enc by (elim exE) (simp only: try_decode_layout, simp)
  qed
qed

interpretation hello: partial_codec encode_hello try_decode
proof
  fix h
  have "try_decode (RELAY_HELLO_MAGIC @ [1, 0, 16, 32] @ word_be 16 (rh_token h) @ word_be 32 (rh_fingerprint h) @ []) = Some h"
    by (subst try_decode_layout) simp
  then show "try_decode (encode_hello h) = Some h"
    by (simp add: encode_hello_def SESSION_TOKEN_LEN_def FINGERPRINT_LEN_def)
qed

section \<open>Who can reach whom\<close>

text \<open>
  C25: in every state the relay can reach, a datagram is forwarded verbatim and
  only from one address of a session to the other address of the same session, where each of the
  two has presented one of the two distinct fingerprints the rendezvous reserved; and then the
  other side is served back to the first.
\<close>

theorem relay_confinement:
  assumes "relay_reachable cap f" "forward cap now src packet f = (Some (dest, payload), f')"
  shows "payload = packet \<and>
    (\<exists>t se a b. map_of (rs_sessions (fw_relay f)) t = Some se \<and> ss_peer_a se = Some a \<and> ss_peer_b se = Some b \<and>
       (src, dest) \<in> {(ps_addr a, ps_addr b), (ps_addr b, ps_addr a)} \<and> src \<noteq> dest \<and>
       ps_fingerprint a = ss_peer_a_expected_fp se \<and> ps_fingerprint b = ss_peer_b_expected_fp se \<and>
       ss_peer_a_expected_fp se \<noteq> ss_peer_b_expected_fp se \<and>
       rs_addr_to_token (fw_relay f) dest = Some t \<and> partner dest se = Some src)"
proof -
  obtain pass f1 where rate: "rate_cap cap now (length packet) f = (pass, f1)" by fastforce
  have same: "fw_relay f1 = fw_relay f" using rate_cap_relay [OF rate] .
  obtain t se where se: "map_of (rs_sessions (fw_relay f)) t = Some se" "partner src se = Some dest" "payload = packet"
    using assms(2) rate same
    by (auto simp: forward_def Let_def handle_paired_def split: bool.splits option.splits prod.splits)
  obtain a b where ab: "ss_peer_a se = Some a" "ss_peer_b se = Some b"
      "(src, dest) \<in> {(ps_addr a, ps_addr b), (ps_addr b, ps_addr a)}"
    using se(2) by (auto simp: partner_def split: option.splits if_splits)
  have ok: "relay_ok (fw_relay f)" using assms(1) by (rule reachable_ok)
  then have s: "session_ok se" using se(1) by (auto simp: relay_ok_def)
  have "dest \<in> slots se" using ab by (auto simp: slots_def)
  then have "rs_addr_to_token (fw_relay f) dest = Some t" using ok se(1) by (auto simp: relay_ok_def)
  moreover have "partner dest se = Some src"
    using ab s by (auto simp: partner_def session_ok_def)
  moreover have "ps_fingerprint a = ss_peer_a_expected_fp se" "ps_fingerprint b = ss_peer_b_expected_fp se"
      "ss_peer_a_expected_fp se \<noteq> ss_peer_b_expected_fp se" "src \<noteq> dest"
    using ab s by (auto simp: session_ok_def)
  ultimately show ?thesis using se ab by blast
qed

lemma reach_packet: "relay_reachable cap f \<Longrightarrow> relay_reachable cap (snd (forward cap now src packet f))"
  by (rule reach_step) (auto intro: step_packet [of _ _ _ _ _ "fst (forward cap now src packet f)"])

theorem relay_confinement_witness:
  "\<exists>f f' t. relay_reachable 0 f \<and>
     forward 0 0 (SocketAddr (V4 1) 1) [9] f = (Some (SocketAddr (V4 2) 2, [9]), f') \<and>
     rs_addr_to_token (fw_relay f) (SocketAddr (V4 2) 2) = Some t"
proof -
  let ?A = "SocketAddr (V4 1) 1" and ?B = "SocketAddr (V4 2) 2"
  let ?init = "forward_init 0 0"
  let ?one = "?init\<lparr> fw_relay := snd (reserve 0 5 1 2 (fw_relay ?init)) \<rparr>"
  let ?two = "snd (forward 0 0 ?A (encode_hello \<lparr> rh_token = 5, rh_fingerprint = 1 \<rparr>) ?one)"
  let ?three = "snd (forward 0 0 ?B (encode_hello \<lparr> rh_token = 5, rh_fingerprint = 2 \<rparr>) ?two)"
  have "relay_step 0 ?init ?one"
    by (rule step_reserve [of ?init 5 0 1 2 "fst (reserve 0 5 1 2 (fw_relay ?init))"])
       (simp_all add: forward_init_def relay_default_def)
  then have r: "relay_reachable 0 ?three"
    by (intro reach_packet) (rule reach_step [OF reach_init])
  have "fst (forward 0 0 ?A [9] ?three) = Some (?B, [9])"
    by (simp add: forward_def rate_cap_def handle_paired_def handle_hello_def join_slot_def partner_def
        reserve_def forward_init_def relay_default_def Let_def hello.dec_enc)
  then have fw: "forward 0 0 ?A [9] ?three = (Some (?B, [9]), snd (forward 0 0 ?A [9] ?three))"
    by (metis prod.collapse)
  from relay_confinement [OF r fw] r fw show ?thesis by blast
qed

text \<open>
  C30: in every reachable state the reverse index and the session table
  agree: an address is indexed exactly when it sits in a slot of the one session it is indexed
  under, both slots of a session hold different addresses, and every occupied slot holds a peer
  that presented that slot's fingerprint.
\<close>

theorem relay_index_consistent:
  assumes "relay_reachable cap f"
  shows "relay_ok (fw_relay f)"
  using assms by (rule reachable_ok)

theorem relay_index_consistent_witness:
  "relay_ok (fw_relay (snd (forward 8 1 (SocketAddr (V4 1) 1) [9] (forward_init 8 0))))"
  by (rule relay_index_consistent [of 8]) (intro reach_packet reach_init)

lemma forget_sessions: "map_of (rs_sessions (forget t s)) = (map_of (rs_sessions s))(t := None)"
  by (auto simp: forget_def fun_eq_iff split: option.splits)

lemma fold_forget_sessions:
  "map_of (rs_sessions (fold forget ts s)) u = (if u \<in> set ts then None else map_of (rs_sessions s) u)"
  by (induction ts arbitrary: s) (auto simp: forget_sessions)

text \<open>
  The idle sweep removes exactly the stale sessions (half-open and older than
  the timeout, or complete and silent for longer than it), leaves the others untouched, and frees
  the addresses of the removed ones, which can then join again.
\<close>

lemma relay_eviction:
  assumes "relay_ok s"
  shows "map_of (rs_sessions (evict_idle now s)) t =
      (case map_of (rs_sessions s) t of
         Some se \<Rightarrow> if stale now se then None else Some se | None \<Rightarrow> None) \<and>
    (rs_addr_to_token (evict_idle now s) a \<noteq> None \<longleftrightarrow>
      (\<exists>u se. map_of (rs_sessions s) u = Some se \<and> \<not> stale now se \<and> a \<in> slots se))"
proof -
  have d: "distinct (map fst (rs_sessions s))" using assms by (simp add: relay_ok_def)
  have mem: "u \<in> set (map fst (filter (\<lambda>(_, se). stale now se) (rs_sessions s))) \<longleftrightarrow>
      (\<exists>se. map_of (rs_sessions s) u = Some se \<and> stale now se)" for u
    using d by (force simp: map_of_eq_Some_iff)
  have ses: "map_of (rs_sessions (evict_idle now s)) u =
      (case map_of (rs_sessions s) u of Some se \<Rightarrow> if stale now se then None else Some se | None \<Rightarrow> None)" for u
    unfolding evict_idle_def fold_forget_sessions mem by (auto split: option.splits)
  have "relay_ok (evict_idle now s)" using assms by (rule relay_ok_evict)
  then have "rs_addr_to_token (evict_idle now s) a = Some u \<longleftrightarrow>
      (\<exists>se. map_of (rs_sessions (evict_idle now s)) u = Some se \<and> a \<in> slots se)" for u
    by (simp add: relay_ok_def)
  then have "rs_addr_to_token (evict_idle now s) a = Some u \<longleftrightarrow>
      (\<exists>se. map_of (rs_sessions s) u = Some se \<and> \<not> stale now se \<and> a \<in> slots se)" for u
    by (auto simp: ses split: option.splits if_splits)
  then show ?thesis using ses by auto
qed

lemma relay_eviction_witness:
  "map_of (rs_sessions (evict_idle 200 (snd (reserve 0 5 1 2 relay_default)))) 5 = None"
proof -
  have "relay_ok (snd (reserve 0 5 1 2 relay_default))"
    by (rule relay_ok_reserve [OF relay_ok_default, of 5 0 1 2 "fst (reserve 0 5 1 2 relay_default)"])
       (simp_all add: relay_default_def)
  from relay_eviction [OF this, of 200 5] show ?thesis
    by (simp add: reserve_def relay_default_def stale_def duration_since_def SESSION_IDLE_TIMEOUT_def)
qed

end
