(* ===== verification/Rendezvous_Server.thy ===== *)
theory Rendezvous_Server
  imports Relay
begin

text \<open>
  \<open>p2p-rendezvous/src/protocol.rs\<close> and \<open>server.rs\<close>: two peers that know the same code are paired.
  Every connection is a task; the model cuts \<open>handle_connection\<close> at its await points, so that the
  steps of different connections interleave as the two lock scopes of the code let them. The
  waiting map is an association list; a waiter holds the sending end of the oneshot channel of the
  connection that waits, named by the connection's number. The listener and the semaphore that
  bounds the number of tasks are not modelled; frames are taken as already decoded (see Framing).
\<close>

section \<open>Protocol\<close>

record register_request =
  rq_protocol_version :: u8
  rq_code :: string
  rq_public_endpoint :: socket_addr
  rq_cert_fingerprint :: fingerprint
  rq_device_id :: "128 word"
  rq_want_relay :: bool

datatype rz_message =
    Register register_request
  | Match socket_addr fingerprint "128 word"
  | RelayMatch socket_addr token fingerprint "128 word"
  | Expired
  | Rejected string

definition RZ_PROTOCOL_VERSION :: u8 where "RZ_PROTOCOL_VERSION = 1"

section \<open>Server state\<close>

record waiter =
  wt_first :: register_request
  wt_conn :: nat
  wt_expires_at :: rat

record peer_summary =
  pm_fingerprint :: fingerprint
  pm_device_id :: "128 word"

datatype notify_payload =
    DirectPeer register_request
  | RelayedPeer token socket_addr peer_summary

datatype oneshot = Empty | Delivered notify_payload | Dropped

text \<open>The first frame of a connection: a message, a decoding failure or a timeout.\<close>

datatype first_frame = Frame rz_message | DecodeFailure | FrameTimeout

text \<open>
  Where a connection's task is. \<open>Closed\<close> keeps its request, the last message the server tried to
  send and, for the second peer of a pair, the connection it took from the waiting map.
\<close>

datatype phase =
    Idle
  | Accepted
  | Registering register_request
  | Pairing register_request waiter
  | Waiting register_request rat
  | Waking register_request "notify_payload option"
  | Closed "register_request option" "rz_message option" "nat option"

record server_state =
  sv_waiting :: "(string \<times> waiter) list"
  sv_ttl :: rat
  sv_relay :: "(relay_state \<times> socket_addr) option"
  sv_peer :: "nat \<Rightarrow> socket_addr"
  sv_conn :: "nat \<Rightarrow> phase"
  sv_mail :: "nat \<Rightarrow> oneshot"

section \<open>Operations\<close>

definition ascii_alphanumeric :: "char \<Rightarrow> bool" where
  "ascii_alphanumeric c \<longleftrightarrow>
     (let n = of_char c :: nat in (48 \<le> n \<and> n \<le> 57) \<or> (65 \<le> n \<and> n \<le> 90) \<or> (97 \<le> n \<and> n \<le> 122))"

definition is_valid_code :: "string \<Rightarrow> bool" where
  "is_valid_code code \<longleftrightarrow> 4 \<le> length code \<and> length code \<le> 32 \<and> list_all ascii_alphanumeric code"

text \<open>The checks before the first lock: a reply to send (or none) and close, or the request.\<close>

definition admit :: "first_frame \<Rightarrow> rz_message option + register_request" where
  "admit f =
     (case f of
        Frame (Register r) \<Rightarrow>
          if rq_protocol_version r \<noteq> RZ_PROTOCOL_VERSION
          then Inl (Some (Rejected (''unsupported rendezvous protocol version '' @
                 show_nat (unat (rq_protocol_version r)) @ '' (server speaks '' @
                 show_nat (unat RZ_PROTOCOL_VERSION) @ '')'')))
          else if \<not> is_valid_code (rq_code r)
          then Inl (Some (Rejected ''code must be 4..32 ascii-alphanumeric chars''))
          else Inr r
      | Frame _ \<Rightarrow> Inl (Some (Rejected ''first frame must be Register''))
      | DecodeFailure \<Rightarrow> Inl None
      | FrameTimeout \<Rightarrow> Inl None)"

text \<open>First lock scope: drop expired waiters, then take the one under the code.\<close>

definition live :: "rat \<Rightarrow> (string \<times> waiter) list \<Rightarrow> (string \<times> waiter) list" where
  "live now ws = filter (\<lambda>(_, w). wt_expires_at w > now) ws"

definition take_waiter :: "rat \<Rightarrow> string \<Rightarrow> (string \<times> waiter) list \<Rightarrow> waiter option \<times> (string \<times> waiter) list" where
  "take_waiter now code ws = (map_of (live now ws) code, AList.delete code (live now ws))"

definition stamp :: "socket_addr \<Rightarrow> register_request \<Rightarrow> register_request" where
  "stamp peer r = r\<lparr> rq_public_endpoint := SocketAddr (sa_ip peer) (sa_port (rq_public_endpoint r)) \<rparr>"

text \<open>A waiter that is removed without being notified drops its sender.\<close>

definition drop_senders :: "(string \<times> waiter) list \<Rightarrow> (nat \<Rightarrow> oneshot) \<Rightarrow> nat \<Rightarrow> oneshot" where
  "drop_senders ws mail c =
     (if mail c = Empty \<and> c \<in> set (map (wt_conn \<circ> snd) ws) then Dropped else mail c)"

text \<open>The second peer: its own reply and what to tell the first peer.\<close>

definition pair_up ::
  "rat \<Rightarrow> token \<Rightarrow> register_request \<Rightarrow> waiter \<Rightarrow> (relay_state \<times> socket_addr) option \<Rightarrow>
     rz_message \<times> notify_payload option \<times> (relay_state \<times> socket_addr) option" where
  "pair_up now token req w relay =
     (let first = wt_first w;
          direct = (Match (rq_public_endpoint first) (rq_cert_fingerprint first) (rq_device_id first),
                    Some (DirectPeer req), relay)
      in if rq_want_relay req \<or> rq_want_relay first
         then (case relay of
                 Some (st, addr) \<Rightarrow>
                   (case reserve now token (rq_cert_fingerprint first) (rq_cert_fingerprint req) st of
                      (Inl e, st') \<Rightarrow> (Rejected ''relay refused session'', None, Some (st', addr))
                    | (Inr _, st') \<Rightarrow>
                        (RelayMatch addr token (rq_cert_fingerprint first) (rq_device_id first),
                         Some (RelayedPeer token addr \<lparr> pm_fingerprint = rq_cert_fingerprint req,
                                                        pm_device_id = rq_device_id req \<rparr>),
                         Some (st', addr)))
               | None \<Rightarrow> direct)
         else direct)"

text \<open>
  Cleanup after the wait: the slot is removed if it holds a registration of the same device; the
  waiter found there need not be this connection's own.
\<close>

definition cleanup :: "register_request \<Rightarrow> (string \<times> waiter) list \<Rightarrow> (string \<times> waiter) list \<times> (string \<times> waiter) list" where
  "cleanup req ws =
     (case map_of ws (rq_code req) of
        Some w \<Rightarrow> if rq_device_id (wt_first w) = rq_device_id req
                  then (AList.delete (rq_code req) ws, [(rq_code req, w)]) else (ws, [])
      | None \<Rightarrow> (ws, []))"

definition final_reply :: "notify_payload option \<Rightarrow> rz_message" where
  "final_reply outcome =
     (case outcome of
        Some (DirectPeer second) \<Rightarrow>
          Match (rq_public_endpoint second) (rq_cert_fingerprint second) (rq_device_id second)
      | Some (RelayedPeer token addr peer) \<Rightarrow>
          RelayMatch addr token (pm_fingerprint peer) (pm_device_id peer)
      | None \<Rightarrow> Expired)"

section \<open>Steps of a connection\<close>

definition accept_conn :: "nat \<Rightarrow> socket_addr \<Rightarrow> server_state \<Rightarrow> server_state" where
  "accept_conn c peer s = s\<lparr> sv_conn := (sv_conn s)(c := Accepted), sv_peer := (sv_peer s)(c := peer),
     sv_mail := (sv_mail s)(c := Empty) \<rparr>"

definition first_frame_step :: "nat \<Rightarrow> rat \<Rightarrow> first_frame \<Rightarrow> server_state \<Rightarrow> server_state" where
  "first_frame_step c now f s =
     (case admit f of
        Inl reply \<Rightarrow> s\<lparr> sv_conn := (sv_conn s)(c := Closed None reply None) \<rparr>
      | Inr r \<Rightarrow>
          let (w, ws) = take_waiter now (rq_code r) (sv_waiting s);
              req = stamp (sv_peer s c) r;
              gone = filter (\<lambda>(_, w). \<not> wt_expires_at w > now) (sv_waiting s)
          in s\<lparr> sv_waiting := ws, sv_mail := drop_senders gone (sv_mail s),
                sv_conn := (sv_conn s)(c := (case w of Some w \<Rightarrow> Pairing req w | None \<Rightarrow> Registering req)) \<rparr>)"

text \<open>If the reply cannot be written the task ends and the first peer's sender is dropped.\<close>

definition pairing_step :: "nat \<Rightarrow> rat \<Rightarrow> token \<Rightarrow> bool \<Rightarrow> register_request \<Rightarrow> waiter \<Rightarrow> server_state \<Rightarrow> server_state" where
  "pairing_step c now token wrote req w s =
     (case pair_up now token req w (sv_relay s) of
        (reply, payload, relay) \<Rightarrow>
          s\<lparr> sv_relay := relay,
             sv_mail := (sv_mail s)(wt_conn w :=
               (case payload of
                  Some p \<Rightarrow> if wrote then Delivered p else Dropped
                | None \<Rightarrow> Dropped)),
             sv_conn := (sv_conn s)(c := Closed (Some req) (Some reply) (Some (wt_conn w))) \<rparr>)"

definition registering_step :: "nat \<Rightarrow> rat \<Rightarrow> register_request \<Rightarrow> server_state \<Rightarrow> server_state" where
  "registering_step c now req s =
     (if map_of (sv_waiting s) (rq_code req) \<noteq> None
      then s\<lparr> sv_conn := (sv_conn s)(c := Closed (Some req)
                (Some (Rejected ''code already in use, ask for a fresh one'')) None) \<rparr>
      else s\<lparr> sv_waiting := AList.update (rq_code req)
                \<lparr> wt_first = req, wt_conn = c, wt_expires_at = now + sv_ttl s \<rparr> (sv_waiting s),
              sv_conn := (sv_conn s)(c := Waiting req (now + sv_ttl s)) \<rparr>)"

definition wake_step :: "nat \<Rightarrow> register_request \<Rightarrow> notify_payload option \<Rightarrow> server_state \<Rightarrow> server_state" where
  "wake_step c req outcome s = s\<lparr> sv_conn := (sv_conn s)(c := Waking req outcome) \<rparr>"

definition finish_step :: "nat \<Rightarrow> register_request \<Rightarrow> notify_payload option \<Rightarrow> server_state \<Rightarrow> server_state" where
  "finish_step c req outcome s =
     (case cleanup req (sv_waiting s) of
        (ws, gone) \<Rightarrow>
          s\<lparr> sv_waiting := ws, sv_mail := drop_senders gone (sv_mail s),
             sv_conn := (sv_conn s)(c := Closed (Some req) (Some (final_reply outcome)) None) \<rparr>)"

inductive server_step :: "server_state \<Rightarrow> server_state \<Rightarrow> bool" where
  sv_accept: "sv_conn s c = Idle \<Longrightarrow> server_step s (accept_conn c peer s)"
| sv_frame: "sv_conn s c = Accepted \<Longrightarrow> server_step s (first_frame_step c now f s)"
| sv_pair: "sv_conn s c = Pairing req w \<Longrightarrow> server_step s (pairing_step c now token wrote req w s)"
| sv_register: "sv_conn s c = Registering req \<Longrightarrow> server_step s (registering_step c now req s)"
| sv_notified: "sv_conn s c = Waiting req deadline \<Longrightarrow> sv_mail s c = Delivered p \<Longrightarrow>
    server_step s (wake_step c req (Some p) s)"
| sv_dropped: "sv_conn s c = Waiting req deadline \<Longrightarrow> sv_mail s c = Dropped \<Longrightarrow>
    server_step s (wake_step c req None s)"
| sv_timeout: "sv_conn s c = Waiting req deadline \<Longrightarrow> deadline \<le> now \<Longrightarrow> sv_mail s c = Empty \<Longrightarrow>
    server_step s (wake_step c req None s)"
| sv_finish: "sv_conn s c = Waking req outcome \<Longrightarrow> server_step s (finish_step c req outcome s)"
| sv_relay_runs: "server_step s (s\<lparr> sv_relay := map_option (\<lambda>(_, addr). (st, addr)) (sv_relay s) \<rparr>)"

definition server_init :: "rat \<Rightarrow> (relay_state \<times> socket_addr) option \<Rightarrow> server_state" where
  "server_init ttl relay = \<lparr> sv_waiting = [], sv_ttl = ttl, sv_relay = relay,
     sv_peer = (\<lambda>_. SocketAddr (V4 0) 0), sv_conn = (\<lambda>_. Idle), sv_mail = (\<lambda>_. Empty) \<rparr>"

inductive server_reachable :: "server_state \<Rightarrow> bool" where
  sv_start: "server_reachable (server_init ttl relay)"
| sv_next: "server_reachable s \<Longrightarrow> server_step s s' \<Longrightarrow> server_reachable s'"

end
