(* ===== verification/Rendezvous_Pairing.thy ===== *)
theory Rendezvous_Pairing
  imports Rendezvous_Server
begin

text \<open>
  The invariant of the rendezvous server over all interleavings: a code in the waiting map belongs
  to one connection that waits, a waiter is taken by one second peer only, and what a client is
  told about its peer is what another connection registered under the same code.
\<close>

section \<open>The invariant\<close>

fun request_of :: "phase \<Rightarrow> register_request option" where
  "request_of Idle = None"
| "request_of Accepted = None"
| "request_of (Registering r) = Some r"
| "request_of (Pairing r w) = Some r"
| "request_of (Waiting r d) = Some r"
| "request_of (Waking r p) = Some r"
| "request_of (Closed r m q) = r"

fun claim :: "phase \<Rightarrow> nat option" where
  "claim (Pairing r w) = Some (wt_conn w)"
| "claim (Closed r m q) = q"
| "claim _ = None"

fun has_waited :: "phase \<Rightarrow> bool" where
  "has_waited (Waiting r d) = True"
| "has_waited (Waking r p) = True"
| "has_waited (Closed r m q) = True"
| "has_waited _ = False"

fun waits_with :: "register_request \<Rightarrow> phase \<Rightarrow> bool" where
  "waits_with r (Waiting q d) = (q = r)"
| "waits_with r (Waking q p) = (q = r)"
| "waits_with r _ = False"

definition waiters_ok :: "server_state \<Rightarrow> bool" where
  "waiters_ok s \<longleftrightarrow> distinct (map fst (sv_waiting s)) \<and>
     (\<forall>(code, w) \<in> set (sv_waiting s). rq_code (wt_first w) = code \<and>
        waits_with (wt_first w) (sv_conn s (wt_conn w)) \<and>
        (\<forall>c. claim (sv_conn s c) \<noteq> Some (wt_conn w)))"

definition claims_ok :: "server_state \<Rightarrow> bool" where
  "claims_ok s \<longleftrightarrow>
     (\<forall>c f. claim (sv_conn s c) = Some f \<longrightarrow> f \<noteq> c \<and> has_waited (sv_conn s f)) \<and>
     (\<forall>c c' f. claim (sv_conn s c) = Some f \<longrightarrow> claim (sv_conn s c') = Some f \<longrightarrow> c = c') \<and>
     (\<forall>c req w. sv_conn s c = Pairing req w \<longrightarrow>
        request_of (sv_conn s (wt_conn w)) = Some (wt_first w) \<and> rq_code (wt_first w) = rq_code req)"

definition stamped :: "server_state \<Rightarrow> bool" where
  "stamped s \<longleftrightarrow> (\<forall>c r. request_of (sv_conn s c) = Some r \<longrightarrow>
     sa_ip (rq_public_endpoint r) = sa_ip (sv_peer s c))"

definition from_peer :: "server_state \<Rightarrow> nat \<Rightarrow> register_request \<Rightarrow> notify_payload \<Rightarrow> bool" where
  "from_peer s c r p \<longleftrightarrow> (\<exists>c' r'. c' \<noteq> c \<and> request_of (sv_conn s c') = Some r' \<and> rq_code r' = rq_code r \<and>
     (case p of
        DirectPeer x \<Rightarrow> x = r'
      | RelayedPeer t a pm \<Rightarrow> pm_fingerprint pm = rq_cert_fingerprint r' \<and> pm_device_id pm = rq_device_id r'))"

text \<open>What a reply tells about a peer is another connection's registration under the same code.\<close>

definition genuine :: "server_state \<Rightarrow> nat \<Rightarrow> register_request \<Rightarrow> rz_message \<Rightarrow> bool" where
  "genuine s c r m \<longleftrightarrow>
     (case m of
        Match e f d \<Rightarrow> \<exists>c' r'. c' \<noteq> c \<and> request_of (sv_conn s c') = Some r' \<and> rq_code r' = rq_code r \<and>
          e = rq_public_endpoint r' \<and> f = rq_cert_fingerprint r' \<and> d = rq_device_id r'
      | RelayMatch e t f d \<Rightarrow> \<exists>c' r'. c' \<noteq> c \<and> request_of (sv_conn s c') = Some r' \<and> rq_code r' = rq_code r \<and>
          f = rq_cert_fingerprint r' \<and> d = rq_device_id r'
      | _ \<Rightarrow> True)"

definition told_ok :: "server_state \<Rightarrow> bool" where
  "told_ok s \<longleftrightarrow>
     (\<forall>c p. sv_mail s c = Delivered p \<longrightarrow> (\<exists>r. request_of (sv_conn s c) = Some r \<and> from_peer s c r p)) \<and>
     (\<forall>c r p. sv_conn s c = Waking r (Some p) \<longrightarrow> from_peer s c r p) \<and>
     (\<forall>c r m q. sv_conn s c = Closed (Some r) (Some m) q \<longrightarrow> genuine s c r m)"

lemma waits_with_request: "waits_with r p \<Longrightarrow> request_of p = Some r \<and> has_waited p \<and> claim p = None"
  by (cases p) auto

section \<open>Requests are never forgotten\<close>

definition extends :: "server_state \<Rightarrow> server_state \<Rightarrow> bool" where
  "extends s s' \<longleftrightarrow> (\<forall>c r. request_of (sv_conn s c) = Some r \<longrightarrow> request_of (sv_conn s' c) = Some r)"

lemma from_peer_extends: "from_peer s c r p \<Longrightarrow> extends s s' \<Longrightarrow> from_peer s' c r p"
  unfolding from_peer_def extends_def by blast

lemma genuine_extends: "genuine s c r m \<Longrightarrow> extends s s' \<Longrightarrow> genuine s' c r m"
  unfolding genuine_def extends_def by (cases m) (simp_all, blast+)

text \<open>
  A step that changes only the phase of \<open>c\<close>, keeping its request if it has one, and changes the
  mail only to drop senders or as stated: what was told before stays true.
\<close>

lemma told_ok_step:
  assumes "told_ok s" "extends s s'"
    and "\<And>x. x \<noteq> c \<Longrightarrow> sv_conn s' x = sv_conn s x"
    and "\<And>x p. sv_mail s' x = Delivered p \<Longrightarrow> sv_mail s x = Delivered p \<or>
           (\<exists>r. request_of (sv_conn s' x) = Some r \<and> from_peer s' x r p)"
    and "\<And>r p. sv_conn s' c = Waking r (Some p) \<Longrightarrow> from_peer s' c r p"
    and "\<And>r m q. sv_conn s' c = Closed (Some r) (Some m) q \<Longrightarrow> genuine s' c r m"
  shows "told_ok s'"
proof -
  have "\<exists>r. request_of (sv_conn s' x) = Some r \<and> from_peer s' x r p" if "sv_mail s' x = Delivered p" for x p
    using assms(4) [OF that]
  proof
    assume "sv_mail s x = Delivered p"
    then obtain r where "request_of (sv_conn s x) = Some r" "from_peer s x r p"
      using assms(1) unfolding told_ok_def by blast
    with assms(2) from_peer_extends show ?thesis unfolding extends_def by blast
  qed
  moreover have "from_peer s' x r p" if "sv_conn s' x = Waking r (Some p)" for x r p
    using assms(1,3,5) that from_peer_extends [OF _ assms(2)]
    by (cases "x = c") (auto simp: told_ok_def)
  moreover have "genuine s' x r m" if "sv_conn s' x = Closed (Some r) (Some m) q" for x r m q
    using assms(1,3,6) that genuine_extends [OF _ assms(2)]
    by (cases "x = c") (auto simp: told_ok_def)
  ultimately show ?thesis by (simp add: told_ok_def)
qed

section \<open>Every step keeps the invariant\<close>

definition server_ok :: "server_state \<Rightarrow> bool" where
  "server_ok s \<longleftrightarrow> waiters_ok s \<and> claims_ok s \<and> stamped s \<and> told_ok s"

lemma live_subset: "set (live now ws) \<subseteq> set ws"
  by (auto simp: live_def)

lemma distinct_live: "distinct (map fst ws) \<Longrightarrow> distinct (map fst (live now ws))"
  by (simp add: live_def distinct_map_filter)

lemma delete_mem: "x \<in> set (AList.delete k ws) \<longleftrightarrow> x \<in> set ws \<and> fst x \<noteq> k"
  by (auto simp: AList.delete_eq)

lemma waiters_okD:
  assumes "waiters_ok s" "(code, w) \<in> set (sv_waiting s)"
  shows "rq_code (wt_first w) = code" "waits_with (wt_first w) (sv_conn s (wt_conn w))"
    "\<forall>x. claim (sv_conn s x) \<noteq> Some (wt_conn w)"
  using assms unfolding waiters_ok_def by fastforce+

lemma waiters_distinct:
  assumes "waiters_ok s" "(a, w) \<in> set (sv_waiting s)" "(b, v) \<in> set (sv_waiting s)" "wt_conn w = wt_conn v"
  shows "a = b \<and> w = v"
proof -
  have "waits_with (wt_first w) (sv_conn s (wt_conn w))" "waits_with (wt_first v) (sv_conn s (wt_conn w))"
      "rq_code (wt_first w) = a" "rq_code (wt_first v) = b"
    using assms unfolding waiters_ok_def by fastforce+
  then have "wt_first w = wt_first v" by (cases "sv_conn s (wt_conn w)") auto
  then have "a = b" using \<open>rq_code (wt_first w) = a\<close> \<open>rq_code (wt_first v) = b\<close> by simp
  moreover have "distinct (map fst (sv_waiting s))" using assms(1) by (simp add: waiters_ok_def)
  ultimately show ?thesis using assms(2,3) by (metis eq_key_imp_eq_value)
qed

text \<open>A waiting map that only loses entries, with phases that change at \<open>c\<close> alone.\<close>

lemma waiters_ok_shrink:
  assumes "waiters_ok s" "distinct (map fst (sv_waiting s'))" "set (sv_waiting s') \<subseteq> set (sv_waiting s)"
    and "\<And>x. x \<noteq> c \<Longrightarrow> sv_conn s' x = sv_conn s x"
    and "\<And>code w. (code, w) \<in> set (sv_waiting s') \<Longrightarrow> wt_conn w = c \<Longrightarrow> waits_with (wt_first w) (sv_conn s' c)"
    and "\<And>code w. (code, w) \<in> set (sv_waiting s') \<Longrightarrow> claim (sv_conn s' c) \<noteq> Some (wt_conn w)"
  shows "waiters_ok s'"
  unfolding waiters_ok_def
proof (intro conjI ballI assms(2), clarify)
  fix code w assume w: "(code, w) \<in> set (sv_waiting s')"
  then have "(code, w) \<in> set (sv_waiting s)" using assms(3) by blast
  note old = waiters_okD [OF assms(1) this]
  have "waits_with (wt_first w) (sv_conn s' (wt_conn w))"
    using old assms(4,5) w by (cases "wt_conn w = c") auto
  moreover have "claim (sv_conn s' x) \<noteq> Some (wt_conn w)" for x
    using old assms(4,6) w by (cases "x = c") auto
  ultimately show "rq_code (wt_first w) = code \<and> waits_with (wt_first w) (sv_conn s' (wt_conn w)) \<and>
      (\<forall>x. claim (sv_conn s' x) \<noteq> Some (wt_conn w))"
    using old by simp
qed

text \<open>Phases that change at \<open>c\<close> alone, to one with the same claim and no less of a wait.\<close>

lemma claims_ok_same:
  assumes "claims_ok s" "\<And>x. x \<noteq> c \<Longrightarrow> sv_conn s' x = sv_conn s x" "extends s s'"
    and "claim (sv_conn s' c) = claim (sv_conn s c) \<or> claim (sv_conn s' c) = None"
    and "has_waited (sv_conn s c) \<Longrightarrow> has_waited (sv_conn s' c)"
    and "\<And>r w. sv_conn s' c \<noteq> Pairing r w"
  shows "claims_ok s'"
proof -
  have cl: "claim (sv_conn s' x) = Some f \<Longrightarrow> claim (sv_conn s x) = Some f" for x f
    using assms(2,4) by (cases "x = c") auto
  have hw: "has_waited (sv_conn s x) \<Longrightarrow> has_waited (sv_conn s' x)" for x
    using assms(2,5) by (cases "x = c") auto
  have pr: "sv_conn s' x = Pairing r w \<Longrightarrow> sv_conn s x = Pairing r w" for x r w
    using assms(2,6) by (cases "x = c") auto
  show ?thesis
    using assms(1,3) cl hw pr unfolding claims_ok_def extends_def by blast
qed

lemma claim_has_waited: "claims_ok s \<Longrightarrow> claim (sv_conn s x) = Some f \<Longrightarrow> has_waited (sv_conn s f)"
  by (auto simp: claims_ok_def)

lemma drop_senders_Delivered: "drop_senders ws mail c = Delivered p \<longleftrightarrow> mail c = Delivered p"
  by (auto simp: drop_senders_def)

subsection \<open>Accepting\<close>

lemma ok_accept:
  assumes "server_ok s" "sv_conn s c = Idle"
  shows "server_ok (accept_conn c peer s)"
proof -
  let ?s = "accept_conn c peer s"
  have other: "x \<noteq> c \<Longrightarrow> sv_conn ?s x = sv_conn s x" for x by (simp add: accept_conn_def)
  have now: "sv_conn ?s c = Accepted" by (simp add: accept_conn_def)
  have ext: "extends s ?s" using assms(2) by (auto simp: extends_def accept_conn_def)
  have w: "waiters_ok s" and told: "told_ok s" and cok: "claims_ok s" using assms(1) by (simp_all add: server_ok_def)
  have "waiters_ok ?s"
  proof (rule waiters_ok_shrink [OF w, of ?s c])
    show "distinct (map fst (sv_waiting ?s))" using w by (simp add: accept_conn_def waiters_ok_def)
    show "set (sv_waiting ?s) \<subseteq> set (sv_waiting s)" by (simp add: accept_conn_def)
    show "waits_with (wt_first v) (sv_conn ?s c)" if "(code, v) \<in> set (sv_waiting ?s)" "wt_conn v = c" for code v
      using waiters_okD(2) [OF w, of code v] that assms(2) by (simp add: accept_conn_def)
  qed (use other now in auto)
  moreover have "claims_ok ?s"
    by (rule claims_ok_same [where c = c, OF cok _ ext]) (simp_all add: other now assms(2))
  moreover have "stamped ?s"
    using assms by (auto simp: server_ok_def stamped_def accept_conn_def)
  moreover have "told_ok ?s"
    by (rule told_ok_step [OF told ext, of c])
       (simp_all add: other now, simp add: accept_conn_def split: if_splits)
  ultimately show ?thesis by (simp add: server_ok_def)
qed

subsection \<open>The first frame\<close>

lemma ok_refused:
  assumes "server_ok s" "sv_conn s c = Accepted"
  shows "server_ok (s\<lparr> sv_conn := (sv_conn s)(c := Closed None reply None) \<rparr>)"
proof -
  let ?s = "s\<lparr> sv_conn := (sv_conn s)(c := Closed None reply None) \<rparr>"
  have ext: "extends s ?s" using assms(2) by (auto simp: extends_def)
  have w: "waiters_ok s" and told: "told_ok s" and cok: "claims_ok s" using assms(1) by (simp_all add: server_ok_def)
  have "waiters_ok ?s"
  proof (rule waiters_ok_shrink [OF w, of ?s c])
    show "waits_with (wt_first v) (sv_conn ?s c)" if "(code, v) \<in> set (sv_waiting ?s)" "wt_conn v = c" for code v
      using waiters_okD(2) [OF w, of code v] that assms(2) by simp
  qed (use w in \<open>auto simp: waiters_ok_def\<close>)
  moreover have "claims_ok ?s"
    by (rule claims_ok_same [where c = c, OF cok _ ext]) (simp_all add: assms(2))
  moreover have "stamped ?s"
    using assms by (auto simp: server_ok_def stamped_def)
  moreover have "told_ok ?s"
    by (rule told_ok_step [OF told ext, of c]) simp_all
  ultimately show ?thesis by (simp add: server_ok_def)
qed

lemma take_waiter_mem:
  assumes "take_waiter now code ws = (w, ws')" "distinct (map fst ws)"
  shows "distinct (map fst ws')" "set ws' \<subseteq> set ws" "\<forall>x \<in> set ws'. fst x \<noteq> code"
    "\<And>v. w = Some v \<Longrightarrow> (code, v) \<in> set ws"
proof -
  have ws': "ws' = AList.delete code (live now ws)" "w = map_of (live now ws) code"
    using assms(1) by (auto simp: take_waiter_def)
  show "distinct (map fst ws')" using distinct_live [OF assms(2)] by (simp add: ws' distinct_delete)
  show "set ws' \<subseteq> set ws" using live_subset [of now ws] by (auto simp: ws' delete_mem)
  show "\<forall>x \<in> set ws'. fst x \<noteq> code" by (simp add: ws' delete_mem)
  show "(code, v) \<in> set ws" if "w = Some v" for v
    using that ws' live_subset [of now ws] by (auto dest: map_of_SomeD)
qed

lemma ok_first_frame:
  assumes ok: "server_ok s" and acc: "sv_conn s c = Accepted"
  shows "server_ok (first_frame_step c now f s)"
proof (cases "admit f")
  case (Inl reply)
  then show ?thesis using ok_refused [OF assms] by (simp add: first_frame_step_def)
next
  case (Inr r)
  let ?s = "first_frame_step c now f s" and ?req = "stamp (sv_peer s c) r"
  obtain w ws where tw: "take_waiter now (rq_code r) (sv_waiting s) = (w, ws)" by fastforce
  have wok: "waiters_ok s" and cok: "claims_ok s" and told: "told_ok s"
    using ok by (simp_all add: server_ok_def)
  have dist: "distinct (map fst (sv_waiting s))" using wok by (simp add: waiters_ok_def)
  note take = take_waiter_mem [OF tw dist]
  let ?ph = "case w of Some w \<Rightarrow> Pairing ?req w | None \<Rightarrow> Registering ?req"
  have s': "sv_conn ?s = (sv_conn s)(c := ?ph)" "sv_waiting ?s = ws" "sv_peer ?s = sv_peer s"
      "\<And>x p. sv_mail ?s x = Delivered p \<longleftrightarrow> sv_mail s x = Delivered p"
    by (simp_all add: first_frame_step_def Inr tw Let_def drop_senders_Delivered)
  have ext: "extends s ?s" using acc by (auto simp: extends_def s')
  have not_c: "wt_conn v \<noteq> c" if "(code, v) \<in> set (sv_waiting s)" for code v
    using waiters_okD(2) [OF wok that] acc by auto
  have "waiters_ok ?s"
  proof (rule waiters_ok_shrink [OF wok, of ?s c])
    show "waits_with (wt_first v) (sv_conn ?s c)" if "(code, v) \<in> set (sv_waiting ?s)" "wt_conn v = c" for code v
      using not_c take(2) that by (auto simp: s')
    show "claim (sv_conn ?s c) \<noteq> Some (wt_conn v)" if v: "(code, v) \<in> set (sv_waiting ?s)" for code v
    proof
      assume "claim (sv_conn ?s c) = Some (wt_conn v)"
      then obtain u where u: "w = Some u" "wt_conn u = wt_conn v" by (auto simp: s' split: option.splits)
      then have "rq_code r = code"
        using waiters_distinct [OF wok, of "rq_code r" u code v] take(2,4) v by (auto simp: s')
      then show False using take(3) v by (auto simp: s')
    qed
  qed (use take in \<open>auto simp: s'\<close>)
  moreover have "claims_ok ?s"
  proof (cases w)
    case None
    then show ?thesis
      by (intro claims_ok_same [where c = c, OF cok _ ext]) (simp_all add: s' acc)
  next
    case (Some u)
    have u: "(rq_code r, u) \<in> set (sv_waiting s)" using take(4) Some by simp
    note D = waiters_okD [OF wok u]
    have fresh: "claim (sv_conn s x) \<noteq> Some (wt_conn u)" for x using D(3) by blast
    have "has_waited (sv_conn s (wt_conn u))" "request_of (sv_conn s (wt_conn u)) = Some (wt_first u)"
      using waits_with_request [OF D(2)] by auto
    moreover have nc: "claim (sv_conn s x) \<noteq> Some c" for x
      using claim_has_waited [OF cok, of x c] acc by auto
    moreover have "wt_conn v \<noteq> c" if "sv_conn s x = Pairing q v" for x q v
      using nc [of x] that by auto
    ultimately show ?thesis
      using cok fresh not_c [OF u] acc D(1)
      unfolding claims_ok_def s' Some by (auto simp: stamp_def split: if_splits)
  qed
  moreover have "stamped ?s"
    using ok by (auto simp: server_ok_def stamped_def s' stamp_def split: option.splits)
  moreover have "told_ok ?s"
    by (rule told_ok_step [OF told ext, of c]) (simp_all add: s' split: option.splits)
  ultimately show ?thesis by (simp add: server_ok_def)
qed

subsection \<open>Pairing\<close>

lemma pair_up_told:
  assumes "pair_up now t req w relay = (reply, payload, relay')"
  shows "(case reply of
        Match e f d \<Rightarrow> e = rq_public_endpoint (wt_first w) \<and> f = rq_cert_fingerprint (wt_first w) \<and> d = rq_device_id (wt_first w)
      | RelayMatch e t f d \<Rightarrow> f = rq_cert_fingerprint (wt_first w) \<and> d = rq_device_id (wt_first w)
      | _ \<Rightarrow> True) \<and>
    (case payload of
        Some (DirectPeer x) \<Rightarrow> x = req
      | Some (RelayedPeer t a pm) \<Rightarrow> pm_fingerprint pm = rq_cert_fingerprint req \<and> pm_device_id pm = rq_device_id req
      | None \<Rightarrow> True)"
  using assms by (auto simp: pair_up_def Let_def split: if_splits option.splits sum.splits prod.splits)

lemma ok_pairing:
  assumes ok: "server_ok s" and ph: "sv_conn s c = Pairing req w"
  shows "server_ok (pairing_step c now t wrote req w s)"
proof -
  let ?s = "pairing_step c now t wrote req w s"
  obtain reply payload relay where pu: "pair_up now t req w (sv_relay s) = (reply, payload, relay)"
    by (cases "pair_up now t req w (sv_relay s)") auto
  have wok: "waiters_ok s" and cok: "claims_ok s" and told: "told_ok s"
    using ok by (simp_all add: server_ok_def)
  have s': "sv_conn ?s = (sv_conn s)(c := Closed (Some req) (Some reply) (Some (wt_conn w)))"
      "sv_waiting ?s = sv_waiting s" "sv_peer ?s = sv_peer s"
      "sv_mail ?s = (sv_mail s)(wt_conn w :=
         (case payload of Some p \<Rightarrow> if wrote then Delivered p else Dropped | None \<Rightarrow> Dropped))"
    by (simp_all add: pairing_step_def pu)
  have ext: "extends s ?s" using ph by (auto simp: extends_def s')
  have W: "wt_conn w \<noteq> c" "request_of (sv_conn s (wt_conn w)) = Some (wt_first w)"
      "rq_code (wt_first w) = rq_code req"
    using cok ph unfolding claims_ok_def by force+
  have W': "request_of (sv_conn ?s (wt_conn w)) = Some (wt_first w)"
    using W ext by (auto simp: extends_def)
  have "waiters_ok ?s"
  proof (rule waiters_ok_shrink [OF wok, of ?s c])
    show "waits_with (wt_first v) (sv_conn ?s c)" if "(code, v) \<in> set (sv_waiting ?s)" "wt_conn v = c" for code v
      using waiters_okD(2) [OF wok, of code v] that ph by (simp add: s')
    show "claim (sv_conn ?s c) \<noteq> Some (wt_conn v)" if "(code, v) \<in> set (sv_waiting ?s)" for code v
    proof -
      have "(code, v) \<in> set (sv_waiting s)" using that by (simp add: s')
      from waiters_okD(3) [OF wok this] have "claim (sv_conn s c) \<noteq> Some (wt_conn v)" by blast
      with ph show ?thesis by (simp add: s')
    qed
  qed (use wok in \<open>auto simp: s' waiters_ok_def\<close>)
  moreover have "claims_ok ?s"
    by (rule claims_ok_same [where c = c, OF cok _ ext]) (simp_all add: s' ph)
  moreover have "stamped ?s"
    using ok ph by (auto simp: server_ok_def stamped_def s')
  moreover have "told_ok ?s"
  proof (rule told_ok_step [OF told ext, of c])
    fix x p assume x: "sv_mail ?s x = Delivered p"
    show "sv_mail s x = Delivered p \<or> (\<exists>r. request_of (sv_conn ?s x) = Some r \<and> from_peer ?s x r p)"
    proof (cases "x = wt_conn w")
      case True
      then have "payload = Some p" using x by (auto simp: s' split: option.splits if_splits)
      then have "from_peer ?s (wt_conn w) (wt_first w) p"
        unfolding from_peer_def using pair_up_told [OF pu] W
        by (intro exI [of _ c] exI [of _ req]) (auto simp: s' split: notify_payload.splits)
      with W' True show ?thesis by blast
    next
      case False
      then show ?thesis using x by (simp add: s')
    qed
  next
    fix r m q assume "sv_conn ?s c = Closed (Some r) (Some m) q"
    then have "r = req" "m = reply" by (simp_all add: s')
    then show "genuine ?s c r m"
      unfolding genuine_def using pair_up_told [OF pu] W W'
      by (cases reply) auto
  qed (simp_all add: s')
  ultimately show ?thesis by (simp add: server_ok_def)
qed

subsection \<open>Registering, waking, finishing\<close>

lemma update_new: "k \<notin> fst ` set al \<Longrightarrow> AList.update k v al = al @ [(k, v)]"
  by (induction al) auto

lemma ok_registering:
  assumes ok: "server_ok s" and ph: "sv_conn s c = Registering req"
  shows "server_ok (registering_step c now req s)"
proof (cases "map_of (sv_waiting s) (rq_code req)")
  case None
  let ?s = "registering_step c now req s" and ?w = "\<lparr> wt_first = req, wt_conn = c, wt_expires_at = now + sv_ttl s \<rparr>"
  have wok: "waiters_ok s" and cok: "claims_ok s" and told: "told_ok s"
    using ok by (simp_all add: server_ok_def)
  have fresh: "rq_code req \<notin> fst ` set (sv_waiting s)" using None by (simp add: map_of_eq_None_iff)
  have upd: "set (AList.update (rq_code req) ?w (sv_waiting s)) = insert (rq_code req, ?w) (set (sv_waiting s))"
    using fresh by (simp add: update_new)
  have s': "sv_conn ?s = (sv_conn s)(c := Waiting req (now + sv_ttl s))"
      "set (sv_waiting ?s) = insert (rq_code req, ?w) (set (sv_waiting s))" "sv_peer ?s = sv_peer s"
      "distinct (map fst (sv_waiting ?s))" "sv_mail ?s = sv_mail s"
    using None wok upd by (simp_all add: registering_step_def waiters_ok_def distinct_update)
  have ext: "extends s ?s" using ph by (auto simp: extends_def s')
  have nc: "claim (sv_conn s x) \<noteq> Some c" for x
    using claim_has_waited [OF cok, of x c] ph by auto
  have not_c: "wt_conn v \<noteq> c" if "(code, v) \<in> set (sv_waiting s)" for code v
    using waiters_okD(2) [OF wok that] ph by auto
  have "waiters_ok ?s"
    unfolding waiters_ok_def
  proof (intro conjI ballI s'(4), clarify)
    fix code v assume "(code, v) \<in> set (sv_waiting ?s)"
    then consider "code = rq_code req" "v = ?w" | "(code, v) \<in> set (sv_waiting s)"
      by (auto simp: s')
    then show "rq_code (wt_first v) = code \<and> waits_with (wt_first v) (sv_conn ?s (wt_conn v)) \<and>
        (\<forall>x. claim (sv_conn ?s x) \<noteq> Some (wt_conn v))"
    proof cases
      case 1
      then show ?thesis using nc by (auto simp: s')
    next
      case 2
      note D = waiters_okD [OF wok 2]
      show ?thesis
        using D(1,2) not_c [OF 2] spec [OF D(3)] by (auto simp: s')
    qed
  qed
  moreover have "claims_ok ?s"
    by (rule claims_ok_same [where c = c, OF cok _ ext]) (simp_all add: s' ph)
  moreover have "stamped ?s"
    using ok ph by (auto simp: server_ok_def stamped_def s')
  moreover have "told_ok ?s"
    by (rule told_ok_step [OF told ext, of c]) (simp_all add: s')
  ultimately show ?thesis by (simp add: server_ok_def)
next
  case (Some v)
  let ?s = "registering_step c now req s"
  have wok: "waiters_ok s" and cok: "claims_ok s" and told: "told_ok s"
    using ok by (simp_all add: server_ok_def)
  have s': "sv_conn ?s = (sv_conn s)(c := Closed (Some req)
                (Some (Rejected ''code already in use, ask for a fresh one'')) None)"
      "sv_waiting ?s = sv_waiting s" "sv_peer ?s = sv_peer s" "sv_mail ?s = sv_mail s"
    using Some by (simp_all add: registering_step_def)
  have ext: "extends s ?s" using ph by (auto simp: extends_def s')
  have "waiters_ok ?s"
  proof (rule waiters_ok_shrink [OF wok, of ?s c])
    show "waits_with (wt_first u) (sv_conn ?s c)" if "(code, u) \<in> set (sv_waiting ?s)" "wt_conn u = c" for code u
      using waiters_okD(2) [OF wok, of code u] that ph by (simp add: s')
  qed (use wok in \<open>auto simp: s' waiters_ok_def\<close>)
  moreover have "claims_ok ?s"
    by (rule claims_ok_same [where c = c, OF cok _ ext]) (simp_all add: s' ph)
  moreover have "stamped ?s"
    using ok ph by (auto simp: server_ok_def stamped_def s')
  moreover have "told_ok ?s"
    by (rule told_ok_step [OF told ext, of c]) (simp_all add: s' genuine_def)
  ultimately show ?thesis by (simp add: server_ok_def)
qed

lemma ok_wake:
  assumes ok: "server_ok s" and ph: "sv_conn s c = Waiting req d"
    and out: "\<And>p. outcome = Some p \<Longrightarrow> sv_mail s c = Delivered p"
  shows "server_ok (wake_step c req outcome s)"
proof -
  let ?s = "wake_step c req outcome s"
  have wok: "waiters_ok s" and cok: "claims_ok s" and told: "told_ok s"
    using ok by (simp_all add: server_ok_def)
  have s': "sv_conn ?s = (sv_conn s)(c := Waking req outcome)"
      "sv_waiting ?s = sv_waiting s" "sv_peer ?s = sv_peer s" "sv_mail ?s = sv_mail s"
    by (simp_all add: wake_step_def)
  have ext: "extends s ?s" using ph by (auto simp: extends_def s')
  have "waiters_ok ?s"
  proof (rule waiters_ok_shrink [OF wok, of ?s c])
    show "waits_with (wt_first u) (sv_conn ?s c)" if "(code, u) \<in> set (sv_waiting ?s)" "wt_conn u = c" for code u
      unfolding s' using waiters_okD(2) [OF wok, of code u] that(1) [unfolded s'] that(2) ph by auto
  qed (use wok in \<open>auto simp: s' waiters_ok_def\<close>)
  moreover have "claims_ok ?s"
    by (rule claims_ok_same [where c = c, OF cok _ ext]) (simp_all add: s' ph)
  moreover have "stamped ?s"
    using ok ph by (auto simp: server_ok_def stamped_def s')
  moreover have "told_ok ?s"
  proof (rule told_ok_step [OF told ext, of c])
    fix r p assume "sv_conn ?s c = Waking r (Some p)"
    then have rp: "r = req" "sv_mail s c = Delivered p" using out by (auto simp: s')
    moreover obtain r' where "request_of (sv_conn s c) = Some r'" "from_peer s c r' p"
      using told rp(2) unfolding told_ok_def by blast
    ultimately show "from_peer ?s c r p"
      using ph from_peer_extends [OF _ ext] by simp
  qed (simp_all add: s')
  ultimately show ?thesis by (simp add: server_ok_def)
qed

lemma ok_finish:
  assumes ok: "server_ok s" and ph: "sv_conn s c = Waking req outcome"
  shows "server_ok (finish_step c req outcome s)"
proof -
  let ?s = "finish_step c req outcome s"
  obtain ws gone where cl: "cleanup req (sv_waiting s) = (ws, gone)" by fastforce
  have wok: "waiters_ok s" and cok: "claims_ok s" and told: "told_ok s"
    using ok by (simp_all add: server_ok_def)
  have s': "sv_conn ?s = (sv_conn s)(c := Closed (Some req) (Some (final_reply outcome)) None)"
      "sv_waiting ?s = ws" "sv_peer ?s = sv_peer s"
      "\<And>x p. sv_mail ?s x = Delivered p \<longleftrightarrow> sv_mail s x = Delivered p"
    by (simp_all add: finish_step_def cl drop_senders_Delivered)
  have dist: "distinct (map fst (sv_waiting s))" using wok by (simp add: waiters_ok_def)
  have ws: "distinct (map fst ws)" "set ws \<subseteq> set (sv_waiting s)"
    using cl dist by (auto simp: cleanup_def delete_mem distinct_delete split: option.splits if_splits)
  have not_own: "wt_conn u \<noteq> c" if u: "(code, u) \<in> set ws" for code u
  proof
    assume c: "wt_conn u = c"
    have mem: "(code, u) \<in> set (sv_waiting s)" using ws(2) u by blast
    have first: "wt_first u = req"
      using waiters_okD(2) [OF wok mem] c ph by simp
    then have "code = rq_code req" using waiters_okD(1) [OF wok mem] by simp
    then have "map_of (sv_waiting s) (rq_code req) = Some u"
      using mem dist by simp
    then show False using cl u first \<open>code = rq_code req\<close> by (auto simp: cleanup_def delete_mem)
  qed
  have ext: "extends s ?s" using ph by (auto simp: extends_def s')
  have "waiters_ok ?s"
  proof (rule waiters_ok_shrink [OF wok, of ?s c])
    show "waits_with (wt_first u) (sv_conn ?s c)" if "(code, u) \<in> set (sv_waiting ?s)" "wt_conn u = c" for code u
      using not_own that by (simp add: s')
  qed (use ws in \<open>auto simp: s'\<close>)
  moreover have "claims_ok ?s"
    by (rule claims_ok_same [where c = c, OF cok _ ext]) (simp_all add: s' ph)
  moreover have "stamped ?s"
    using ok ph by (auto simp: server_ok_def stamped_def s')
  moreover have "told_ok ?s"
  proof (rule told_ok_step [OF told ext, of c])
    fix r m q assume "sv_conn ?s c = Closed (Some r) (Some m) q"
    then have rm: "r = req" "m = final_reply outcome" by (simp_all add: s')
    show "genuine ?s c r m"
    proof (cases outcome)
      case None
      then show ?thesis by (simp add: rm final_reply_def genuine_def)
    next
      case (Some p)
      then have "from_peer s c req p" using told ph by (auto simp: told_ok_def)
      then have "from_peer ?s c req p" using ext by (rule from_peer_extends)
      then show ?thesis
        by (auto simp: rm Some final_reply_def genuine_def from_peer_def split: notify_payload.splits)
    qed
  qed (simp_all add: s')
  ultimately show ?thesis by (simp add: server_ok_def)
qed

lemma server_init_ok: "server_ok (server_init ttl relay)"
  by (simp add: server_ok_def server_init_def waiters_ok_def claims_ok_def stamped_def told_ok_def)

lemma server_ok_relay: "server_ok (s\<lparr> sv_relay := x \<rparr>) = server_ok s"
  by (simp add: server_ok_def waiters_ok_def claims_ok_def stamped_def told_ok_def from_peer_def genuine_def
      cong: notify_payload.case_cong rz_message.case_cong)

lemma server_step_ok: "server_step s s' \<Longrightarrow> server_ok s \<Longrightarrow> server_ok s'"
  by (induction rule: server_step.induct)
     (auto intro: ok_accept ok_first_frame ok_pairing ok_registering ok_wake ok_finish simp: server_ok_relay)

lemma server_reachable_ok: "server_reachable s \<Longrightarrow> server_ok s"
  by (induction rule: server_reachable.induct) (auto intro: server_init_ok server_step_ok)

section \<open>Properties\<close>

text \<open>
  C22: over every interleaving of any number of connections, a client that is told
  to connect directly to a peer is told the endpoint, fingerprint and device id that another
  connection registered under the same code, and the address it is sent to has the IP that
  connection really came from, whatever the request claimed.
\<close>

theorem match_is_genuine:
  assumes "server_reachable s" "sv_conn s c = Closed (Some r) (Some (Match endpoint fp device)) q"
  shows "\<exists>c' r'. c' \<noteq> c \<and> request_of (sv_conn s c') = Some r' \<and> rq_code r' = rq_code r \<and>
     endpoint = rq_public_endpoint r' \<and> fp = rq_cert_fingerprint r' \<and> device = rq_device_id r' \<and>
     sa_ip endpoint = sa_ip (sv_peer s c')"
proof -
  have ok: "server_ok s" using assms(1) by (rule server_reachable_ok)
  then have "genuine s c r (Match endpoint fp device)"
    using assms(2) unfolding server_ok_def told_ok_def by blast
  then obtain c' r' where g: "c' \<noteq> c" "request_of (sv_conn s c') = Some r'" "rq_code r' = rq_code r"
      "endpoint = rq_public_endpoint r'" "fp = rq_cert_fingerprint r'" "device = rq_device_id r'"
    unfolding genuine_def by auto
  moreover have "sa_ip (rq_public_endpoint r') = sa_ip (sv_peer s c')"
    using ok g(2) by (auto simp: server_ok_def stamped_def)
  ultimately show ?thesis by blast
qed

text \<open>
  C29: a registration that waits under a code is taken by at most one second peer:
  two connections that claim the same first peer, while pairing or after it, are the same
  connection, and a registration still in the waiting map has been claimed by nobody.
\<close>

theorem code_single_use:
  assumes "server_reachable s" "claim (sv_conn s c) = Some f"
  shows "f \<noteq> c \<and> (claim (sv_conn s c') = Some f \<longrightarrow> c' = c) \<and>
     (\<forall>(code, w) \<in> set (sv_waiting s). wt_conn w \<noteq> f)"
proof -
  have ok: "waiters_ok s" "claims_ok s"
    using server_reachable_ok [OF assms(1)] by (simp_all add: server_ok_def)
  have "wt_conn w \<noteq> f" if "(code, w) \<in> set (sv_waiting s)" for code w
    using waiters_okD(3) [OF ok(1) that] assms(2) by auto
  moreover have "f \<noteq> c" "claim (sv_conn s c') = Some f \<Longrightarrow> c' = c"
    using ok(2) assms(2) unfolding claims_ok_def by blast+
  ultimately show ?thesis by auto
qed

subsection \<open>A concrete run\<close>

text \<open>
  The same device registers twice under one code (a retry whose first connection still waits): the
  server pairs the device with itself.
\<close>

definition demo_request :: register_request where
  "demo_request = \<lparr> rq_protocol_version = 1, rq_code = ''ABC123'', rq_public_endpoint = SocketAddr (V4 7) 9,
     rq_cert_fingerprint = 3, rq_device_id = 5, rq_want_relay = False \<rparr>"

definition demo_run :: server_state where
  "demo_run =
     (let peer = SocketAddr (V4 7) 40; f = Frame (Register demo_request);
          s1 = first_frame_step 0 0 f (accept_conn 0 peer (server_init 300 None));
          s2 = registering_step 0 0 demo_request s1;
          s3 = first_frame_step 1 1 f (accept_conn 1 peer s2)
      in pairing_step 1 1 0 True demo_request
           \<lparr> wt_first = demo_request, wt_conn = 0, wt_expires_at = 300 \<rparr> s3)"

lemma demo_valid: "admit (Frame (Register demo_request)) = Inr demo_request"
  by code_simp

lemma demo_stamp: "stamp (SocketAddr (V4 7) 40) demo_request = demo_request"
  by (simp add: stamp_def demo_request_def)

lemma demo_run_reachable: "server_reachable demo_run"
proof -
  let ?peer = "SocketAddr (V4 7) 40" and ?f = "Frame (Register demo_request)"
  let ?acc = "accept_conn 0 ?peer (server_init 300 None)"
  let ?one = "first_frame_step 0 0 ?f ?acc"
  let ?two = "registering_step 0 0 demo_request ?one"
  let ?acc' = "accept_conn 1 ?peer ?two"
  let ?three = "first_frame_step 1 1 ?f ?acc'"
  note defs = first_frame_step_def accept_conn_def server_init_def demo_valid take_waiter_def live_def
    demo_stamp registering_step_def Let_def
  have "server_reachable ?acc"
    by (rule sv_next [OF sv_start sv_accept]) (simp add: server_init_def)
  then have "server_reachable ?one"
    by (rule sv_next [OF _ sv_frame]) (simp add: accept_conn_def)
  then have "server_reachable ?two"
    by (rule sv_next [OF _ sv_register]) (simp add: defs)
  then have "server_reachable ?acc'"
    by (rule sv_next [OF _ sv_accept]) (simp add: defs)
  then have "server_reachable ?three"
    by (rule sv_next [OF _ sv_frame]) (simp add: accept_conn_def)
  moreover have "sv_conn ?three 1 = Pairing demo_request
      \<lparr> wt_first = demo_request, wt_conn = 0, wt_expires_at = 300 \<rparr>"
    by (simp add: defs)
  ultimately show ?thesis
    unfolding demo_run_def Let_def by (intro sv_next [OF _ sv_pair])
qed

theorem device_paired_with_itself:
  "sv_conn demo_run 1 = Closed (Some demo_request)
     (Some (Match (SocketAddr (V4 7) 9) 3 (rq_device_id demo_request))) (Some 0)"
  by (simp add: demo_run_def Let_def pairing_step_def pair_up_def demo_request_def split: prod.splits)

theorem match_is_genuine_witness:
  "\<exists>c' r'. c' \<noteq> 1 \<and> request_of (sv_conn demo_run c') = Some r' \<and> rq_public_endpoint r' = SocketAddr (V4 7) 9"
  using match_is_genuine [OF demo_run_reachable device_paired_with_itself] by metis

theorem code_single_use_witness: "claim (sv_conn demo_run 2) \<noteq> Some 0"
proof -
  have "claim (sv_conn demo_run 1) = Some 0"
    by (simp only: device_paired_with_itself claim.simps)
  from code_single_use [OF demo_run_reachable this, of 2] show ?thesis by auto
qed

end
