(* ===== verification/Folder_Scan.thy ===== *)
theory Folder_Scan
  imports Path_Safety Wire_Protocol "HOL-Library.Multiset"
begin

text \<open>
  What \<open>FolderTransferSession\<close> reads of the sending side's file system: the directory walk
  \<open>scan_folder\<close> of \<open>p2p-core/src/transfer_folder.rs\<close>, over a tree of files and directories, and
  the parts of \<open>std::path::Path\<close> it uses. A symbolic link or a device met in a walk is \<open>OtherNode\<close>:
  \<open>DirEntry::metadata\<close> does not follow it. A directory lists its entries and then ends, possibly with
  an error. Paths are Unix byte strings; \<open>Path\<close> compares them by their components, so a path cut out
  of another one is given by its components, without the redundant slashes of the original text.
\<close>

section \<open>Paths\<close>

fun component_text :: "component \<Rightarrow> string" where
  "component_text RootDir = ''/''"
| "component_text CurDir = ''.''"
| "component_text ParentDir = ''..''"
| "component_text (Normal w) = w"

definition render :: "component list \<Rightarrow> string" where
  "render cs = foldl push [] (map component_text cs)"

definition file_name :: "string \<Rightarrow> string option" where
  "file_name p =
     (case rev (components p) of Normal w # _ \<Rightarrow> Some w | _ \<Rightarrow> None)"

definition parent :: "string \<Rightarrow> string option" where
  "parent p =
     (case rev (components p) of
        [] \<Rightarrow> None
      | RootDir # _ \<Rightarrow> None
      | _ # cs \<Rightarrow> Some (render (rev cs)))"

definition strip_prefix :: "string \<Rightarrow> string \<Rightarrow> string option" where
  "strip_prefix p base =
     (let n = length (components base)
      in if take n (components p) = components base then Some (render (drop n (components p))) else None)"

definition unwrap_or :: "'a option \<Rightarrow> 'a \<Rightarrow> 'a" where
  "unwrap_or m d = (case m of None \<Rightarrow> d | Some x \<Rightarrow> x)"

section \<open>Directory trees\<close>

datatype node =
    FileNode bytes u64
  | DirNode "(string \<times> node) list" "io_error option"
  | OtherNode

type_synonym entries = "(string \<times> node) list"

definition metadata_of :: "string \<Rightarrow> bytes \<Rightarrow> u64 \<Rightarrow> file_metadata" where
  "metadata_of path data modified =
     \<lparr> fm_path = path, fm_size = word_of_nat (length data), fm_modified = modified, fm_checksum = 0 \<rparr>"

text \<open>One directory: its files, and its subdirectories to be visited later.\<close>

fun scan_entries ::
  "string \<Rightarrow> string \<Rightarrow> entries \<Rightarrow> (file_metadata list \<times> (string \<times> entries \<times> io_error option) list) result" where
  "scan_entries base current [] = Inr ([], [])"
| "scan_entries base current ((name, nd) # rest) =
     (let path = push current name in
      case nd of
        FileNode data modified \<Rightarrow>
          rbind (case strip_prefix path base of
                   None \<Rightarrow> Inl (Protocol ''Invalid path: prefix not found'')
                 | Some relative_path \<Rightarrow> Inr relative_path) (\<lambda>relative_path.
          rbind (sanitize_relative_path relative_path) (\<lambda>relative_path.
          rbind (scan_entries base current rest) (\<lambda>(files, dirs).
            Inr (metadata_of relative_path data modified # files, dirs))))
      | DirNode es err \<Rightarrow>
          rbind (scan_entries base current rest) (\<lambda>(files, dirs). Inr (files, (path, es, err) # dirs))
      | OtherNode \<Rightarrow> scan_entries base current rest)"

definition weight :: "(string \<times> entries \<times> io_error option) list \<Rightarrow> nat" where
  "weight q = sum_list (map (\<lambda>(_, es, _). Suc (size_list (\<lambda>(_, nd). size nd) es)) q)"

lemma size_entries_le: "size_list (\<lambda>p. size (snd p)) es \<le> size_list (size_prod (\<lambda>x. 0) size) (es :: entries)"
  by (rule size_list_pointwise) (auto split: prod.splits)

lemma scan_entries_weight:
  "scan_entries base current es = Inr (files, dirs) \<Longrightarrow> weight dirs \<le> size_list (\<lambda>(_, nd). size nd) es"
proof (induction base current es arbitrary: files dirs rule: scan_entries.induct)
  case (1 base current)
  then show ?case by (simp add: weight_def)
next
  case (2 base current name nd rest)
  show ?case
  proof (cases nd)
    case (DirNode es err)
    with 2 obtain ds where "scan_entries base current rest = Inr (files, ds)"
        "dirs = (push current name, es, err) # ds"
      by (auto simp: Let_def)
    with 2(2) [OF refl DirNode] DirNode size_entries_le [of es] show ?thesis
      by (auto simp: weight_def case_prod_unfold comp_def)
  qed (use 2 in \<open>fastforce simp: Let_def\<close>)+
qed

text \<open>
  The queue of directories: first in, first out. The files come in the order found; a subdirectory
  is opened only when its turn comes.
\<close>

function (sequential) scan_loop ::
  "string \<Rightarrow> (string \<times> entries \<times> io_error option) list \<Rightarrow> file_metadata list result" where
  "scan_loop base [] = Inr []"
| "scan_loop base ((current, es, err) # stack) =
     (case scan_entries base current es of
        Inl e \<Rightarrow> Inl e
      | Inr (files, dirs) \<Rightarrow>
          (case err of
             Some e \<Rightarrow> Inl (Network e)
           | None \<Rightarrow> rbind (scan_loop base (stack @ dirs)) (\<lambda>rest. Inr (files @ rest))))"
  by pat_completeness auto
termination
  by (relation "measure (\<lambda>(base, q). weight q)")
     (auto simp: weight_def dest!: scan_entries_weight)

definition scan_folder :: "string \<Rightarrow> entries \<Rightarrow> io_error option \<Rightarrow> file_metadata list result" where
  "scan_folder folder_path es err =
     scan_loop (unwrap_or (parent folder_path) folder_path) [(folder_path, es, err)]"

section \<open>Components of built paths\<close>

lemma components_push:
  assumes "w \<noteq> []" "CHR ''/'' \<notin> set w" "w \<noteq> ''.''"
  shows "components (push out w) = components out @ [component_of w]"
proof -
  have abs: "\<not> is_absolute w" using assms(2) by (rule not_absolute_plain)
  have pcs: "pieces w = [w]" using assms by (simp add: pieces_plain)
  show ?thesis
  proof (cases "out = []")
    case True
    then show ?thesis using abs pcs assms(1) by (simp add: push_def components_def) (simp add: is_absolute_def)
  next
    case False
    have eq: "is_absolute (push out w) = is_absolute out" "pieces (push out w) = pieces out @ [w]"
      using False abs pcs by (simp_all add: is_absolute_push pieces_push)
    have "pieces out \<noteq> []" if "\<not> is_absolute out"
      using False that by (cases out) (auto simp: is_absolute_def pieces_def)
    then show ?thesis
      using eq assms(3) by (cases "pieces out") (auto simp: components_def)
  qed
qed

lemma components_push_plain: "plain w \<Longrightarrow> components (push out w) = components out @ [Normal w]"
  using components_push [of w out] by (simp add: plain_def component_of_def)

definition wf_components :: "component list \<Rightarrow> bool" where
  "wf_components cs \<longleftrightarrow> (\<forall>w. Normal w \<in> set cs \<longrightarrow> plain w) \<and>
     (\<forall>c \<in> set (tl cs). c \<noteq> RootDir \<and> c \<noteq> CurDir)"

lemma wf_components_Nil [simp]: "wf_components []"
  by (simp add: wf_components_def)

lemma wf_components_snoc:
  "wf_components (cs @ [c]) \<longleftrightarrow> wf_components cs \<and> (\<forall>w. c = Normal w \<longrightarrow> plain w) \<and>
     (cs \<noteq> [] \<longrightarrow> c \<noteq> RootDir \<and> c \<noteq> CurDir)"
  by (cases cs) (auto simp: wf_components_def)

lemma wf_component_list:
  assumes "\<forall>w \<in> set ws. w \<noteq> [] \<and> CHR ''/'' \<notin> set w \<and> w \<noteq> ''.''"
  shows "\<forall>c \<in> set (map component_of ws). (\<forall>w. c = Normal w \<longrightarrow> plain w) \<and> c \<noteq> RootDir \<and> c \<noteq> CurDir"
  using assms by (auto simp: component_of_def plain_def split: if_splits)

lemma wf_components_Cons:
  "wf_components (c # cs) \<longleftrightarrow> (\<forall>w. c = Normal w \<longrightarrow> plain w) \<and>
     (\<forall>d \<in> set cs. (\<forall>w. d = Normal w \<longrightarrow> plain w) \<and> d \<noteq> RootDir \<and> d \<noteq> CurDir)"
  by (auto simp: wf_components_def)

lemma wf_components: "wf_components (components p)"
proof -
  let ?tail = "\<lambda>ws. map component_of (filter (\<lambda>w. w \<noteq> ''.'') ws)"
  have tl: "\<forall>d \<in> set (?tail ws). (\<forall>w. d = Normal w \<longrightarrow> plain w) \<and> d \<noteq> RootDir \<and> d \<noteq> CurDir"
    if "set ws \<subseteq> set (pieces p)" for ws
    by (rule wf_component_list) (use that pieces_good [of _ p] in auto)
  have hd: "component_of w = Normal v \<longrightarrow> plain v" if "w \<in> set (pieces p)" for w v
    using that pieces_good [of w p] by (auto simp: component_of_def plain_def)
  show ?thesis
  proof (cases "is_absolute p")
    case True
    then show ?thesis using tl [of "pieces p"] by (simp add: components_def wf_components_Cons)
  next
    case False
    show ?thesis
    proof (cases "pieces p")
      case Nil
      with False show ?thesis by (simp add: components_def wf_components_def)
    next
      case (Cons w ws)
      have "set ws \<subseteq> set (pieces p)" "w \<in> set (pieces p)" using Cons by auto
      with False Cons tl [of ws] hd [of w] show ?thesis
        by (simp add: components_def wf_components_Cons)
    qed
  qed
qed

lemma render_snoc: "render (cs @ [c]) = push (render cs) (component_text c)"
  by (simp add: render_def)

lemma components_render: "wf_components cs \<Longrightarrow> components (render cs) = cs"
proof (induction cs rule: rev_induct)
  case Nil
  then show ?case by (simp add: render_def components_def is_absolute_def)
next
  case (snoc c cs)
  have wf: "wf_components cs"
    using snoc.prems by (simp add: wf_components_snoc)
  show ?case
  proof (cases "cs = [] \<and> (c = RootDir \<or> c = CurDir)")
    case True
    then show ?thesis
      by (auto simp: render_def push_def is_absolute_def components_def pieces_def component_of_def)
  next
    case False
    have "(\<forall>w. c = Normal w \<longrightarrow> plain w) \<and> (c = RootDir \<or> c = CurDir \<longrightarrow> cs = [])"
      using snoc.prems by (auto simp: wf_components_snoc)
    then have "component_of (component_text c) = c" "component_text c \<noteq> []"
        "CHR ''/'' \<notin> set (component_text c)" "component_text c \<noteq> ''.''"
      using False by (cases c; auto simp: plain_def component_of_def)+
    with snoc.IH [OF wf] show ?thesis by (simp add: render_snoc components_push)
  qed
qed

lemma components_render_names: "\<forall>w \<in> set ws. plain w \<Longrightarrow> components (render (map Normal ws)) = map Normal ws"
  by (rule components_render) (cases ws, auto simp: wf_components_def)

lemma sanitize_render:
  assumes "\<forall>w \<in> set ws. plain w" "ws \<noteq> []"
  shows "sanitize_relative_path (render (map Normal ws)) = Inr (render (map Normal ws))"
proof -
  have eq: "render (map Normal ws) = foldl push [] ws" by (simp add: render_def comp_def)
  have "\<not> is_absolute (foldl push [] ws)"
    using assms(1) by (intro relative_foldl_push) (auto simp: plain_def is_absolute_def)
  with components_render_names [OF assms(1)] assms(2) show ?thesis
    by (auto simp: sanitize_Inr eq)
qed

lemma file_name_parent:
  assumes "file_name p = Some w"
  shows "\<exists>b. parent p = Some b \<and> components p = components b @ [Normal w] \<and> plain w"
proof -
  obtain cs where cs: "components p = cs @ [Normal w]"
    using assms unfolding file_name_def
    by (auto split: list.splits component.splits)
  have wf: "wf_components (cs @ [Normal w])" using wf_components [of p] by (simp add: cs)
  then have "wf_components cs" "plain w" by (simp_all add: wf_components_snoc)
  then show ?thesis
    using cs by (auto simp: parent_def components_render intro!: exI [of _ "render cs"])
qed

section \<open>The walk against the tree\<close>

text \<open>The regular files of a tree, by plain recursion, with the names that lead to them.\<close>

fun tree_files :: "string list \<Rightarrow> node \<Rightarrow> (string list \<times> bytes \<times> u64) list" where
  "tree_files ws (FileNode d m) = [(ws, d, m)]"
| "tree_files ws (DirNode es err) = concat (map (\<lambda>(n, nd). tree_files (ws @ [n]) nd) es)"
| "tree_files ws OtherNode = []"

text \<open>A tree as an operating system presents it: ordinary names, and no read error.\<close>

fun readable :: "node \<Rightarrow> bool" where
  "readable (DirNode es err) \<longleftrightarrow> err = None \<and> (\<forall>(n, nd) \<in> set es. plain n \<and> readable nd)"
| "readable (FileNode d m) \<longleftrightarrow> True"
| "readable OtherNode \<longleftrightarrow> True"

definition listing :: "string list \<times> bytes \<times> u64 \<Rightarrow> file_metadata" where
  "listing = (\<lambda>(ws, d, m). metadata_of (render (map Normal ws)) d m)"

definition below :: "string \<Rightarrow> string list \<Rightarrow> string \<Rightarrow> bool" where
  "below base ws cur \<longleftrightarrow> ws \<noteq> [] \<and> (\<forall>w \<in> set ws. plain w) \<and> components cur = components base @ map Normal ws"

definition rel :: "string \<Rightarrow> string \<Rightarrow> string list" where
  "rel base cur = map component_text (drop (length (components base)) (components cur))"

lemma below_rel: "below base ws cur \<Longrightarrow> rel base cur = ws"
  by (simp add: below_def rel_def comp_def)

lemma below_push: "below base ws cur \<Longrightarrow> plain n \<Longrightarrow> below base (ws @ [n]) (push cur n)"
  by (simp add: below_def components_push_plain)

lemma below_strip: "below base ws cur \<Longrightarrow> strip_prefix cur base = Some (render (map Normal ws))"
  by (simp add: below_def strip_prefix_def Let_def)

definition queue_ok :: "string \<Rightarrow> (string \<times> entries \<times> io_error option) list \<Rightarrow> bool" where
  "queue_ok base q \<longleftrightarrow> (\<forall>(cur, es, err) \<in> set q. readable (DirNode es err) \<and> below base (rel base cur) cur)"

definition queue_files :: "string \<Rightarrow> (string \<times> entries \<times> io_error option) list \<Rightarrow> (string list \<times> bytes \<times> u64) list" where
  "queue_files base q = concat (map (\<lambda>(cur, es, err). tree_files (rel base cur) (DirNode es err)) q)"

lemma queue_simps [simp]:
  "queue_ok base []" "queue_files base [] = []"
  "queue_ok base ((cur, es, err) # q) \<longleftrightarrow>
     readable (DirNode es err) \<and> below base (rel base cur) cur \<and> queue_ok base q"
  "queue_files base ((cur, es, err) # q) = tree_files (rel base cur) (DirNode es err) @ queue_files base q"
  "queue_ok base (q @ q') \<longleftrightarrow> queue_ok base q \<and> queue_ok base q'"
  "queue_files base (q @ q') = queue_files base q @ queue_files base q'"
  by (simp_all add: queue_ok_def queue_files_def ball_Un del: readable.simps)

lemma scan_entries_ok:
  assumes "below base ws cur" "\<forall>(n, nd) \<in> set es. plain n \<and> readable nd"
  shows "\<exists>files dirs. scan_entries base cur es = Inr (files, dirs) \<and> queue_ok base dirs \<and>
     mset files + mset (map listing (queue_files base dirs)) =
       mset (map listing (tree_files ws (DirNode es None)))"
  using assms
proof (induction base cur es rule: scan_entries.induct)
  case (1 base current)
  then show ?case by simp
next
  case (2 base current name nd rest)
  have b: "below base (ws @ [name]) (push current name)"
    using 2(4,5) by (auto intro: below_push)
  have r: "rel base (push current name) = ws @ [name]" using b by (rule below_rel)
  have rest: "\<forall>(n, nd) \<in> set rest. plain n \<and> readable nd" "readable nd" using 2(5) by auto
  show ?case
  proof (cases nd)
    case (FileNode d m)
    have "sanitize_relative_path (render (map Normal (ws @ [name]))) = Inr (render (map Normal (ws @ [name])))"
      using b by (intro sanitize_render) (auto simp: below_def)
    with 2(1) [OF refl FileNode 2(4) rest(1)] FileNode below_strip [OF b]
    show ?thesis by (fastforce simp: Let_def listing_def)
  next
    case (DirNode es err)
    with 2(2) [OF refl DirNode 2(4) rest(1)] rest(2) b r show ?thesis
      by (fastforce simp: Let_def)
  next
    case OtherNode
    with 2(3) [OF refl OtherNode 2(4) rest(1)] show ?thesis by (simp add: Let_def)
  qed
qed

lemma scan_loop_ok:
  "queue_ok base q \<Longrightarrow>
     \<exists>files. scan_loop base q = Inr files \<and> mset files = mset (map listing (queue_files base q))"
proof (induction base q rule: scan_loop.induct)
  case (1 base)
  then show ?case by simp
next
  case (2 base current es err stack)
  then have "below base (rel base current) current" "\<forall>(n, nd) \<in> set es. plain n \<and> readable nd" "err = None"
    by auto
  with scan_entries_ok obtain files dirs where one: "scan_entries base current es = Inr (files, dirs)"
      "queue_ok base dirs"
      "mset files + mset (map listing (queue_files base dirs)) =
         mset (map listing (tree_files (rel base current) (DirNode es None)))"
    by blast
  moreover have "queue_ok base (stack @ dirs)" using 2(2) one(2) by simp
  then obtain more where "scan_loop base (stack @ dirs) = Inr more"
      "mset more = mset (map listing (queue_files base (stack @ dirs)))"
    using 2(1) [OF one(1) refl \<open>err = None\<close>] by blast
  ultimately show ?case using \<open>err = None\<close> by (simp add: ac_simps)
qed



end
