(* ===== verification/File_Store.thy ===== *)
theory File_Store
  imports Folder_Scan
begin

text \<open>
  The write-then-rename discipline that \<open>history.rs\<close> and \<open>known_peers.rs\<close> share, on a file system
  that may crash. A file is what its readers see and whether that has reached the disk; a crash
  keeps what was synced and leaves anything at all in a file that was not. The interface
  \<open>crash_safe\<close> says what its users rely on: at every moment, crash or not, the file reads as before
  the save or as after it.
\<close>

section \<open>Files, operations, crashes\<close>

datatype stored = Stored (cached: bytes) (durable: bool)

type_synonym fstate = "string \<Rightarrow> stored option"

datatype fs_op = OpenTrunc string | WriteAll string bytes | SyncAll string | Rename string string

fun exec :: "fs_op \<Rightarrow> fstate \<Rightarrow> fstate" where
  "exec (OpenTrunc p) d = d(p \<mapsto> Stored [] False)"
| "exec (WriteAll p b) d =
     (case d p of None \<Rightarrow> d | Some f \<Rightarrow> d(p \<mapsto> Stored (cached f @ b) False))"
| "exec (SyncAll p) d =
     (case d p of None \<Rightarrow> d | Some f \<Rightarrow> d(p \<mapsto> Stored (cached f) True))"
| "exec (Rename a b) d = (if a = b then d else d(b := d a, a := None))"

definition run :: "fs_op list \<Rightarrow> fstate \<Rightarrow> fstate" where
  "run ops = fold exec ops"

lemma run_simps [simp]: "run [] d = d" "run (x # xs) d = run xs (exec x d)"
  by (simp_all add: run_def)

definition crash :: "fstate \<Rightarrow> fstate \<Rightarrow> bool" where
  "crash d d' \<longleftrightarrow> (\<forall>p. case d p of
       None \<Rightarrow> d' p = None
     | Some (Stored c True) \<Rightarrow> d' p = Some (Stored c True)
     | Some (Stored c False) \<Rightarrow> (\<exists>x. d' p = Some (Stored x True)))"

definition contents :: "string \<Rightarrow> fstate \<Rightarrow> bytes option" where
  "contents p d = map_option cached (d p)"

definition settled :: "string \<Rightarrow> fstate \<Rightarrow> bool" where
  "settled p d \<longleftrightarrow> (\<forall>c. d p \<noteq> Some (Stored c False))"

lemma crash_settled:
  assumes "crash d d'"
  shows "settled p d'" "settled p d \<Longrightarrow> d' p = d p"
proof -
  have "case d p of None \<Rightarrow> d' p = None
     | Some (Stored c True) \<Rightarrow> d' p = Some (Stored c True)
     | Some (Stored c False) \<Rightarrow> (\<exists>x. d' p = Some (Stored x True))"
    using assms by (simp add: crash_def)
  then show "settled p d'" "settled p d \<Longrightarrow> d' p = d p"
    by (auto simp: settled_def split: option.splits stored.splits bool.splits)
qed

section \<open>Interface: a value saved so that a crash cannot lose it\<close>

locale crash_safe =
  fixes save :: "'a \<Rightarrow> fs_op list"
    and load :: "fstate \<Rightarrow> 'a option"
    and stable :: "fstate \<Rightarrow> bool"
  assumes saved: "stable d \<Longrightarrow> load (run (save x) d) = Some x \<and> stable (run (save x) d)"
    and crashed: "stable d \<Longrightarrow> crash (run (take k (save x)) d) d' \<Longrightarrow>
      stable d' \<and> (load d' = load d \<or> load d' = Some x)"
    and reading: "stable d \<Longrightarrow> load (run (take k (save x)) d) \<in> {load d, Some x}"
begin

fun save_all :: "'a list \<Rightarrow> fstate \<Rightarrow> fstate" where
  "save_all [] d = d"
| "save_all (x # xs) d = save_all xs (run (save x) d)"

lemma save_all_last:
  "stable d \<Longrightarrow> stable (save_all xs d) \<and> load (save_all xs d) = (if xs = [] then load d else Some (last xs))"
proof (induction xs arbitrary: d)
  case Nil
  then show ?case by simp
next
  case (Cons x xs)
  with saved [of d x] show ?case by simp
qed

text \<open>A crash during the save of \<open>x\<close>, after the saves of \<open>xs\<close>: the last one or \<open>x\<close>.\<close>

lemma crash_during:
  assumes "stable d" "crash (run (take k (save x)) (save_all xs d)) d'"
  shows "stable d' \<and> load d' \<in> {if xs = [] then load d else Some (last xs), Some x}"
  using crashed [OF _ assms(2)] save_all_last [OF assms(1), of xs] by auto

end

definition atomic_write :: "string \<Rightarrow> string \<Rightarrow> bytes \<Rightarrow> fs_op list" where
  "atomic_write tmp p b = [OpenTrunc tmp, WriteAll tmp b, SyncAll tmp, Rename tmp p]"

lemma take_atomic_write:
  "take k (atomic_write tmp p b) \<in>
     {[], [OpenTrunc tmp], [OpenTrunc tmp, WriteAll tmp b], [OpenTrunc tmp, WriteAll tmp b, SyncAll tmp],
      atomic_write tmp p b}"
  by (cases k; cases "k - 1"; cases "k - 2"; cases "k - 3")
     (auto simp: atomic_write_def numeral_eq_Suc take_Cons' split: if_splits)

lemma run_atomic_write:
  assumes "tmp \<noteq> p"
  shows "run (atomic_write tmp p b) d = d(tmp := None, p \<mapsto> Stored b True)"
  using assms by (auto simp: atomic_write_def fun_eq_iff)

lemma atomic_write_prefix:
  assumes "tmp \<noteq> p"
  shows "run (take k (atomic_write tmp p b)) d p \<in> {d p, Some (Stored b True)}"
  using take_atomic_write [of k tmp p b] assms
  by (auto simp: run_atomic_write)

lemma crash_safe_atomic_write:
  assumes "tmp \<noteq> p"
  shows "crash_safe (atomic_write tmp p) (contents p) (settled p)"
proof
  fix d x k d'
  assume st: "settled p d"
  show "contents p (run (atomic_write tmp p x) d) = Some x \<and> settled p (run (atomic_write tmp p x) d)"
    using assms by (simp add: run_atomic_write contents_def settled_def)
  have pre: "run (take k (atomic_write tmp p x)) d p \<in> {d p, Some (Stored x True)}"
    using assms by (rule atomic_write_prefix)
  then show "contents p (run (take k (atomic_write tmp p x)) d) \<in> {contents p d, Some x}"
    by (auto simp: contents_def)
  assume cr: "crash (run (take k (atomic_write tmp p x)) d) d'"
  have "settled p (run (take k (atomic_write tmp p x)) d)"
    using pre st by (auto simp: settled_def)
  with crash_settled [OF cr, of p] pre
  show "settled p d' \<and> (contents p d' = contents p d \<or> contents p d' = Some x)"
    by (auto simp: contents_def)
qed

text \<open>Writing in place, as \<open>tokio::fs::write\<close> does, has no such guarantee.\<close>

definition plain_write :: "string \<Rightarrow> bytes \<Rightarrow> fs_op list" where
  "plain_write p b = [OpenTrunc p, WriteAll p b]"

lemma plain_write_loses: "crash (run (take 1 (plain_write p b)) d) (d(p \<mapsto> Stored [] True))
    \<longleftrightarrow> (\<forall>q. q \<noteq> p \<longrightarrow> settled q d)"
  by (auto simp: crash_def plain_write_def settled_def split: option.splits stored.splits bool.splits)

section \<open>Names of temporary files\<close>

definition sibling_path :: "string \<Rightarrow> string \<Rightarrow> string" where
  "sibling_path p suffix = p @ suffix"

lemma sibling_path_ne: "suffix \<noteq> [] \<Longrightarrow> sibling_path p suffix \<noteq> p"
  by (simp add: sibling_path_def)

interpretation sibling_store: crash_safe "atomic_write (sibling_path p ''.tmp'') p" "contents p" "settled p" for p
  by (rule crash_safe_atomic_write) (simp add: sibling_path_ne)

end
