(* ===== verification/Known_Peers.thy ===== *)
theory Known_Peers
  imports File_Store Wire_Protocol "HOL-Library.Mapping" "HOL-Library.Char_ord" "HOL-Library.List_Lexorder"
begin

text \<open>
  \<open>p2p-core/src/known_peers.rs\<close>: the file-backed set of trusted fingerprints. The \<open>BTreeMap\<close> is a
  \<open>mapping\<close> from the hexadecimal fingerprint, listed in the order of the keys; the JSON text and
  \<open>hex::encode\<close> are parameters. The contract is a plain set of fingerprints that survives reopening
  the file.
\<close>

record peer_record =
  pr_display_name :: string
  pr_first_seen :: u64
  pr_last_seen :: u64

type_synonym store = "(string, peer_record) mapping"

record known_peers =
  kn_path :: string
  kn_store :: store

record kp_libs =
  hex_encode :: "fingerprint \<Rightarrow> string"
  store_to_json :: "store \<Rightarrow> string + bytes"
  store_of_json :: "bytes \<Rightarrow> string + store"

definition kp_libs_ok :: "kp_libs \<Rightarrow> bool" where
  "kp_libs_ok l \<longleftrightarrow> inj (hex_encode l) \<and>
     (\<forall>s b. store_to_json l s = Inr b \<longrightarrow> store_of_json l b = Inr s)"

text \<open>The name of the temporary file, beside the store.\<close>

definition set_file_name :: "string \<Rightarrow> string \<Rightarrow> string" where
  "set_file_name p name =
     (case file_name p of
        None \<Rightarrow> push p name
      | Some w \<Rightarrow> push (unwrap_or (parent p) []) name)"

definition store_tmp :: "string \<Rightarrow> string" where
  "store_tmp p = set_file_name p (unwrap_or (file_name p) [] @ ''.tmp'')"

definition known_open :: "kp_libs \<Rightarrow> string \<Rightarrow> fstate \<Rightarrow> known_peers result" where
  "known_open l path d =
     (case contents path d of
        Some b \<Rightarrow>
          (case store_of_json l b of
             Inl e \<Rightarrow> Inl (Other (''known_peers.json parse: '' @ e))
           | Inr s \<Rightarrow> Inr \<lparr> kn_path = path, kn_store = s \<rparr>)
      | None \<Rightarrow> Inr \<lparr> kn_path = path, kn_store = Mapping.empty \<rparr>)"

definition known_default_path :: "string option \<Rightarrow> string result" where
  "known_default_path config_dir =
     (case config_dir of
        None \<Rightarrow> Inl (Other ''no config directory for known_peers.json'')
      | Some base \<Rightarrow> Inr (join (join base ''p2p-transfer'') ''known_peers.json''))"

definition open_default :: "kp_libs \<Rightarrow> string option \<Rightarrow> fstate \<Rightarrow> known_peers result" where
  "open_default l config_dir d = rbind (known_default_path config_dir) (\<lambda>path. known_open l path d)"

definition known_get :: "kp_libs \<Rightarrow> fingerprint \<Rightarrow> known_peers \<Rightarrow> peer_record option" where
  "known_get l fp k = Mapping.lookup (kn_store k) (hex_encode l fp)"

type_synonym kp_state = "known_peers \<times> fstate"

text \<open>The memory is changed first; a failed flush leaves it ahead of the file.\<close>

definition flush :: "kp_libs \<Rightarrow> (kp_state, error, unit) proc" where
  "flush l = (\<lambda>(k, d).
     case store_to_json l (kn_store k) of
       Inl e \<Rightarrow> (Inl (Other (''known_peers.json serialize: '' @ e)), (k, d))
     | Inr b \<Rightarrow> (Inr (), (k, run (atomic_write (store_tmp (kn_path k)) (kn_path k) b) d)))"

definition trust_record :: "u64 \<Rightarrow> string \<Rightarrow> peer_record option \<Rightarrow> peer_record" where
  "trust_record now name old =
     (let entry = unwrap_or old \<lparr> pr_display_name = name, pr_first_seen = now, pr_last_seen = now \<rparr>;
          entry1 = entry\<lparr> pr_last_seen := now \<rparr>
      in if name \<noteq> [] then entry1\<lparr> pr_display_name := name \<rparr> else entry1)"

definition trust :: "kp_libs \<Rightarrow> u64 \<Rightarrow> fingerprint \<Rightarrow> string \<Rightarrow> (kp_state, error, unit) proc" where
  "trust l now fp name = (\<lambda>(k, d).
     flush l (k\<lparr> kn_store := Mapping.update (hex_encode l fp)
                  (trust_record now name (known_get l fp k)) (kn_store k) \<rparr>, d))"

definition verify_or_pin ::
  "kp_libs \<Rightarrow> u64 \<Rightarrow> fingerprint \<Rightarrow> fingerprint \<Rightarrow> string \<Rightarrow> (kp_state, error, unit) proc" where
  "verify_or_pin l now claimed presented name = (\<lambda>(k, d).
     if claimed \<noteq> presented then (Inl FingerprintMismatch, (k, d))
     else case known_get l claimed k of
            None \<Rightarrow> trust l now claimed name (k, d)
          | Some r \<Rightarrow> trust l now claimed name (k, d))"

definition known_forget :: "kp_libs \<Rightarrow> fingerprint \<Rightarrow> (kp_state, error, unit) proc" where
  "known_forget l fp = (\<lambda>(k, d).
     flush l (k\<lparr> kn_store := Mapping.delete (hex_encode l fp) (kn_store k) \<rparr>, d))"

definition known_list :: "known_peers \<Rightarrow> (string \<times> peer_record) list" where
  "known_list k = map (\<lambda>x. (x, the (Mapping.lookup (kn_store k) x))) (Mapping.ordered_keys (kn_store k))"

section \<open>The temporary name\<close>

lemma store_tmp_ne: "store_tmp p \<noteq> p"
proof (cases "file_name p")
  case None
  have pl: "plain ''.tmp''" by (simp add: plain_def)
  have "components (store_tmp p) = components p @ [Normal ''.tmp'']"
    using components_push_plain [OF pl, of p] None by (simp add: store_tmp_def set_file_name_def unwrap_or_def)
  then show ?thesis by (metis append_self_conv not_Cons_self2)
next
  case (Some w)
  obtain b where b: "parent p = Some b" "components p = components b @ [Normal w]" "plain w"
    using file_name_parent [OF Some] by blast
  have pl: "plain (w @ ''.tmp'')" using b(3) by (auto simp: plain_def)
  have "components (store_tmp p) = components b @ [Normal (w @ ''.tmp'')]"
    using components_push_plain [OF pl, of b] Some b(1) by (simp add: store_tmp_def set_file_name_def unwrap_or_def)
  with b(2) show ?thesis by (metis append_self_conv component.inject list.distinct(1) list.inject same_append_eq)
qed

interpretation known_file: crash_safe "atomic_write (store_tmp p) p" "contents p" "settled p" for p
  by (rule crash_safe_atomic_write [OF store_tmp_ne])

section \<open>The contract: a set of fingerprints\<close>

datatype kp_op = Trust fingerprint string | Verify fingerprint fingerprint string | Forget fingerprint

fun kp_step :: "kp_libs \<Rightarrow> u64 \<Rightarrow> kp_op \<Rightarrow> (kp_state, error, unit) proc" where
  "kp_step l now (Trust fp name) = trust l now fp name"
| "kp_step l now (Verify c p name) = verify_or_pin l now c p name"
| "kp_step l now (Forget fp) = known_forget l fp"

fun set_step :: "kp_op \<Rightarrow> fingerprint set \<Rightarrow> fingerprint set" where
  "set_step (Trust fp name) A = insert fp A"
| "set_step (Verify c p name) A = (if c = p then insert c A else A)"
| "set_step (Forget fp) A = A - {fp}"

definition trusted :: "kp_libs \<Rightarrow> known_peers \<Rightarrow> fingerprint set" where
  "trusted l k = {fp. known_get l fp k \<noteq> None}"

text \<open>The file, if it has been written, holds what is in memory, and has reached the disk.\<close>

definition in_sync :: "kp_libs \<Rightarrow> kp_state \<Rightarrow> bool" where
  "in_sync l s \<longleftrightarrow> settled (kn_path (fst s)) (snd s) \<and> known_open l (kn_path (fst s)) (snd s) = Inr (fst s)"

fun kp_run :: "kp_libs \<Rightarrow> (u64 \<times> kp_op) list \<Rightarrow> kp_state \<Rightarrow> kp_state" where
  "kp_run l [] s = s"
| "kp_run l ((now, x) # xs) s = kp_run l xs (snd (kp_step l now x s))"

text \<open>No operation of the sequence failed to write the file.\<close>

fun all_saved :: "kp_libs \<Rightarrow> (u64 \<times> kp_op) list \<Rightarrow> kp_state \<Rightarrow> bool" where
  "all_saved l [] s \<longleftrightarrow> True"
| "all_saved l ((now, x) # xs) s \<longleftrightarrow>
     fst (kp_step l now x s) \<in> {Inr (), Inl FingerprintMismatch} \<and> all_saved l xs (snd (kp_step l now x s))"

lemma flush_sync:
  assumes "kp_libs_ok l" "flush l (k, d) = (Inr u, s')" "settled (kn_path k) d"
  shows "in_sync l s' \<and> fst s' = k"
proof -
  obtain b where b: "store_to_json l (kn_store k) = Inr b" "s' = (k, run (atomic_write (store_tmp (kn_path k)) (kn_path k) b) d)"
    using assms(2) by (auto simp: flush_def split: sum.splits)
  have "store_of_json l b = Inr (kn_store k)" using assms(1) b(1) by (simp add: kp_libs_ok_def)
  moreover note known_file.saved [OF assms(3), of b]
  ultimately show ?thesis by (simp add: b(2) in_sync_def known_open_def)
qed

lemma get_update:
  "inj (hex_encode l) \<Longrightarrow> known_get l fp (k\<lparr> kn_store := Mapping.update (hex_encode l g) r (kn_store k) \<rparr>) =
     (if fp = g then Some r else known_get l fp k)"
  by (auto simp: known_get_def lookup_update' inj_eq)

lemma get_delete:
  "inj (hex_encode l) \<Longrightarrow> known_get l fp (k\<lparr> kn_store := Mapping.delete (hex_encode l g) (kn_store k) \<rparr>) =
     (if fp = g then None else known_get l fp k)"
  by (auto simp: known_get_def Mapping.lookup_delete lookup_delete_neq inj_eq)

lemma verify_eq: "verify_or_pin l now c p name = (\<lambda>s. if c = p then trust l now c name s else (Inl FingerprintMismatch, s))"
  by (auto simp: verify_or_pin_def fun_eq_iff split: option.splits)

lemma flush_result: "fst (flush l s) \<noteq> Inl FingerprintMismatch" "fst (snd (flush l s)) = fst s"
  by (auto simp: flush_def split: prod.splits sum.splits)

lemma kp_step_ok:
  assumes "kp_libs_ok l" "fst (kp_step l now x s) \<in> {Inr (), Inl FingerprintMismatch}" "in_sync l s"
  shows "in_sync l (snd (kp_step l now x s)) \<and>
    trusted l (fst (snd (kp_step l now x s))) = set_step x (trusted l (fst s)) \<and>
    kn_path (fst (snd (kp_step l now x s))) = kn_path (fst s)"
proof -
  obtain k d where s: "s = (k, d)" by fastforce
  have inj: "inj (hex_encode l)" using assms(1) by (simp add: kp_libs_ok_def)
  have st: "settled (kn_path k) d" using assms(3) by (simp add: s in_sync_def)
  have fl: "in_sync l (snd (flush l (k', d))) \<and> fst (snd (flush l (k', d))) = k'"
    if "kn_path k' = kn_path k" "fst (flush l (k', d)) \<in> {Inr (), Inl FingerprintMismatch}" for k'
  proof -
    have "fst (flush l (k', d)) = Inr ()" using that(2) flush_result(1) by auto
    then obtain s' where "flush l (k', d) = (Inr (), s')" by (metis prod.collapse)
    with flush_sync [OF assms(1) this] st that(1) show ?thesis by simp
  qed
  have tr: "in_sync l (snd (trust l now fp name s)) \<and>
      trusted l (fst (snd (trust l now fp name s))) = insert fp (trusted l k) \<and>
      kn_path (fst (snd (trust l now fp name s))) = kn_path k"
    if "fst (trust l now fp name s) \<in> {Inr (), Inl FingerprintMismatch}" for fp name
    using fl that by (auto simp: s trust_def trusted_def get_update [OF inj])
  show ?thesis
  proof (cases x)
    case (Trust fp name)
    with tr assms(2) show ?thesis by (simp add: s)
  next
    case (Verify c p name)
    with tr [of c name] assms(2,3) show ?thesis by (auto simp: s verify_eq)
  next
    case (Forget fp)
    with fl assms(2) show ?thesis by (auto simp: s known_forget_def trusted_def get_delete [OF inj])
  qed
qed

lemma kp_run_ok:
  "kp_libs_ok l \<Longrightarrow> all_saved l xs s \<Longrightarrow> in_sync l s \<Longrightarrow>
     in_sync l (kp_run l xs s) \<and> kn_path (fst (kp_run l xs s)) = kn_path (fst s) \<and>
     trusted l (fst (kp_run l xs s)) = fold (\<lambda>(now, x). set_step x) xs (trusted l (fst s))"
proof (induction l xs s rule: kp_run.induct)
  case (1 l s)
  then show ?case by simp
next
  case (2 l now x xs s)
  then have "fst (kp_step l now x s) \<in> {Inr (), Inl FingerprintMismatch}"
      "all_saved l xs (snd (kp_step l now x s))" by simp_all
  with 2 kp_step_ok [OF 2(2) _ 2(4), of now x] show ?case by simp
qed


text \<open>
  Verification fails with a fingerprint mismatch exactly when the
  presented fingerprint is not the claimed one, and then changes nothing; when they are equal its
  result does not depend on what the store holds for the peer: once saved, the peer is known, the
  time it was first seen is kept, and no other peer's record changes. The store is never compared
  with what a peer presents, so a peer whose identity changed is simply pinned as a new one.
\<close>

lemma pinning_never_compares:
  assumes "kp_libs_ok l" "verify_or_pin l now claimed presented name (k, d) = (res, (k', d'))"
  shows "(res = Inl FingerprintMismatch \<longleftrightarrow> claimed \<noteq> presented) \<and>
    (if claimed \<noteq> presented then k' = k \<and> d' = d
     else (\<exists>r. known_get l claimed k' = Some r \<and> pr_last_seen r = now \<and>
          pr_first_seen r = (case known_get l claimed k of None \<Rightarrow> now | Some old \<Rightarrow> pr_first_seen old)) \<and>
       (\<forall>fp. fp \<noteq> claimed \<longrightarrow> known_get l fp k' = known_get l fp k))"
proof (cases "claimed = presented")
  case False
  with assms(2) show ?thesis by (simp add: verify_eq)
next
  case True
  have inj: "inj (hex_encode l)" using assms(1) by (simp add: kp_libs_ok_def)
  let ?r = "trust_record now name (known_get l claimed k)"
  let ?k = "k\<lparr> kn_store := Mapping.update (hex_encode l claimed) ?r (kn_store k) \<rparr>"
  have fl: "flush l (?k, d) = (res, (k', d'))"
    using assms(2) True by (simp add: verify_eq trust_def)
  have k': "k' = ?k" using flush_result(2) [of l "(?k, d)"] fl by simp
  have "res \<noteq> Inl FingerprintMismatch" using flush_result(1) [of l "(?k, d)"] fl by simp
  moreover have "pr_last_seen ?r = now \<and>
      pr_first_seen ?r = (case known_get l claimed k of None \<Rightarrow> now | Some old \<Rightarrow> pr_first_seen old)"
    by (auto simp: trust_record_def Let_def unwrap_or_def split: option.splits)
  ultimately show ?thesis
    using True get_update [OF inj] k' by simp
qed

section \<open>A store of two states\<close>

definition demo_peer :: peer_record where
  "demo_peer = \<lparr> pr_display_name = ''a'', pr_first_seen = 5, pr_last_seen = 5 \<rparr>"

definition demo_store :: store where
  "demo_store = Mapping.update (hex_serialize 1) demo_peer Mapping.empty"

definition demo_libs :: kp_libs where
  "demo_libs = \<lparr> hex_encode = hex_serialize,
     store_to_json = (\<lambda>s. if s = demo_store then Inr [1] else Inl ''no''),
     store_of_json = (\<lambda>b. if b = [1] then Inr demo_store else Inl ''no'') \<rparr>"

lemma demo_libs_ok: "kp_libs_ok demo_libs"
  using hex.enc_inj by (auto simp: kp_libs_ok_def demo_libs_def split: if_splits)

lemma demo_step:
  "kp_step demo_libs 5 (Verify 1 1 ''a'') (\<lparr> kn_path = ''k'', kn_store = Mapping.empty \<rparr>, Map.empty) =
     (Inr (), (\<lparr> kn_path = ''k'', kn_store = demo_store \<rparr>,
        run (atomic_write (store_tmp ''k'') ''k'' [1]) Map.empty))"
  by (simp add: verify_eq trust_def known_get_def lookup_empty trust_record_def unwrap_or_def Let_def
      flush_def demo_libs_def demo_store_def demo_peer_def)


lemma pinning_never_compares_witness:
  "\<exists>r. known_get demo_libs 1 \<lparr> kn_path = ''k'', kn_store = demo_store \<rparr> = Some r \<and> pr_last_seen r = 5"
proof -
  have "verify_or_pin demo_libs 5 1 1 ''a'' (\<lparr> kn_path = ''k'', kn_store = Mapping.empty \<rparr>, Map.empty) =
     (Inr (), (\<lparr> kn_path = ''k'', kn_store = demo_store \<rparr>,
        run (atomic_write (store_tmp ''k'') ''k'' [1]) Map.empty))"
    using demo_step by simp
  from pinning_never_compares [OF demo_libs_ok this] show ?thesis by auto
qed

end
