(* ===== verification/Progress.thy ===== *)
theory Progress
  imports P2P_Prelude
begin

text \<open>
  \<open>p2p-core/src/progress.rs\<close>: the byte counters of a transfer and the state of the progress bar
  they drive. Of the \<open>indicatif\<close> bar what the code sets is kept: its length, its position, whether
  it is drawn, and the message it finished with. Redrawing (\<open>tick\<close>, the elapsed clock) is not
  modelled. A percentage is an exact rational instead of an \<open>f64\<close>.
\<close>

record progress_bar =
  pb_length :: u64
  pb_position :: u64
  pb_visible :: bool
  pb_message :: "string option"

record progress_state =
  ps_total_bytes :: u64
  ps_transferred_bytes :: u64
  ps_bar :: progress_bar

definition progress_new :: "u64 \<Rightarrow> progress_state" where
  "progress_new total_bytes =
     \<lparr> ps_total_bytes = total_bytes, ps_transferred_bytes = 0,
       ps_bar = \<lparr> pb_length = total_bytes, pb_position = 0, pb_visible = (total_bytes \<noteq> 0),
                  pb_message = None \<rparr> \<rparr>"

definition add_bytes :: "u64 \<Rightarrow> progress_state \<Rightarrow> progress_state" where
  "add_bytes n p =
     (let moved = ps_transferred_bytes p + n
      in p\<lparr> ps_transferred_bytes := moved, ps_bar := (ps_bar p)\<lparr> pb_position := moved \<rparr> \<rparr>)"

definition set_total_bytes :: "u64 \<Rightarrow> progress_state \<Rightarrow> progress_state" where
  "set_total_bytes n p =
     (if ps_total_bytes p = n then p
      else
        let bar = (if ps_total_bytes p = 0 \<and> n > 0 then (ps_bar p)\<lparr> pb_visible := True \<rparr> else ps_bar p)
        in p\<lparr> ps_total_bytes := n, ps_bar := bar\<lparr> pb_length := n \<rparr> \<rparr>)"

definition finish :: "progress_state \<Rightarrow> progress_state" where
  "finish p = p\<lparr> ps_bar := (ps_bar p)\<lparr> pb_message := Some ''Transfer complete!'' \<rparr> \<rparr>"

definition progress_percent :: "progress_state \<Rightarrow> rat" where
  "progress_percent p =
     (if ps_total_bytes p > 0
      then of_nat (unat (ps_transferred_bytes p)) / of_nat (unat (ps_total_bytes p)) * 100 else 0)"

definition progress_is_complete :: "progress_state \<Rightarrow> bool" where
  "progress_is_complete p \<longleftrightarrow> ps_transferred_bytes p \<ge> ps_total_bytes p"

section \<open>The bar shows the counters\<close>

definition bar_ok :: "progress_state \<Rightarrow> bool" where
  "bar_ok p \<longleftrightarrow> pb_length (ps_bar p) = ps_total_bytes p \<and>
     pb_position (ps_bar p) = ps_transferred_bytes p \<and>
     (ps_total_bytes p \<noteq> 0 \<longrightarrow> pb_visible (ps_bar p))"

lemma bar_ok_new: "bar_ok (progress_new n)"
  by (simp add: bar_ok_def progress_new_def)

lemma bar_ok_add: "bar_ok p \<Longrightarrow> bar_ok (add_bytes n p)"
  by (simp add: bar_ok_def add_bytes_def Let_def)

lemma bar_ok_set: "bar_ok p \<Longrightarrow> bar_ok (set_total_bytes n p)"
  by (auto simp: bar_ok_def set_total_bytes_def Let_def word_gt_0)

lemma bar_ok_finish: "bar_ok p \<Longrightarrow> bar_ok (finish p)"
  by (simp add: bar_ok_def finish_def)

lemma add_bytes_fold:
  "ps_transferred_bytes (fold add_bytes ns p) = ps_transferred_bytes p + sum_list ns"
proof (induction ns arbitrary: p)
  case Nil
  then show ?case by simp
next
  case (Cons n ns)
  then show ?case by (simp add: add_bytes_def Let_def)
qed

lemma total_fold [simp]: "ps_total_bytes (fold add_bytes ns p) = ps_total_bytes p"
  by (induction ns arbitrary: p) (simp_all add: add_bytes_def Let_def)

lemma bar_ok_fold: "bar_ok p \<Longrightarrow> bar_ok (fold add_bytes ns p)"
  by (induction ns arbitrary: p) (simp_all add: bar_ok_add)

text \<open>
  A progress state created before the total is known, told the total and then
  the sizes of the pieces, shows on its bar what the counters say; it is complete exactly when the
  bytes add up to the total, provided they do not exceed it.
\<close>

lemma progress_complete:
  assumes "sum_list (map unat ns) \<le> unat n"
  shows "let p = fold add_bytes ns (set_total_bytes n (progress_new 0)) in
     bar_ok p \<and> ps_total_bytes p = n \<and> unat (ps_transferred_bytes p) = sum_list (map unat ns) \<and>
     (progress_is_complete p \<longleftrightarrow> sum_list (map unat ns) = unat n)"
proof -
  have unat_sum: "unat (sum_list ms :: u64) = sum_list (map unat ms)"
    if "sum_list (map unat ms) \<le> unat n" for ms
    using that
  proof (induction ms)
    case Nil
    then show ?case by simp
  next
    case (Cons m ms)
    then have "unat (sum_list ms) = sum_list (map unat ms)" by simp
    moreover have "unat m + sum_list (map unat ms) < 2 ^ 64"
      using Cons.prems unsigned_less [of n, where 'a = nat] by simp
    ultimately show ?case using unat_u64_add [of m "sum_list ms"] by simp
  qed
  let ?p0 = "set_total_bytes n (progress_new 0)"
  have p0: "ps_total_bytes ?p0 = n" "ps_transferred_bytes ?p0 = 0"
    by (auto simp: set_total_bytes_def progress_new_def Let_def)
  have "unat (ps_transferred_bytes (fold add_bytes ns ?p0)) = sum_list (map unat ns)"
    using unat_sum [OF assms] by (simp add: add_bytes_fold p0)
  then show ?thesis
    using assms p0 bar_ok_fold [OF bar_ok_set [OF bar_ok_new]]
    by (auto simp: Let_def progress_is_complete_def word_le_nat_alt)
qed

lemma progress_complete_witness:
  "progress_is_complete (fold add_bytes [250, 750] (set_total_bytes 1000 (progress_new 0)))"
  using progress_complete [of "[250, 750]" 1000] by (simp add: Let_def)

end
