(* ===== verification/Connection.thy ===== *)
theory Connection
  imports Framing
begin

text \<open>
  The control stream of \<open>QuicConnection\<close> (\<open>p2p-core/src/network/quic.rs\<close>): a sending and a
  receiving half, the certificate fingerprint TLS observed, and messages framed over them. Of
  quinn only what a stream is remains: bytes in order. The MessagePack serializer is a parameter.
\<close>

record rmp =
  to_vec :: "message \<Rightarrow> string + bytes"
  from_slice :: "bytes \<Rightarrow> string + message"

definition rmp_ok :: "rmp \<Rightarrow> bool" where
  "rmp_ok c \<longleftrightarrow> (\<forall>m p. to_vec c m = Inr p \<longrightarrow> from_slice c p = Inr m)"

record connection =
  cn_send :: writer
  cn_recv :: reader
  cn_peer_addr :: socket_addr
  cn_peer_fingerprint :: "fingerprint option"

definition on_send :: "(writer, 'e, 'a) proc \<Rightarrow> (connection, 'e, 'a) proc" where
  "on_send p = (\<lambda>c. case p (cn_send c) of (res, w) \<Rightarrow> (res, c\<lparr> cn_send := w \<rparr>))"

definition on_recv :: "(reader, 'e, 'a) proc \<Rightarrow> (connection, 'e, 'a) proc" where
  "on_recv p = (\<lambda>c. case p (cn_recv c) of (res, r) \<Rightarrow> (res, c\<lparr> cn_recv := r \<rparr>))"

text \<open>
  Priming the control stream: the initiator writes the magic, which wakes the responder up, and
  the responder consumes it.
\<close>

definition open_control_initiator :: "(connection, error, unit) proc" where
  "open_control_initiator =
     on_send (map_err (\<lambda>e. Quic (''control stream prime: '' @ io_text e)) (write_all PROTOCOL_MAGIC))"

definition open_control_responder :: "(connection, error, unit) proc" where
  "open_control_responder =
     andthen (on_recv (map_err (\<lambda>e. Quic (''control stream prime read: '' @ io_text e)) (read_exact 4))) (\<lambda>magic.
       if magic \<noteq> PROTOCOL_MAGIC
       then fail (Protocol (''control stream priming magic mismatch: got ['' @ debug_items magic @ '']''))
       else ret ())"

definition send_message :: "rmp \<Rightarrow> message \<Rightarrow> (connection, error, unit) proc" where
  "send_message c m = on_send (write_message (to_vec c) m)"

definition recv_message :: "rmp \<Rightarrow> (connection, error, message) proc" where
  "recv_message c = on_recv (read_message (from_slice c))"

section \<open>What has been written and what is still to be read\<close>

text \<open>\<open>sends_frames c ms p\<close>: \<open>ms\<close> are messages the framing accepts and \<open>p\<close> is their wire form.\<close>

definition wire_of :: "rmp \<Rightarrow> message \<Rightarrow> bytes" where
  "wire_of c m = (case to_vec c m of Inr p \<Rightarrow> frame_of p | Inl _ \<Rightarrow> [])"

definition sendable :: "rmp \<Rightarrow> message \<Rightarrow> bool" where
  "sendable c m \<longleftrightarrow> (\<exists>p. to_vec c m = Inr p \<and> fits p)"

lemma send_message_ok:
  assumes "sendable rc m" "wr_fail (cn_send c) = None"
  shows "send_message rc m c =
    (Inr (), c\<lparr> cn_send := \<lparr> wr_out = wr_out (cn_send c) @ wire_of rc m, wr_fail = None \<rparr> \<rparr>)"
proof -
  obtain p where p: "to_vec rc m = Inr p" "fits p" using assms(1) by (auto simp: sendable_def)
  have "cn_send c = \<lparr> wr_out = wr_out (cn_send c), wr_fail = None \<rparr>"
    using assms(2) by simp
  then have "write_message (to_vec rc) m (cn_send c) =
      (Inr (), \<lparr> wr_out = wr_out (cn_send c) @ frame_of p, wr_fail = None \<rparr>)"
    using write_message_Inr [of "to_vec rc" m p, OF p] by metis
  with p show ?thesis by (simp add: send_message_def on_send_def wire_of_def)
qed

lemma recv_message_ok:
  assumes "rmp_ok rc" "sendable rc m" "rd_bytes (cn_recv c) = wire_of rc m @ rest"
  shows "recv_message rc c = (Inr m, c\<lparr> cn_recv := \<lparr> rd_bytes = rest, rd_end = rd_end (cn_recv c) \<rparr> \<rparr>)"
proof -
  obtain p where p: "to_vec rc m = Inr p" "fits p" using assms(2) by (auto simp: sendable_def)
  have "from_slice rc p = Inr m" using assms(1) p(1) by (simp add: rmp_ok_def)
  moreover have "cn_recv c = \<lparr> rd_bytes = frame_of p @ rest, rd_end = rd_end (cn_recv c) \<rparr>"
    using assms(3) p(1) by (simp add: wire_of_def)
  ultimately show ?thesis
    using read_message_frame [OF p(2), of "from_slice rc" m rest "rd_end (cn_recv c)"]
    by (simp add: recv_message_def on_recv_def)
qed

lemma send_message_Inr:
  assumes "send_message rc m c = (Inr u, c')"
  shows "sendable rc m \<and> wr_fail (cn_send c) = None \<and>
    c' = c\<lparr> cn_send := \<lparr> wr_out = wr_out (cn_send c) @ wire_of rc m, wr_fail = None \<rparr> \<rparr>"
proof -
  obtain p where p: "to_vec rc m = Inr p"
    using assms by (cases "to_vec rc m") (auto simp: send_message_def on_send_def write_message_def)
  have "fits p"
    using assms write_message_too_large [of "to_vec rc", OF p, of "cn_send c"]
    by (cases "fits p") (auto simp: send_message_def on_send_def)
  moreover have "wr_fail (cn_send c) = None"
    using assms p \<open>fits p\<close>
    by (auto simp: send_message_def on_send_def write_message_def fits_def map_err_apply write_all_def
        andthen_apply Let_def split: prod.splits option.splits)
  ultimately show ?thesis
    using p send_message_ok [of rc m c] assms by (auto simp: sendable_def)
qed

lemma send_message_frame:
  "send_message rc m c = (res, c') \<Longrightarrow>
     cn_peer_fingerprint c' = cn_peer_fingerprint c \<and> cn_recv c' = cn_recv c \<and>
     cn_peer_addr c' = cn_peer_addr c"
  by (auto simp: send_message_def on_send_def split: prod.splits)

lemma recv_message_frame:
  "recv_message rc c = (res, c') \<Longrightarrow>
     cn_peer_fingerprint c' = cn_peer_fingerprint c \<and> cn_send c' = cn_send c \<and>
     cn_peer_addr c' = cn_peer_addr c"
  by (auto simp: recv_message_def on_recv_def split: prod.splits)

text \<open>
  The priming of the two ends fits together: what the initiator writes
  the responder accepts, leaving the stream at the first message; any other four bytes are
  refused.
\<close>

lemma control_stream_primed:
  assumes "open_control_initiator ci = (Inr (), ci')" "wr_out (cn_send ci) = []"
    and "rd_bytes (cn_recv cr) = b @ rest" "length b = 4"
  shows "(b = wr_out (cn_send ci') \<longrightarrow> (\<exists>cr'. open_control_responder cr = (Inr (), cr') \<and> rd_bytes (cn_recv cr') = rest)) \<and>
         (b \<noteq> wr_out (cn_send ci') \<longrightarrow> (\<exists>e cr'. open_control_responder cr = (Inl e, cr') \<and> is_protocol e))"
proof -
  have out: "wr_out (cn_send ci') = PROTOCOL_MAGIC"
    using assms(1,2)
    by (auto simp: open_control_initiator_def on_send_def map_err_apply write_all_def
        split: prod.splits option.splits)
  have "cn_recv cr = \<lparr> rd_bytes = b @ rest, rd_end = rd_end (cn_recv cr) \<rparr>"
    using assms(3) by simp
  then have rd: "map_err f (read_exact 4) (cn_recv cr) = (Inr b, \<lparr> rd_bytes = rest, rd_end = rd_end (cn_recv cr) \<rparr>)"
    for f :: "io_error \<Rightarrow> error"
    using map_err_read_exact_append [OF assms(4)] by metis
  show ?thesis
    by (auto simp: open_control_responder_def on_recv_def andthen_apply rd out)
qed

lemma control_stream_primed_witness:
  "\<exists>cr'. open_control_responder \<lparr> cn_send = \<lparr> wr_out = [], wr_fail = None \<rparr>,
       cn_recv = \<lparr> rd_bytes = PROTOCOL_MAGIC @ [1], rd_end = None \<rparr>,
       cn_peer_addr = SocketAddr (V4 0) 0, cn_peer_fingerprint = None \<rparr> = (Inr (), cr') \<and>
     rd_bytes (cn_recv cr') = [1]"
proof -
  let ?c = "\<lparr> cn_send = \<lparr> wr_out = [], wr_fail = None \<rparr>,
       cn_recv = \<lparr> rd_bytes = PROTOCOL_MAGIC @ [1], rd_end = None \<rparr>,
       cn_peer_addr = SocketAddr (V4 0) 0, cn_peer_fingerprint = None \<rparr>"
  have i: "open_control_initiator ?c = (Inr (), ?c\<lparr> cn_send := \<lparr> wr_out = PROTOCOL_MAGIC, wr_fail = None \<rparr> \<rparr>)"
    by (simp add: open_control_initiator_def on_send_def map_err_apply write_all_def)
  have "length PROTOCOL_MAGIC = 4" by (simp add: PROTOCOL_MAGIC_def)
  with control_stream_primed [OF i, of ?c PROTOCOL_MAGIC "[1]"] show ?thesis by simp
qed

end
