(* ===== verification/Folder_Transfer.thy ===== *)
theory Folder_Transfer
  imports Folder_Scan Progress Resume_State Connection
begin

text \<open>
  \<open>FolderTransferSession\<close> of \<open>p2p-core/src/transfer_folder.rs\<close>: the manifest exchange, the files
  one after another over the chunk streams of \<open>Chunk_File\<close>, the checksum exchange after each, and
  the resume record kept up to date on the way. A session's state holds the connection, the fields
  of the struct, what the caller lent it (resume record, progress), the streams opened or still to
  be accepted, and the disk. The clock advances only where the code waits (the bandwidth limiter).
  What the session logs is not modelled, nor the floating-point figures of the log.
\<close>

section \<open>Types\<close>

record transfer_summary =
  sum_root_name :: string
  sum_files :: "string list"
  sum_bytes :: u64

definition summary_default :: transfer_summary where
  "summary_default = \<lparr> sum_root_name = '''', sum_files = [], sum_bytes = 0 \<rparr>"

datatype accept_decision = Accept | Reject

record folder_session =
  fo_connection :: connection
  fo_config :: config_message
  fo_transfer_id :: uuid
  fo_has_callback :: bool
  fo_total_compressed_bytes :: u64
  fo_transfer_start :: "rat option"
  fo_state :: folder_transfer_state
  fo_saved :: "folder_transfer_state list"
  fo_progress :: "progress_state option"
  fo_streams :: "bytes list"
  fo_now :: rat

text \<open>The libraries, and per file and chunk whether its stream breaks.\<close>

record folder_env =
  fe_rmp :: rmp
  fe_encode :: zstd_encode
  fe_sha :: sha256
  fe_link :: "nat \<Rightarrow> u64 \<Rightarrow> error option"

definition folder_session_new ::
  "connection \<Rightarrow> config_message \<Rightarrow> uuid \<Rightarrow> folder_transfer_state \<Rightarrow> progress_state option \<Rightarrow> rat \<Rightarrow> folder_session" where
  "folder_session_new c cfg tid st progress now =
     \<lparr> fo_connection = c, fo_config = cfg, fo_transfer_id = tid, fo_has_callback = False,
       fo_total_compressed_bytes = 0, fo_transfer_start = None,
       fo_state = st, fo_saved = [], fo_progress = progress, fo_streams = [], fo_now = now \<rparr>"

definition set_state_callback :: "folder_session \<Rightarrow> folder_session" where
  "set_state_callback s = s\<lparr> fo_has_callback := True \<rparr>"

text \<open>The share of the bytes that compression saved, in per cent; negative when it added some.\<close>

definition calc_compression_stats :: "u64 \<Rightarrow> u64 \<Rightarrow> rat \<times> rat" where
  "calc_compression_stats compressed total_bytes =
     (let t = of_nat (unat total_bytes); c = of_nat (unat compressed) in
      (if total_bytes > 0 then t / c else 1,
       if total_bytes \<ge> compressed then of_nat (unat (total_bytes - compressed)) / t * 100
       else - (of_nat (unat (compressed - total_bytes)) / t * 100)))"

section \<open>Control messages\<close>

definition control :: "(connection, error, 'a) proc \<Rightarrow> (folder_session, stop, 'a) proc" where
  "control p = (\<lambda>s. case p (fo_connection s) of
     (Inl e, c) \<Rightarrow> (Inl (Err e), s\<lparr> fo_connection := c \<rparr>)
   | (Inr x, c) \<Rightarrow> (Inr x, s\<lparr> fo_connection := c \<rparr>))"

text \<open>A peer that closes the connection instead of answering has rejected the transfer.\<close>

fun closes :: "error \<Rightarrow> bool" where
  "closes Disconnected = True"
| "closes (Network _) = True"
| "closes (Quic _) = True"
| "closes _ = False"

definition await_ready :: "rmp \<Rightarrow> (connection, error, unit) proc" where
  "await_ready rc = (\<lambda>c.
     case recv_message rc c of
       (Inr msg, c') \<Rightarrow>
         (case msg of
            Ready \<Rightarrow> (Inr (), c')
          | Cancel \<Rightarrow> (Inl Cancelled, c')
          | _ \<Rightarrow> (Inl (Protocol (''Expected Ready, got '' @ variant_name msg)), c'))
     | (Inl e, c') \<Rightarrow> (Inl (if closes e then Cancelled else e), c'))"

section \<open>Sending\<close>

definition is_file :: "node option \<Rightarrow> bool" where
  "is_file src = (case src of Some (FileNode d m) \<Rightarrow> True | _ \<Rightarrow> False)"

text \<open>The list of files of a fresh transfer.\<close>

definition list_files :: "string \<Rightarrow> node option \<Rightarrow> string \<Rightarrow> file_metadata list result" where
  "list_files path src base_name =
     (case src of
        Some (FileNode data modified) \<Rightarrow> Inr [metadata_of base_name data modified]
      | Some (DirNode es err) \<Rightarrow>
          rbind (scan_folder path es err) (\<lambda>files.
            if files = [] then Inl (Protocol ''Folder is empty'') else Inr files)
      | _ \<Rightarrow> Inl (Protocol ''Path is neither a file nor a directory''))"

definition resume_point_of :: "uuid \<Rightarrow> folder_transfer_state \<Rightarrow> resume_point option" where
  "resume_point_of tid st =
     (case next_file st of
        None \<Rightarrow> None
      | Some f \<Rightarrow>
          (if get_completed_chunks st f \<noteq> []
           then Some \<lparr> rp_transfer_id = tid, rp_file_index = word_of_nat f,
                       rp_completed_chunks = get_completed_chunks st f \<rparr>
           else None))"

definition prepare :: "string \<Rightarrow> node option \<Rightarrow> (folder_session, stop, resume_point option) proc" where
  "prepare path src = (\<lambda>s.
     if ft_files (fo_state s) \<noteq> [] then (Inr (resume_point_of (fo_transfer_id s) (fo_state s)), s)
     else case file_name path of
            None \<Rightarrow> (Inl (Err (Protocol ''Invalid path'')), s)
          | Some base_name \<Rightarrow>
              (case list_files path src base_name of
                 Inl e \<Rightarrow> (Inl (Err e), s)
               | Inr files \<Rightarrow>
                   (Inr None, s\<lparr> fo_state := folder_state_new (fo_transfer_id s) base_name files (fo_config s) \<rparr>)))"

definition with_progress :: "(progress_state \<Rightarrow> progress_state) \<Rightarrow> folder_session \<Rightarrow> folder_session" where
  "with_progress f s = s\<lparr> fo_progress := map_option f (fo_progress s) \<rparr>"

definition manifest :: "resume_point option \<Rightarrow> folder_session \<Rightarrow> transfer_info" where
  "manifest rp s =
     \<lparr> ti_transfer_id = fo_transfer_id s, ti_items = ft_files (fo_state s), ti_resume_from = rp,
       ti_completed_files = map word_of_nat (ft_completed_files (fo_state s)) \<rparr>"

text \<open>
  One file: the chunk callback marks the resume record as the streams are acknowledged, whether or
  not the call succeeds in the end. The progress bar's increments are added up per file.
\<close>

definition stream_file :: "folder_env \<Rightarrow> disk \<Rightarrow> string \<Rightarrow> nat \<Rightarrow> (folder_session, stop, 256 word) proc" where
  "stream_file env disk full_path file_index = (\<lambda>s.
     case send_file
            \<lparr> se_config = fo_config s, se_encode = fe_encode env, se_sha = fe_sha env,
              se_link = fe_link env file_index \<rparr>
            disk full_path (get_completed_chunks (fo_state s) file_index)
            (session_new (fo_config s) (fo_now s)) of
       (res, t) \<Rightarrow>
         (res, with_progress (add_bytes (tx_progress t)) s
            \<lparr> fo_state := fold (mark_chunk_complete file_index) (tx_marks t) (fo_state s),
              fo_streams := fo_streams s @ tx_streams t,
              fo_total_compressed_bytes :=
                (case res of Inr _ \<Rightarrow> fo_total_compressed_bytes s + tx_compressed_bytes_sent t
                           | Inl _ \<Rightarrow> fo_total_compressed_bytes s),
              fo_now := tx_now t \<rparr>))"

definition checksum_message :: "uuid \<Rightarrow> nat \<Rightarrow> 256 word \<Rightarrow> message" where
  "checksum_message tid i digest =
     FileChecksum \<lparr> fc_transfer_id = tid, fc_file_index = word_of_nat i, fc_checksum = digest \<rparr>"

definition compare_as_sender :: "nat \<Rightarrow> 256 word \<Rightarrow> message \<Rightarrow> unit result" where
  "compare_as_sender file_index ours msg =
     (case msg of
        FileChecksum peer \<Rightarrow>
          (if fc_checksum peer \<noteq> ours
           then Inl (Verification (''File checksum mismatch for file '' @ show_nat (unat (word_of_nat file_index :: u32))))
           else Inr ())
      | _ \<Rightarrow> Inl (Protocol (''Expected FileChecksum, got '' @ variant_name msg)))"

definition send_single_file :: "folder_env \<Rightarrow> disk \<Rightarrow> string \<Rightarrow> nat \<Rightarrow> (folder_session, stop, unit) proc" where
  "send_single_file env disk full_path file_index =
     andthen (stream_file env disk full_path file_index) (\<lambda>digest.
     andthen (\<lambda>s. control (send_message (fe_rmp env)
                (checksum_message (fo_transfer_id s) file_index digest)) s) (\<lambda>_.
     andthen (control (recv_message (fe_rmp env))) (\<lambda>msg.
     case compare_as_sender file_index digest msg of
       Inl e \<Rightarrow> fail (Err e)
     | Inr u \<Rightarrow> ret ())))"

definition file_done :: "nat \<Rightarrow> folder_session \<Rightarrow> folder_session" where
  "file_done i s =
     (let st = mark_file_complete i (fo_state s);
          st' = st\<lparr> ft_current_file := next_file st \<rparr>
      in s\<lparr> fo_state := st',
            fo_saved := (if fo_has_callback s then fo_saved s @ [st'] else fo_saved s) \<rparr>)"

fun send_files :: "folder_env \<Rightarrow> disk \<Rightarrow> string \<Rightarrow> nat list \<Rightarrow> (folder_session, stop, unit) proc" where
  "send_files env disk base [] = ret ()"
| "send_files env disk base (i # is) = (\<lambda>s.
     if i \<in> set (ft_completed_files (fo_state s)) then send_files env disk base is s
     else
       andthen (send_single_file env disk (join base (fm_path (ft_files (fo_state s) ! i))) i)
         (\<lambda>_ s. send_files env disk base is (file_done i s)) s)"

definition base_path :: "string \<Rightarrow> node option \<Rightarrow> string result" where
  "base_path path src =
     (if is_file src
      then (case parent path of
              None \<Rightarrow> Inl (Protocol ''File has no parent directory'')
            | Some p \<Rightarrow> Inr p)
      else Inr (unwrap_or (parent path) path))"

definition send_complete :: "folder_env \<Rightarrow> (folder_session, stop, unit) proc" where
  "send_complete env =
     andthen (\<lambda>s. control (send_message (fe_rmp env) (Complete
         \<lparr> cm_transfer_id = fo_transfer_id s, cm_total_bytes = ft_total_bytes (fo_state s),
           cm_duration_ms = word_of_nat (nat \<lfloor>1000 * (fo_now s - unwrap_or (fo_transfer_start s) (fo_now s))\<rfloor>) \<rparr>)) s) (\<lambda>_ s.
     (Inr (), with_progress finish s))"

definition folder_send :: "folder_env \<Rightarrow> disk \<Rightarrow> string \<Rightarrow> node option \<Rightarrow> (folder_session, stop, unit) proc" where
  "folder_send env disk path src =
     andthen (\<lambda>s. prepare path src
        (s\<lparr> fo_transfer_start := Some (fo_now s), fo_total_compressed_bytes := 0 \<rparr>)) (\<lambda>rp.
     andthen (\<lambda>s. control (send_message (fe_rmp env) (TransferInfoMsg (manifest rp s)))
        (with_progress (set_total_bytes (ft_total_bytes (fo_state s))) s)) (\<lambda>_.
     andthen (control (await_ready (fe_rmp env))) (\<lambda>_.
     case base_path path src of
       Inl e \<Rightarrow> fail (Err e)
     | Inr base \<Rightarrow>
         andthen (\<lambda>s. send_files env disk base [0..<length (ft_files (fo_state s))] s) (\<lambda>_.
         send_complete env))))"

section \<open>Receiving\<close>

record folder_receiver =
  fi_connection :: connection
  fi_config :: config_message
  fi_transfer_id :: uuid
  fi_total_compressed_bytes :: u64
  fi_transfer_start :: "rat option"
  fi_disk :: disk
  fi_dirs :: "string list"
  fi_streams :: "(error + bytes) list"
  fi_progress :: "progress_state option"
  fi_now :: rat

text \<open>
  \<open>fv_end\<close> is what accepting one more stream gives after the last: an error, or nothing ever. The
  policy is the caller's \<open>accept_decision\<close>.
\<close>

record receiver_env =
  fv_rmp :: rmp
  fv_decode :: zstd_decode
  fv_sha :: sha256
  fv_end :: "error option"
  fv_accept :: "transfer_info \<Rightarrow> accept_decision"

definition folder_receiver_new ::
  "connection \<Rightarrow> config_message \<Rightarrow> uuid \<Rightarrow> disk \<Rightarrow> (error + bytes) list \<Rightarrow> progress_state option \<Rightarrow> rat \<Rightarrow> folder_receiver" where
  "folder_receiver_new c cfg tid disk streams progress now =
     \<lparr> fi_connection = c, fi_config = cfg, fi_transfer_id = tid, fi_total_compressed_bytes = 0,
       fi_transfer_start = None, fi_disk = disk, fi_dirs = [], fi_streams = streams,
       fi_progress = progress, fi_now = now \<rparr>"

definition control_in :: "(connection, error, 'a) proc \<Rightarrow> (folder_receiver, stop, 'a) proc" where
  "control_in p = (\<lambda>s. case p (fi_connection s) of
     (Inl e, c) \<Rightarrow> (Inl (Err e), s\<lparr> fi_connection := c \<rparr>)
   | (Inr x, c) \<Rightarrow> (Inr x, s\<lparr> fi_connection := c \<rparr>))"

definition with_bar :: "(progress_state \<Rightarrow> progress_state) \<Rightarrow> folder_receiver \<Rightarrow> folder_receiver" where
  "with_bar f s = s\<lparr> fi_progress := map_option f (fi_progress s) \<rparr>"

definition create_dir_all :: "string \<Rightarrow> folder_receiver \<Rightarrow> folder_receiver" where
  "create_dir_all dir s = s\<lparr> fi_dirs := fi_dirs s @ [dir] \<rparr>"

definition accept_file ::
  "receiver_env \<Rightarrow> string \<Rightarrow> u64 \<Rightarrow> u64 \<Rightarrow> (folder_receiver, stop, 256 word) proc" where
  "accept_file env path total_chunks streams_to_receive = (\<lambda>s.
     case receive_file
            \<lparr> re_config = fi_config s, re_decode = fv_decode env, re_sha = fv_sha env \<rparr>
            path total_chunks streams_to_receive (fi_streams s) (fv_end env)
            \<lparr> rx_disk = fi_disk s, rx_seen = [], rx_progress = 0, rx_marks = [] \<rparr> of
       (res, x) \<Rightarrow>
         let s1 = with_bar (add_bytes (rx_progress x)) s\<lparr> fi_disk := rx_disk x \<rparr>
         in (case res of
               Inl e \<Rightarrow> (Inl e, s1)
             | Inr (digest, rest) \<Rightarrow> (Inr digest, s1\<lparr> fi_streams := rest \<rparr>)))"

definition compare_as_receiver :: "nat \<Rightarrow> 256 word \<Rightarrow> message \<Rightarrow> unit result" where
  "compare_as_receiver file_index ours msg =
     (case msg of
        FileChecksum peer \<Rightarrow>
          (if fc_file_index peer \<noteq> word_of_nat file_index
           then Inl (Protocol (''File index mismatch: expected '' @
                  show_nat (unat (word_of_nat file_index :: u32)) @ '', got '' @ show_nat (unat (fc_file_index peer))))
           else if fc_checksum peer \<noteq> ours
           then Inl (Verification (''File '' @ show_nat (unat (word_of_nat file_index :: u32)) @ '' checksum mismatch''))
           else Inr ())
      | _ \<Rightarrow> Inl (Protocol (''Expected FileChecksum, got '' @ variant_name msg)))"

definition receive_single_file ::
  "receiver_env \<Rightarrow> string \<Rightarrow> nat \<Rightarrow> u64 \<Rightarrow> u64 \<Rightarrow> (folder_receiver, stop, unit) proc" where
  "receive_single_file env path file_index total_chunks streams_to_receive =
     andthen (accept_file env path total_chunks streams_to_receive) (\<lambda>digest.
     andthen (\<lambda>s. control_in (send_message (fv_rmp env)
                (checksum_message (fi_transfer_id s) file_index digest)) s) (\<lambda>_.
     andthen (control_in (recv_message (fv_rmp env))) (\<lambda>msg.
     case compare_as_receiver file_index digest msg of
       Inl e \<Rightarrow> fail (Err e)
     | Inr u \<Rightarrow> ret ())))"

definition already_sent :: "transfer_info \<Rightarrow> nat \<Rightarrow> u64" where
  "already_sent info file_index =
     (case ti_resume_from info of
        None \<Rightarrow> 0
      | Some rp \<Rightarrow>
          (if unat (rp_file_index rp) = file_index then word_of_nat (length (rp_completed_chunks rp)) else 0))"

definition receive_item ::
  "receiver_env \<Rightarrow> string \<Rightarrow> transfer_info \<Rightarrow> nat \<Rightarrow> file_metadata \<Rightarrow> (folder_receiver, stop, unit) proc" where
  "receive_item env output_dir info file_index meta =
     (case sanitize_relative_path (fm_path meta) of
        Inl e \<Rightarrow> fail (Err e)
      | Inr relative_path \<Rightarrow>
          (let full_path = join output_dir relative_path in
           (\<lambda>s. let s1 = (case parent full_path of None \<Rightarrow> s | Some dir \<Rightarrow> create_dir_all dir s) in
             case chunk_count (fm_size meta) (chunk_size (fi_config s1)) of
               None \<Rightarrow> (Inl Panic, s1)
             | Some total_chunks \<Rightarrow>
                 receive_single_file env full_path file_index total_chunks
                   (sat_sub total_chunks (already_sent info file_index)) s1)))"

fun receive_items ::
  "receiver_env \<Rightarrow> string \<Rightarrow> transfer_info \<Rightarrow> nat \<Rightarrow> file_metadata list \<Rightarrow> (folder_receiver, stop, unit) proc" where
  "receive_items env output_dir info i [] = ret ()"
| "receive_items env output_dir info i (meta # rest) =
     (if word_of_nat i \<in> set (ti_completed_files info)
      then receive_items env output_dir info (Suc i) rest
      else andthen (receive_item env output_dir info i meta)
             (\<lambda>_. receive_items env output_dir info (Suc i) rest))"

text \<open>The bytes a resumed transfer starts with; \<open>None\<close> is the division by a chunk size of zero.\<close>

definition already_transferred :: "config_message \<Rightarrow> transfer_info \<Rightarrow> u64 option" where
  "already_transferred cfg info =
     (case ti_resume_from info of
        None \<Rightarrow> Some 0
      | Some rp \<Rightarrow>
          (let file_index = unat (rp_file_index rp); items = ti_items info;
               before = sum_list (map fm_size (take (min file_index (length items)) items))
           in if file_index < length items
              then (let current_size = fm_size (items ! file_index);
                        completed_chunks = word_of_nat (length (rp_completed_chunks rp))
                    in case chunk_count current_size (chunk_size cfg) of
                         None \<Rightarrow> None
                       | Some total_chunks \<Rightarrow>
                           Some (before + (if completed_chunks < total_chunks
                                           then completed_chunks * ucast (chunk_size cfg)
                                           else current_size)))
              else Some before))"

fun first_bad_size :: "file_metadata list \<Rightarrow> unit result" where
  "first_bad_size [] = Inr ()"
| "first_bad_size (f # fs) = rbind (validate_file_size (fm_size f)) (\<lambda>_. first_bad_size fs)"

definition summary_of :: "transfer_info \<Rightarrow> u64 \<Rightarrow> transfer_summary" where
  "summary_of info before =
     \<lparr> sum_root_name = (case ti_items info of [] \<Rightarrow> [] | f # _ \<Rightarrow> fm_path f),
       sum_files = map fm_path (ti_items info),
       sum_bytes = sat_sub (sum_list (map fm_size (ti_items info))) before \<rparr>"

definition start_receiving :: "transfer_info \<Rightarrow> string \<Rightarrow> u64 \<Rightarrow> folder_receiver \<Rightarrow> folder_receiver" where
  "start_receiving info output_dir before s =
     create_dir_all output_dir
       (with_bar (\<lambda>p. let p1 = set_total_bytes (sum_list (map fm_size (ti_items info))) p
                      in if before > 0 then add_bytes before p1 else p1) s)"

definition expect_complete :: "receiver_env \<Rightarrow> (folder_receiver, stop, unit) proc" where
  "expect_complete env =
     andthen (control_in (recv_message (fv_rmp env))) (\<lambda>msg s. (Inr (), with_bar finish s))"

text \<open>
  A resume record found at \<open>state_path\<close> is only compared with the manifest for a log line, so it is
  not part of the model. A last message other than \<open>Complete\<close> is accepted with a warning.
\<close>

definition receive_accepted ::
  "receiver_env \<Rightarrow> string \<Rightarrow> transfer_info \<Rightarrow> (folder_receiver, stop, transfer_summary) proc" where
  "receive_accepted env output_dir info = (\<lambda>s.
     let s1 = s\<lparr> fi_transfer_id := ti_transfer_id info, fi_transfer_start := Some (fi_now s),
                 fi_total_compressed_bytes := 0 \<rparr> in
     case already_transferred (fi_config s1) info of
       None \<Rightarrow> (Inl Panic, s1)
     | Some before \<Rightarrow>
         andthen (control_in (send_message (fv_rmp env) Ready)) (\<lambda>_.
         andthen (receive_items env output_dir info 0 (ti_items info)) (\<lambda>_.
         andthen (expect_complete env) (\<lambda>_. ret (summary_of info before))))
           (start_receiving info output_dir before s1))"

definition receive_folder :: "receiver_env \<Rightarrow> string \<Rightarrow> (folder_receiver, stop, transfer_summary) proc" where
  "receive_folder env output_dir =
     andthen (control_in (recv_message (fv_rmp env))) (\<lambda>msg.
       case msg of
         TransferInfoMsg info \<Rightarrow>
           (if ti_items info = [] then fail (Err (Protocol ''No files in transfer''))
            else case first_bad_size (ti_items info) of
              Inl e \<Rightarrow> fail (Err e)
            | Inr u \<Rightarrow>
                (if fv_accept env info = Reject
                 then andthen (control_in (send_message (fv_rmp env) Cancel)) (\<lambda>_. ret summary_default)
                 else receive_accepted env output_dir info))
       | _ \<Rightarrow> fail (Err (Protocol (''Expected TransferInfo, got '' @ variant_name msg))))"

end
