(* ===== verification/Folder_Safety.thy ===== *)
theory Folder_Safety
  imports Folder_Transfer Transfer_Correct
begin

text \<open>
  What a receiver of a folder lets a peer do to its disk: nothing outside the output directory, and
  nothing at all before the transfer has been accepted. Confinement is proved compositionally: it
  is a property of procedures that sequencing preserves.
\<close>

section \<open>Where files and directories can go\<close>

definition inside :: "string \<Rightarrow> string \<Rightarrow> bool" where
  "inside out p \<longleftrightarrow> (\<exists>ws. ws \<noteq> [] \<and> (\<forall>w \<in> set ws. plain w) \<and> components p = components out @ map Normal ws)"

definition inside_or_at :: "string \<Rightarrow> string \<Rightarrow> bool" where
  "inside_or_at out p \<longleftrightarrow> (\<exists>ws. (\<forall>w \<in> set ws. plain w) \<and> components p = components out @ map Normal ws)"

lemma push_append: "w \<noteq> [] \<Longrightarrow> \<not> is_absolute w \<Longrightarrow> push b w @ suf = push b (w @ suf)"
  by (auto simp: push_def is_absolute_def)

lemma plain_partial: "plain w \<Longrightarrow> plain (w @ ''.partial'')"
  by (auto simp: plain_def)

lemma sanitized_names:
  assumes "sanitize_relative_path p = Inr q"
  shows "\<exists>ws. ws \<noteq> [] \<and> (\<forall>w \<in> set ws. plain w) \<and> q = foldl push [] ws \<and> pieces q = ws \<and> \<not> is_absolute q"
proof -
  obtain ws where ws: "\<not> is_absolute p" "components p = map Normal ws" "ws \<noteq> []" "q = foldl push [] ws"
    using assms by (auto simp: sanitize_Inr)
  have pl: "\<forall>w \<in> set ws. plain w" using components_normal_pieces [OF ws(1,2)] .
  then have "pieces q = ws" by (simp add: ws(4) pieces_foldl_push plain_def)
  moreover have "\<not> is_absolute q"
    unfolding ws(4) using pl by (intro relative_foldl_push) (auto simp: plain_def is_absolute_def)
  ultimately show ?thesis using ws pl by blast
qed

lemma sanitized_inside:
  assumes "sanitize_relative_path p = Inr q"
  shows "inside out (join out q)" "inside out (partial_path (join out q))"
proof -
  obtain ws where ws: "ws \<noteq> []" "\<forall>w \<in> set ws. plain w" "q = foldl push [] ws" "pieces q = ws" "\<not> is_absolute q"
    using sanitized_names [OF assms] by blast
  have "components (join out q) = components out @ map Normal ws"
    using components_join [OF ws(5)] ws(2,4) by simp
  then show "inside out (join out q)" unfolding inside_def using ws(1,2) by blast
  obtain vs v where vs: "ws = vs @ [v]" using ws(1) by (metis append_butlast_last_id)
  let ?us = "vs @ [v @ ''.partial'']"
  have v: "plain v" "v \<noteq> []" "\<not> is_absolute v"
    using ws(2) not_absolute_plain [of v] by (simp_all add: vs plain_def)
  have qne: "q \<noteq> []" using ws(1,4) by auto
  have "partial_path (join out q) = join out (q @ ''.partial'')"
    using push_append [OF qne ws(5)] by (simp add: partial_path_def join_def)
  moreover have q': "q @ ''.partial'' = foldl push [] ?us"
    using v push_append [of v "foldl push [] vs" "''.partial''"] by (simp add: ws(3) vs)
  moreover have us: "\<forall>w \<in> set ?us. plain w" using ws(2) v(1) by (auto simp: vs plain_partial)
  moreover have "pieces (foldl push [] ?us) = ?us"
    using us pieces_foldl_push [of ?us "[]"] by (simp add: plain_def del: foldl_append)
  moreover have "\<not> is_absolute (foldl push [] ?us)"
    using us by (intro relative_foldl_push) (auto simp: plain_def is_absolute_def)
  ultimately have "components (partial_path (join out q)) = components out @ map Normal ?us"
    using components_join [of "foldl push [] ?us" out] by (simp del: foldl_append)
  then show "inside out (partial_path (join out q))"
    unfolding inside_def using us by (intro exI [of _ ?us]) simp
qed

lemma parent_within:
  assumes "inside out p" "parent p = Some d"
  shows "inside_or_at out d"
proof -
  obtain ws where ws: "ws \<noteq> []" "\<forall>w \<in> set ws. plain w" "components p = components out @ map Normal ws"
    using assms(1) by (auto simp: inside_def)
  obtain vs v where vs: "ws = vs @ [v]" using ws(1) by (metis append_butlast_last_id)
  have "d = render (components out @ map Normal vs)"
    using assms(2) by (simp add: parent_def ws(3) vs)
  moreover have "wf_components (components out @ map Normal vs)"
    using wf_components [of p] by (simp add: ws(3) vs wf_components_snoc flip: append_assoc)
  ultimately have "components d = components out @ map Normal vs" by (simp add: components_render)
  with ws(2) show ?thesis by (auto simp: inside_or_at_def vs)
qed

section \<open>Procedures confined to a directory\<close>

definition touches :: "string \<Rightarrow> folder_receiver \<Rightarrow> folder_receiver \<Rightarrow> bool" where
  "touches out s s' \<longleftrightarrow> (\<forall>p. fi_disk s' p \<noteq> fi_disk s p \<longrightarrow> inside out p) \<and>
     (\<exists>ds. fi_dirs s' = fi_dirs s @ ds \<and> (\<forall>d \<in> set ds. inside_or_at out d))"

definition confined :: "string \<Rightarrow> (folder_receiver, stop, 'a) proc \<Rightarrow> bool" where
  "confined out p \<longleftrightarrow> (\<forall>s res s'. p s = (res, s') \<longrightarrow> touches out s s')"

lemma confinedI: "(\<And>s res s'. p s = (res, s') \<Longrightarrow> touches out s s') \<Longrightarrow> confined out p"
  by (auto simp: confined_def)

lemma touches_refl: "fi_disk s' = fi_disk s \<Longrightarrow> fi_dirs s' = fi_dirs s \<Longrightarrow> touches out s s'"
  by (simp add: touches_def)

lemma touches_trans: "touches out s t \<Longrightarrow> touches out t u \<Longrightarrow> touches out s u"
  unfolding touches_def by (metis (no_types, opaque_lifting) UnE append.assoc set_append)

lemma confined_andthen:
  assumes "confined out p" "\<And>x. confined out (f x)"
  shows "confined out (andthen p f)"
proof (rule confinedI)
  fix s res s' assume run: "andthen p f s = (res, s')"
  obtain r1 s1 where one: "p s = (r1, s1)" by fastforce
  then have t1: "touches out s s1" using assms(1) by (simp add: confined_def)
  show "touches out s s'"
  proof (cases r1)
    case (Inl e)
    with run one t1 show ?thesis by (simp add: andthen_apply)
  next
    case (Inr x)
    with run one have "f x s1 = (res, s')" by (simp add: andthen_apply)
    then have "touches out s1 s'" using assms(2) [of x] by (simp add: confined_def)
    with t1 show ?thesis by (rule touches_trans)
  qed
qed

lemma confined_ret [simp]: "confined out (ret x)"
  by (auto intro!: confinedI touches_refl)

lemma confined_fail [simp]: "confined out (fail e)"
  by (auto intro!: confinedI touches_refl)

lemma confined_control [simp]: "confined out (control_in p)"
  by (rule confinedI, rule touches_refl) (auto simp: control_in_def split: prod.splits sum.splits)

lemma confined_control_id [simp]: "confined out (\<lambda>s. control_in (p s) s)"
  by (rule confinedI, rule touches_refl) (auto simp: control_in_def split: prod.splits sum.splits)

section \<open>The receiver's steps\<close>

lemma receive_chunk_frame:
  "receive_chunk env w n raw s = (res, s') \<Longrightarrow> p \<noteq> partial_path (cw_path w) \<Longrightarrow> rx_disk s' p = rx_disk s p"
  by (auto simp: receive_chunk_def Let_def andthen_apply on_disk_def write_chunk_def
      split: if_splits sum.splits)

lemma receive_loop_frame:
  "receive_loop env w n want xs fin s = (res, s') \<Longrightarrow> p \<noteq> partial_path (cw_path w) \<Longrightarrow>
     rx_disk s' p = rx_disk s p"
proof (induction env w n want xs fin arbitrary: s rule: receive_loop.induct)
  case (1 env w n want fin)
  then show ?case by (auto split: if_splits)
next
  case (2 env w n want x xs fin)
  show ?case
  proof (cases "(word_of_nat (length (rx_seen s)) :: u64) < want \<and> (\<exists>raw. x = Inr raw)")
    case True
    then obtain raw where x: "x = Inr raw" by blast
    obtain r1 s1 where one: "receive_chunk env w n raw s = (r1, s1)" by fastforce
    then have d: "rx_disk s1 p = rx_disk s p" using 2(3) by (rule receive_chunk_frame)
    show ?thesis
    proof (cases r1)
      case (Inl e)
      with True 2(2) x one d show ?thesis by (simp add: andthen_apply)
    next
      case (Inr u)
      with True 2(2) x one have "receive_loop env w n want xs fin s1 = (res, s')"
        by (simp add: andthen_apply)
      moreover have "(word_of_nat (length (rx_seen s)) :: u64) < want" using True by simp
      ultimately show ?thesis using "2.IH" [OF _ x _ 2(3)] d by fastforce
    qed
  next
    case False
    with 2(2) show ?thesis by (auto split: if_splits sum.splits)
  qed
qed

lemma receive_file_frame:
  assumes "receive_file env dst n want xs fin s = (res, s')" "p \<noteq> dst" "p \<noteq> partial_path dst"
  shows "rx_disk s' p = rx_disk s p"
proof (cases "want > n")
  case True
  with assms(1) show ?thesis by (simp add: receive_file_def)
next
  case False
  obtain w d1 where w: "chunk_writer_new dst (ucast (chunk_size (re_config env)))
      (n * ucast (chunk_size (re_config env))) (rx_disk s) = (Inr w, d1)"
      "cw_path w = dst" "d1 p = rx_disk s p"
    using assms(3) by (auto simp: chunk_writer_new_def Let_def)
  obtain r2 s2 where lp: "receive_loop env w n want xs fin (s\<lparr> rx_disk := d1, rx_seen := [] \<rparr>) = (r2, s2)"
    by fastforce
  then have d2: "rx_disk s2 p = d1 p"
    using receive_loop_frame [OF lp] assms(3) w(2) by simp
  show ?thesis
    using assms w d2 lp False
    by (cases r2)
       (auto simp: receive_file_def andthen_apply on_disk_def finalize_def w(2)
         split: option.splits prod.splits sum.splits)
qed

lemma accept_file_frame:
  assumes "accept_file env path n want s = (res, s')"
  shows "fi_dirs s' = fi_dirs s \<and> fi_connection s' = fi_connection s \<and> fi_config s' = fi_config s \<and>
    fi_transfer_id s' = fi_transfer_id s \<and>
    (\<forall>p. p \<noteq> path \<longrightarrow> p \<noteq> partial_path path \<longrightarrow> fi_disk s' p = fi_disk s p)"
  using assms receive_file_frame
  by (fastforce simp: accept_file_def with_bar_def Let_def split: prod.splits sum.splits)

lemma confined_accept_file:
  assumes "inside out path" "inside out (partial_path path)"
  shows "confined out (accept_file env path n want)"
proof (rule confinedI)
  fix s res s' assume "accept_file env path n want s = (res, s')"
  from accept_file_frame [OF this] assms show "touches out s s'"
    unfolding touches_def by (metis append_Nil2 empty_iff list.set(1))
qed

lemma confined_receive_single_file:
  assumes "inside out path" "inside out (partial_path path)"
  shows "confined out (receive_single_file env path i n want)"
  unfolding receive_single_file_def
  by (intro confined_andthen confined_accept_file assms)
     (auto split: sum.splits)

lemma confined_receive_item: "confined out (receive_item env out info i meta)"
proof (cases "sanitize_relative_path (fm_path meta)")
  case (Inl e)
  then show ?thesis by (simp add: receive_item_def)
next
  case (Inr q)
  note ins = sanitized_inside [OF Inr, of out]
  show ?thesis
  proof (rule confinedI)
    fix s res s' assume run: "receive_item env out info i meta s = (res, s')"
    let ?s1 = "case parent (join out q) of None \<Rightarrow> s | Some dir \<Rightarrow> create_dir_all dir s"
    have t1: "touches out s ?s1"
      using parent_within [OF ins(1)] by (auto simp: touches_def create_dir_all_def split: option.splits)
    show "touches out s s'"
    proof (cases "chunk_count (fm_size meta) (chunk_size (fi_config ?s1))")
      case None
      with run Inr t1 show ?thesis by (simp add: receive_item_def Let_def)
    next
      case (Some n)
      with run Inr have "receive_single_file env (join out q) i n (sat_sub n (already_sent info i)) ?s1 = (res, s')"
        by (simp add: receive_item_def Let_def)
      then have "touches out ?s1 s'"
        using confined_receive_single_file [OF ins] by (simp add: confined_def)
      with t1 show ?thesis by (rule touches_trans)
    qed
  qed
qed

lemma confined_receive_items: "confined out (receive_items env out info i metas)"
proof (induction env out info i metas rule: receive_items.induct)
  case (1 env out info i)
  show ?case unfolding receive_items.simps by (rule confined_ret)
next
  case (2 env out info i meta rest)
  then show ?case by (auto intro: confined_andthen confined_receive_item)
qed

lemma confined_expect_complete: "confined out (expect_complete env)"
  unfolding expect_complete_def
  by (intro confined_andthen confined_control) (auto intro!: confinedI touches_refl simp: with_bar_def)

lemma confined_receive_accepted: "confined out (receive_accepted env out info)"
proof (rule confinedI)
  fix s res s' assume run: "receive_accepted env out info s = (res, s')"
  let ?s1 = "s\<lparr> fi_transfer_id := ti_transfer_id info, fi_transfer_start := Some (fi_now s),
                fi_total_compressed_bytes := 0 \<rparr>"
  show "touches out s s'"
  proof (cases "already_transferred (fi_config ?s1) info")
    case None
    with run show ?thesis by (auto simp: receive_accepted_def Let_def intro!: touches_refl)
  next
    case (Some before)
    let ?body = "andthen (control_in (send_message (fv_rmp env) Ready)) (\<lambda>_.
         andthen (receive_items env out info 0 (ti_items info)) (\<lambda>_.
         andthen (expect_complete env) (\<lambda>_. ret (summary_of info before))))"
    have "confined out ?body"
      by (intro confined_andthen confined_control confined_receive_items confined_expect_complete confined_ret)
    moreover have "?body (start_receiving info out before ?s1) = (res, s')"
      using run Some by (simp add: receive_accepted_def Let_def)
    ultimately have "touches out (start_receiving info out before ?s1) s'" by (simp add: confined_def)
    moreover have "touches out s (start_receiving info out before ?s1)"
      by (auto simp: touches_def start_receiving_def create_dir_all_def with_bar_def inside_or_at_def)
    ultimately show ?thesis by (blast intro: touches_trans)
  qed
qed

lemma confined_receive_folder: "confined out (receive_folder env out)"
  unfolding receive_folder_def
  by (intro confined_andthen confined_control)
     (auto split: message.splits sum.splits intro!: confined_andthen confined_receive_accepted)

text \<open>
  C4: whatever a peer sends, and however \<open>receive_folder\<close> ends, every file
  whose contents changed lies strictly below the output directory, reached from it by ordinary
  names only, and every directory created is the output directory or below it.
\<close>

theorem folder_writes_confined:
  assumes "receive_folder env out s = (res, s')"
  shows "(\<forall>p. fi_disk s' p \<noteq> fi_disk s p \<longrightarrow> inside out p) \<and>
    (\<exists>ds. fi_dirs s' = fi_dirs s @ ds \<and> (\<forall>d \<in> set ds. inside_or_at out d))"
proof -
  from confined_receive_folder [of out env] assms show ?thesis by (simp add: confined_def touches_def)
qed

text \<open>A peer that announces an empty file, and then does not follow the protocol.\<close>

definition demo_manifest :: transfer_info where
  "demo_manifest = \<lparr> ti_transfer_id = Uuid 7,
     ti_items = [\<lparr> fm_path = ''ok'', fm_size = 0, fm_modified = 0, fm_checksum = 0 \<rparr>,
                 \<lparr> fm_path = ''../x'', fm_size = 0, fm_modified = 0, fm_checksum = 0 \<rparr>],
     ti_resume_from = None, ti_completed_files = [] \<rparr>"

definition demo_renv :: "accept_decision \<Rightarrow> receiver_env" where
  "demo_renv d = \<lparr> fv_rmp = \<lparr> to_vec = (\<lambda>m. Inr []), from_slice = (\<lambda>b. Inr (TransferInfoMsg demo_manifest)) \<rparr>,
     fv_decode = (\<lambda>b. Inr b), fv_sha = (\<lambda>b. word_of_nat (length b)), fv_end = None, fv_accept = (\<lambda>i. d) \<rparr>"

definition demo_receiver :: folder_receiver where
  "demo_receiver = folder_receiver_new
     \<lparr> cn_send = \<lparr> wr_out = [], wr_fail = None \<rparr>, cn_recv = \<lparr> rd_bytes = frame_of [], rd_end = None \<rparr>,
       cn_peer_addr = SocketAddr (V4 0) 0, cn_peer_fingerprint = None \<rparr>
     config_default (Uuid 0) Map.empty [] None 0"

lemma demo_recv:
  "recv_message (fv_rmp (demo_renv d)) (fi_connection demo_receiver) =
     (Inr (TransferInfoMsg demo_manifest),
      (fi_connection demo_receiver)\<lparr> cn_recv := \<lparr> rd_bytes = [], rd_end = None \<rparr> \<rparr>)"
  using read_message_frame [of "[]" "\<lambda>b. Inr (TransferInfoMsg demo_manifest)" "TransferInfoMsg demo_manifest" "[]" None]
  by (simp add: recv_message_def on_recv_def demo_renv_def demo_receiver_def folder_receiver_new_def fits_def)

theorem folder_writes_confined_witness:
  "\<exists>res s'. receive_folder (demo_renv Accept) ''/srv'' demo_receiver = (res, s') \<and>
     (\<forall>p. fi_disk s' p \<noteq> None \<longrightarrow> inside ''/srv'' p)"
proof -
  obtain res s' where run: "receive_folder (demo_renv Accept) ''/srv'' demo_receiver = (res, s')" by fastforce
  have "fi_disk demo_receiver = Map.empty" by (simp add: demo_receiver_def folder_receiver_new_def)
  with folder_writes_confined [OF run] run show ?thesis by auto
qed

section \<open>Nothing before acceptance\<close>

lemma first_bad_size_Inr: "first_bad_size fs = Inr u \<longleftrightarrow> (\<forall>f \<in> set fs. fm_size f \<le> MAX_TRANSFER_FILE_SIZE)"
  by (induction fs) (auto simp: validate_file_size_def)

lemma control_in_frame:
  "control_in p s = (res, s') \<Longrightarrow> fi_disk s' = fi_disk s \<and> fi_dirs s' = fi_dirs s \<and>
     fi_streams s' = fi_streams s \<and> fi_progress s' = fi_progress s"
  by (auto simp: control_in_def split: prod.splits sum.splits)

text \<open>
  C6: the receiver changes its disk, creates a directory, accepts a
  stream or moves its progress bar only after the peer's first message was a manifest that lists at
  least one file, none above the size limit, and that the accept policy accepted; a manifest the
  policy rejects is answered with Cancel and the empty summary.
\<close>

theorem no_effect_before_acceptance:
  assumes "receive_folder env out s = (res, s')"
  shows "(fi_disk s' \<noteq> fi_disk s \<or> fi_dirs s' \<noteq> fi_dirs s \<or> fi_streams s' \<noteq> fi_streams s \<or>
      fi_progress s' \<noteq> fi_progress s \<longrightarrow>
      (\<exists>info. fst (recv_message (fv_rmp env) (fi_connection s)) = Inr (TransferInfoMsg info) \<and>
         ti_items info \<noteq> [] \<and> (\<forall>f \<in> set (ti_items info). fm_size f \<le> MAX_TRANSFER_FILE_SIZE) \<and>
         fv_accept env info = Accept)) \<and>
    (\<forall>info sm. fst (recv_message (fv_rmp env) (fi_connection s)) = Inr (TransferInfoMsg info) \<longrightarrow>
       fv_accept env info = Reject \<longrightarrow> res = Inr sm \<longrightarrow> sm = summary_default \<and>
       wr_out (cn_send (fi_connection s')) = wr_out (cn_send (fi_connection s)) @ wire_of (fv_rmp env) Cancel)"
proof -
  obtain r c where one: "recv_message (fv_rmp env) (fi_connection s) = (r, c)" by fastforce
  let ?s1 = "s\<lparr> fi_connection := c \<rparr>"
  show ?thesis
  proof (cases "\<exists>info. r = Inr (TransferInfoMsg info) \<and> ti_items info \<noteq> [] \<and> first_bad_size (ti_items info) = Inr ()")
    case True
    then obtain info where info: "r = Inr (TransferInfoMsg info)" "ti_items info \<noteq> []"
        "first_bad_size (ti_items info) = Inr ()" by blast
    show ?thesis
    proof (cases "fv_accept env info")
      case Accept
      with info one show ?thesis by (auto simp: first_bad_size_Inr)
    next
      case Reject
      with info one have run: "andthen (control_in (send_message (fv_rmp env) Cancel)) (\<lambda>_. ret summary_default) ?s1 = (res, s')"
        using assms by (simp add: receive_folder_def andthen_apply control_in_def)
      obtain r2 s2 where two: "control_in (send_message (fv_rmp env) Cancel) ?s1 = (r2, s2)" by fastforce
      have res: "s' = s2" "res = map_sum id (\<lambda>_. summary_default) r2"
        using run two by (auto simp: andthen_apply split: sum.splits)
      have "cn_send c = cn_send (fi_connection s)" using recv_message_frame [OF one] by simp
      moreover have "wr_out (cn_send (fi_connection s2)) = wr_out (cn_send c) @ wire_of (fv_rmp env) Cancel"
        if "r2 = Inr u" for u
        using two that send_message_Inr [of "fv_rmp env" Cancel c]
        by (auto simp: control_in_def split: prod.splits sum.splits)
      moreover have "sm = summary_default \<and> (\<exists>u. r2 = Inr u)" if "res = Inr sm" for sm
        using res(2) that by (cases r2) auto
      ultimately show ?thesis
        using control_in_frame [OF two] res(1) by auto
    qed
  next
    case False
    have "(\<exists>e. res = Inl e) \<and> s' = ?s1"
      using assms one False
      by (auto simp: receive_folder_def andthen_apply control_in_def split: sum.splits message.splits if_splits)
    then show ?thesis by auto
  qed
qed

theorem no_effect_before_acceptance_witness:
  "\<exists>res s'. receive_folder (demo_renv Reject) ''/srv'' demo_receiver = (res, s') \<and>
     fi_dirs s' = [] \<and> fi_disk s' = Map.empty"
proof -
  obtain res s' where run: "receive_folder (demo_renv Reject) ''/srv'' demo_receiver = (res, s')" by fastforce
  have "fi_disk demo_receiver = Map.empty" "fi_dirs demo_receiver = []"
    by (simp_all add: demo_receiver_def folder_receiver_new_def)
  moreover have "fv_accept (demo_renv Reject) i = Reject" for i by (simp add: demo_renv_def)
  ultimately show ?thesis
    using no_effect_before_acceptance [OF run] run demo_recv [of Reject] by auto
qed

end
