(* ===== verification/Folder_Correct.thy ===== *)
theory Folder_Correct
  imports Folder_Safety
begin

text \<open>
  A folder sent and received: what a successful \<open>folder_send\<close> wrote to the control stream and to
  the chunk streams is what a \<open>receive_folder\<close> at the other end needs to rebuild every file, on a
  fresh transfer and on a resumed one. The sender's run is taken apart into one block of streams per
  file; the receiver's run is put together from the same blocks, each in any order of arrival.
\<close>

section \<open>The sender's run\<close>

definition sender_of :: "folder_env \<Rightarrow> config_message \<Rightarrow> nat \<Rightarrow> send_env" where
  "sender_of env cfg i = \<lparr> se_config = cfg, se_encode = fe_encode env, se_sha = fe_sha env, se_link = fe_link env i \<rparr>"

definition sends_block ::
  "folder_env \<Rightarrow> disk \<Rightarrow> string \<Rightarrow> config_message \<Rightarrow> folder_transfer_state \<Rightarrow> nat \<Rightarrow> 256 word \<Rightarrow> bytes list \<Rightarrow> bool" where
  "sends_block env disk base cfg st i d b \<longleftrightarrow>
     (\<exists>now t. send_file (sender_of env cfg i) disk (join base (fm_path (ft_files st ! i)))
        (get_completed_chunks st i) (session_new cfg now) = (Inr d, t) \<and> tx_streams t = b)"

lemma sends_block_cong:
  "ft_files st = ft_files st' \<Longrightarrow> get_completed_chunks st i = get_completed_chunks st' i \<Longrightarrow>
     sends_block env disk base cfg st i d b = sends_block env disk base cfg st' i d b"
  by (simp add: sends_block_def)

definition written :: "folder_session \<Rightarrow> bytes" where
  "written s = wr_out (cn_send (fo_connection s))"

lemma control_frame:
  "control p s = (r, s') \<Longrightarrow> fo_streams s' = fo_streams s \<and> fo_state s' = fo_state s \<and>
     fo_config s' = fo_config s \<and> fo_transfer_id s' = fo_transfer_id s"
  by (auto simp: control_def split: prod.splits sum.splits)

lemma control_send_Inr:
  assumes "control (send_message rc m) s = (Inr u, s')"
  shows "sendable rc m \<and> written s' = written s @ wire_of rc m"
proof -
  obtain c where "send_message rc m (fo_connection s) = (Inr u, c)" "s' = s\<lparr> fo_connection := c \<rparr>"
    using assms by (auto simp: control_def split: prod.splits sum.splits)
  with send_message_Inr [OF this(1)] show ?thesis by (simp add: written_def)
qed

lemma control_recv_Inr:
  assumes "control p s = (Inr m, s')" "\<And>c r c'. p c = (r, c') \<Longrightarrow> cn_send c' = cn_send c"
  shows "written s' = written s"
  using assms(1) assms(2) [of "fo_connection s"]
  by (auto simp: control_def written_def split: prod.splits sum.splits)

lemma recv_keeps_send: "recv_message rc c = (r, c') \<Longrightarrow> cn_send c' = cn_send c"
  using recv_message_frame by blast

lemma await_keeps_send: "await_ready rc c = (r, c') \<Longrightarrow> cn_send c' = cn_send c"
  using recv_keeps_send
  by (fastforce simp: await_ready_def split: prod.splits sum.splits message.splits)

lemma send_single_file_Inr:
  assumes "send_single_file env disk (join base (fm_path (ft_files (fo_state s) ! i))) i s = (Inr u, s')"
  shows "\<exists>d b. sends_block env disk base (fo_config s) (fo_state s) i d b \<and>
     sendable (fe_rmp env) (checksum_message (fo_transfer_id s) i d) \<and>
     fo_streams s' = fo_streams s @ b \<and>
     written s' = written s @ wire_of (fe_rmp env) (checksum_message (fo_transfer_id s) i d) \<and>
     (\<exists>ms. fo_state s' = fold (mark_chunk_complete i) ms (fo_state s)) \<and>
     fo_config s' = fo_config s \<and> fo_transfer_id s' = fo_transfer_id s"
proof -
  let ?full = "join base (fm_path (ft_files (fo_state s) ! i))"
  obtain d s1 s2 s3 u1 msg where
      1: "stream_file env disk ?full i s = (Inr d, s1)"
      and 2: "control (send_message (fe_rmp env) (checksum_message (fo_transfer_id s1) i d)) s1 = (Inr u1, s2)"
      and 3: "control (recv_message (fe_rmp env)) s2 = (Inr msg, s3)"
      and 4: "(case compare_as_sender i d msg of Inl e \<Rightarrow> fail (Err e) | Inr u \<Rightarrow> ret ()) s3 = (Inr u, s')"
    using assms by (auto simp: send_single_file_def andthen_eq_Inr)
  obtain t where t: "send_file (sender_of env (fo_config s) i) disk ?full (get_completed_chunks (fo_state s) i)
        (session_new (fo_config s) (fo_now s)) = (Inr d, t)"
      "fo_streams s1 = fo_streams s @ tx_streams t" "fo_connection s1 = fo_connection s"
      "fo_state s1 = fold (mark_chunk_complete i) (tx_marks t) (fo_state s)"
      "fo_config s1 = fo_config s" "fo_transfer_id s1 = fo_transfer_id s"
    using 1 by (auto simp: stream_file_def sender_of_def with_progress_def split: prod.splits)
  note two = control_send_Inr [OF 2] and three = control_recv_Inr [OF 3 recv_keeps_send]
  note frames = control_frame [OF 2] control_frame [OF 3]
  have "s' = s3" using 4 by (auto split: sum.splits)
  moreover have "written s1 = written s" using t(3) by (simp add: written_def)
  ultimately show ?thesis
    using t two three frames by (intro exI [of _ d] exI [of _ "tx_streams t"]) (auto simp: sends_block_def)
qed

lemma fold_marks_frame [simp]:
  "ft_files (fold (mark_chunk_complete i) ms st) = ft_files st"
  "ft_completed_files (fold (mark_chunk_complete i) ms st) = ft_completed_files st"
  "ft_total_bytes (fold (mark_chunk_complete i) ms st) = ft_total_bytes st"
  "ft_config (fold (mark_chunk_complete i) ms st) = ft_config st"
  by (induction ms arbitrary: st) simp_all

lemma fold_marks_other: "j \<noteq> i \<Longrightarrow>
  get_completed_chunks (fold (mark_chunk_complete i) ms st) j = get_completed_chunks st j"
  by (induction ms arbitrary: st) simp_all

lemma file_done_frame [simp]:
  "ft_files (fo_state (file_done i s)) = ft_files (fo_state s)"
  "ft_total_bytes (fo_state (file_done i s)) = ft_total_bytes (fo_state s)"
  "get_completed_chunks (fo_state (file_done i s)) j = get_completed_chunks (fo_state s) j"
  "set (ft_completed_files (fo_state (file_done i s))) = insert i (set (ft_completed_files (fo_state s)))"
  "fo_config (file_done i s) = fo_config s" "fo_transfer_id (file_done i s) = fo_transfer_id s"
  "fo_streams (file_done i s) = fo_streams s" "written (file_done i s) = written s"
  "fo_connection (file_done i s) = fo_connection s"
  by (auto simp: file_done_def Let_def mark_file_complete_def get_completed_chunks_def written_def)

type_synonym block = "nat \<times> 256 word \<times> bytes list"

definition announced :: "rmp \<Rightarrow> uuid \<Rightarrow> block list \<Rightarrow> bytes" where
  "announced rc tid bs = concat (map (\<lambda>(i, d, b). wire_of rc (checksum_message tid i d)) bs)"

definition streams_of :: "block list \<Rightarrow> bytes list" where
  "streams_of bs = concat (map (\<lambda>(i, d, b). b) bs)"

lemma block_simps [simp]:
  "announced rc tid [] = []" "streams_of [] = []"
  "announced rc tid ((i, d, b) # bs) = wire_of rc (checksum_message tid i d) @ announced rc tid bs"
  "streams_of ((i, d, b) # bs) = b @ streams_of bs"
  by (simp_all add: announced_def streams_of_def)

lemma send_files_Inr:
  assumes "send_files env disk base is s = (Inr u, s')" "distinct is"
  shows "\<exists>bs. map fst bs = filter (\<lambda>i. i \<notin> set (ft_completed_files (fo_state s))) is \<and>
     (\<forall>(i, d, b) \<in> set bs. sends_block env disk base (fo_config s) (fo_state s) i d b \<and>
        sendable (fe_rmp env) (checksum_message (fo_transfer_id s) i d)) \<and>
     fo_streams s' = fo_streams s @ streams_of bs \<and>
     written s' = written s @ announced (fe_rmp env) (fo_transfer_id s) bs \<and>
     ft_files (fo_state s') = ft_files (fo_state s) \<and>
     set (ft_completed_files (fo_state s')) = set (ft_completed_files (fo_state s)) \<union> set is \<and>
     fo_transfer_id s' = fo_transfer_id s"
  using assms
proof (induction env disk base "is" arbitrary: s rule: send_files.induct)
  case (1 env disk base)
  then show ?case by (intro exI [of _ "[]"]) simp
next
  case (2 env disk base i "is")
  let ?done = "set (ft_completed_files (fo_state s))"
  show ?case
  proof (cases "i \<in> ?done")
    case True
    with 2(1) [OF True] 2(3,4) show ?thesis by (auto simp: insert_absorb)
  next
    case False
    obtain u1 s1 where one: "send_single_file env disk (join base (fm_path (ft_files (fo_state s) ! i))) i s = (Inr u1, s1)"
        and rest: "send_files env disk base is (file_done i s1) = (Inr u, s')"
      using 2(3) False by (auto simp: andthen_eq_Inr)
    obtain d b ms where b: "sends_block env disk base (fo_config s) (fo_state s) i d b"
        "sendable (fe_rmp env) (checksum_message (fo_transfer_id s) i d)"
        "fo_streams s1 = fo_streams s @ b"
        "written s1 = written s @ wire_of (fe_rmp env) (checksum_message (fo_transfer_id s) i d)"
        "fo_state s1 = fold (mark_chunk_complete i) ms (fo_state s)"
        "fo_config s1 = fo_config s" "fo_transfer_id s1 = fo_transfer_id s"
      using send_single_file_Inr [OF one] by blast
    obtain bs where bs: "map fst bs = filter (\<lambda>j. j \<notin> set (ft_completed_files (fo_state (file_done i s1)))) is"
        "\<forall>(j, d, b) \<in> set bs. sends_block env disk base (fo_config (file_done i s1)) (fo_state (file_done i s1)) j d b \<and>
           sendable (fe_rmp env) (checksum_message (fo_transfer_id (file_done i s1)) j d)"
        "fo_streams s' = fo_streams (file_done i s1) @ streams_of bs"
        "written s' = written (file_done i s1) @ announced (fe_rmp env) (fo_transfer_id (file_done i s1)) bs"
        "ft_files (fo_state s') = ft_files (fo_state (file_done i s1))"
        "set (ft_completed_files (fo_state s')) = set (ft_completed_files (fo_state (file_done i s1))) \<union> set is"
        "fo_transfer_id s' = fo_transfer_id (file_done i s1)"
      using 2(2) [OF False rest] 2(4) by auto
    have idx: "map fst bs = filter (\<lambda>j. j \<notin> ?done) is"
      using bs(1) b(5) 2(4) by (simp, intro filter_cong) auto
    then have ne: "\<forall>(j, d, b) \<in> set bs. j \<noteq> i"
      using 2(4) by (force dest: arg_cong [of _ _ set] simp: image_iff set_eq_iff)
    have "\<forall>(j, d, b) \<in> set bs. sends_block env disk base (fo_config s) (fo_state s) j d b"
    proof clarify
      fix j d' b' assume jb: "(j, d', b') \<in> set bs"
      with ne have "j \<noteq> i" by blast
      then have "sends_block env disk base (fo_config s) (fo_state (file_done i s1)) j d' b' =
          sends_block env disk base (fo_config s) (fo_state s) j d' b'"
        using b(5) by (intro sends_block_cong) (simp_all add: fold_marks_other)
      with bs(2) jb b(6) show "sends_block env disk base (fo_config s) (fo_state s) j d' b'" by auto
    qed
    with b bs idx False show ?thesis
      by (intro exI [of _ "(i, d, b) # bs"]) auto
  qed
qed

section \<open>The receiver's run\<close>

definition unread :: "folder_receiver \<Rightarrow> bytes" where
  "unread r = rd_bytes (cn_recv (fi_connection r))"

definition healthy :: "folder_receiver \<Rightarrow> bool" where
  "healthy r \<longleftrightarrow> wr_fail (cn_send (fi_connection r)) = None"

lemma control_in_recv_ok:
  assumes "rmp_ok rc" "sendable rc m" "unread r = wire_of rc m @ rest" "healthy r"
  shows "\<exists>c. control_in (recv_message rc) r = (Inr m, r\<lparr> fi_connection := c \<rparr>) \<and>
    unread (r\<lparr> fi_connection := c \<rparr>) = rest \<and> healthy (r\<lparr> fi_connection := c \<rparr>)"
  using recv_message_ok [OF assms(1,2), of "fi_connection r" rest] assms(3,4)
  by (simp add: control_in_def unread_def healthy_def) (intro exI conjI, rule refl, simp_all)

lemma control_in_send_ok:
  assumes "sendable rc m" "healthy r"
  shows "\<exists>c. control_in (send_message rc m) r = (Inr (), r\<lparr> fi_connection := c \<rparr>) \<and>
    unread (r\<lparr> fi_connection := c \<rparr>) = unread r \<and> healthy (r\<lparr> fi_connection := c \<rparr>)"
  using send_message_ok [OF assms(1), of "fi_connection r"] assms(2)
  by (simp add: control_in_def unread_def healthy_def) (intro exI conjI, rule refl, simp_all)

lemma unat_len_ch:
  fixes n :: u64
  assumes "distinct ch" "\<forall>x \<in> set ch. x < n"
  shows "sat_sub n (word_of_nat (length ch)) = n - word_of_nat (length ch)"
  using length_u64 [OF distinct_below_length [OF assms]] distinct_below_length [OF assms]
  by (simp add: sat_sub_def word_less_nat_alt not_less)

lemma accept_file_ok:
  assumes src: "disk path = Some data" "length data \<le> 2 ^ 40" "chunk_size (fi_config r) \<noteq> 0"
    and libs: "fv_sha renv = fe_sha env" "inverts (fe_encode env) (fv_decode renv)"
    and send: "send_file (sender_of env (fi_config r) i) disk path ch (session_new (fi_config r) now) = (Inr d, t)"
    and n: "chunk_count (word_of_nat (length data)) (chunk_size (fi_config r)) = Some n"
    and ch: "distinct ch" "\<forall>x \<in> set ch. x < n"
    and net: "fi_streams r = map Inr blk @ later" "mset blk = mset (tx_streams t)"
        "\<forall>raw \<in> set blk. length raw \<le> MAX_CHUNK_STREAM_BYTES"
    and dst: "resumable (fi_disk r) dst data (unat (chunk_size (fi_config r))) (unat ` set ch)"
  shows "\<exists>r'. accept_file renv dst n (n - word_of_nat (length ch)) r = (Inr d, r') \<and>
    fi_streams r' = later \<and> fi_disk r' dst = Some data"
proof -
  let ?renv = "\<lparr> re_config = fi_config r, re_decode = fv_decode renv, re_sha = fv_sha renv \<rparr>"
  let ?x = "\<lparr> rx_disk = fi_disk r, rx_seen = [], rx_progress = 0, rx_marks = [] \<rparr>"
  obtain x where "receive_file ?renv dst n (n - word_of_nat (length ch)) (map Inr blk @ later) (fv_end renv) ?x =
        (Inr (d, later), x)" "rx_disk x dst = Some data"
    using transfer_file_run [of disk path data ?renv "sender_of env (fi_config r) i" ch now d t n blk ?x dst
        later "fv_end renv"] assms
    by (auto simp: sender_of_def)
  then show ?thesis
    using net(1) by (simp add: accept_file_def Let_def with_bar_def)
qed

lemma receive_item_ok:
  assumes rc: "rmp_ok (fv_rmp renv)" "sendable (fv_rmp renv) (checksum_message (fi_transfer_id r) i d)" "healthy r"
    and rd: "unread r = wire_of (fv_rmp renv) (checksum_message (fi_transfer_id r) i d) @ rest"
    and path: "sanitize_relative_path (fm_path meta) = Inr q" "dst = join out q"
    and src: "disk path = Some data" "length data \<le> 2 ^ 40" "chunk_size (fi_config r) \<noteq> 0"
        "fm_size meta = word_of_nat (length data)"
    and libs: "fv_sha renv = fe_sha env" "inverts (fe_encode env) (fv_decode renv)"
    and send: "send_file (sender_of env (fi_config r) i) disk path ch (session_new (fi_config r) now) = (Inr d, t)"
    and n: "chunk_count (word_of_nat (length data)) (chunk_size (fi_config r)) = Some n"
    and ch: "distinct ch" "\<forall>x \<in> set ch. x < n" "already_sent info i = word_of_nat (length ch)"
    and net: "fi_streams r = map Inr blk @ later" "mset blk = mset (tx_streams t)"
        "\<forall>raw \<in> set blk. length raw \<le> MAX_CHUNK_STREAM_BYTES"
    and tgt: "resumable (fi_disk r) dst data (unat (chunk_size (fi_config r))) (unat ` set ch)"
  shows "\<exists>r'. receive_item renv out info i meta r = (Inr (), r') \<and> fi_streams r' = later \<and>
    fi_disk r' dst = Some data \<and> (\<forall>p. p \<noteq> dst \<longrightarrow> p \<noteq> partial_path dst \<longrightarrow> fi_disk r' p = fi_disk r p) \<and>
    unread r' = rest \<and> healthy r' \<and> fi_config r' = fi_config r \<and> fi_transfer_id r' = fi_transfer_id r"
proof -
  let ?r1 = "case parent dst of None \<Rightarrow> r | Some dir \<Rightarrow> create_dir_all dir r"
  have r1: "fi_config ?r1 = fi_config r" "fi_streams ?r1 = fi_streams r" "fi_disk ?r1 = fi_disk r"
      "fi_connection ?r1 = fi_connection r" "fi_transfer_id ?r1 = fi_transfer_id r"
    by (auto simp: create_dir_all_def split: option.splits)
  obtain r2 where r2: "accept_file renv dst n (n - word_of_nat (length ch)) ?r1 = (Inr d, r2)"
      "fi_streams r2 = later" "fi_disk r2 dst = Some data"
    using accept_file_ok [of disk path data ?r1 renv env i ch now d t n blk later dst] assms
    unfolding r1 by blast
  note fr = accept_file_frame [OF r2(1)]
  have h2: "healthy r2" "unread r2 = unread r" "fi_transfer_id r2 = fi_transfer_id r"
    using fr rc(3) by (simp_all add: healthy_def unread_def r1)
  obtain c3 where 3: "control_in (send_message (fv_rmp renv) (checksum_message (fi_transfer_id r2) i d)) r2 =
        (Inr (), r2\<lparr> fi_connection := c3 \<rparr>)" "unread (r2\<lparr> fi_connection := c3 \<rparr>) = unread r"
        "healthy (r2\<lparr> fi_connection := c3 \<rparr>)"
    using control_in_send_ok [OF rc(2) h2(1)] h2 by auto
  obtain c4 where 4: "control_in (recv_message (fv_rmp renv)) (r2\<lparr> fi_connection := c3 \<rparr>) =
        (Inr (checksum_message (fi_transfer_id r) i d), r2\<lparr> fi_connection := c4 \<rparr>)"
        "unread (r2\<lparr> fi_connection := c4 \<rparr>) = rest" "healthy (r2\<lparr> fi_connection := c4 \<rparr>)"
    using control_in_recv_ok [OF rc(1,2) _ 3(3)] 3(2) rd by auto
  have "receive_item renv out info i meta r = (Inr (), r2\<lparr> fi_connection := c4 \<rparr>)"
    using r2(1) 3(1) 4(1) n ch path src(4) r1
    by (simp add: receive_item_def Let_def receive_single_file_def andthen_apply unat_len_ch
        compare_as_receiver_def checksum_message_def)
  with r2 4 fr r1 show ?thesis by auto
qed

text \<open>
  What has to be known of file \<open>i\<close>: its contents, where it goes, that the sender's disk holds it as
  listed, and that the receiver's partial file has the chunks the sender counts as delivered.
\<close>

record folder_plan =
  pl_items :: "file_metadata list"
  pl_chunks :: "nat \<Rightarrow> u64 list"
  pl_data :: "nat \<Rightarrow> bytes"
  pl_dst :: "nat \<Rightarrow> string"

definition source_file :: "disk \<Rightarrow> string \<Rightarrow> folder_plan \<Rightarrow> nat \<Rightarrow> bool" where
  "source_file disk base pl i \<longleftrightarrow>
     disk (join base (fm_path (pl_items pl ! i))) = Some (pl_data pl i) \<and>
     length (pl_data pl i) \<le> 2 ^ 40 \<and> fm_size (pl_items pl ! i) = word_of_nat (length (pl_data pl i))"

definition target_path :: "string \<Rightarrow> folder_plan \<Rightarrow> nat \<Rightarrow> bool" where
  "target_path out pl i \<longleftrightarrow>
     (\<exists>q. sanitize_relative_path (fm_path (pl_items pl ! i)) = Inr q \<and> pl_dst pl i = join out q)"

definition chunks_known :: "u32 \<Rightarrow> folder_plan \<Rightarrow> nat \<Rightarrow> bool" where
  "chunks_known cs pl i \<longleftrightarrow> distinct (pl_chunks pl i) \<and>
     (\<exists>n. chunk_count (fm_size (pl_items pl ! i)) cs = Some n \<and> (\<forall>x \<in> set (pl_chunks pl i). x < n))"

definition target_ready :: "u32 \<Rightarrow> disk \<Rightarrow> folder_plan \<Rightarrow> nat \<Rightarrow> bool" where
  "target_ready cs d pl i \<longleftrightarrow> resumable d (pl_dst pl i) (pl_data pl i) (unat cs) (unat ` set (pl_chunks pl i))"

text \<open>No file is received under a name another one uses, be it only until it is complete.\<close>

definition no_clash :: "folder_plan \<Rightarrow> nat set \<Rightarrow> bool" where
  "no_clash pl A \<longleftrightarrow> (\<forall>i \<in> A. \<forall>j \<in> A. i \<noteq> j \<longrightarrow>
     pl_dst pl i \<noteq> pl_dst pl j \<and> pl_dst pl i \<noteq> partial_path (pl_dst pl j))"

lemma target_ready_cong:
  "d' (partial_path (pl_dst pl i)) = d (partial_path (pl_dst pl i)) \<Longrightarrow>
     target_ready cs d' pl i = target_ready cs d pl i"
  by (simp add: target_ready_def resumable_def holds_def)

lemma no_clashD:
  assumes "no_clash pl A" "i \<in> A" "j \<in> A" "i \<noteq> j"
  shows "pl_dst pl j \<notin> {pl_dst pl i, partial_path (pl_dst pl i)}"
    "partial_path (pl_dst pl j) \<notin> {pl_dst pl i, partial_path (pl_dst pl i)}"
  using assms unfolding no_clash_def by (auto simp: partial_path_def) metis+

definition arrives :: "block \<Rightarrow> bytes list \<Rightarrow> bool" where
  "arrives = (\<lambda>(i, d, b) b'. mset b' = mset b \<and> (\<forall>raw \<in> set b'. length raw \<le> MAX_CHUNK_STREAM_BYTES))"

definition block_sent ::
  "folder_env \<Rightarrow> disk \<Rightarrow> string \<Rightarrow> config_message \<Rightarrow> folder_plan \<Rightarrow> nat \<Rightarrow> 256 word \<Rightarrow> bytes list \<Rightarrow> bool" where
  "block_sent env disk base cfg pl i d b \<longleftrightarrow>
     (\<exists>now t. send_file (sender_of env cfg i) disk (join base (fm_path (pl_items pl ! i)))
        (pl_chunks pl i) (session_new cfg now) = (Inr d, t) \<and> tx_streams t = b)"

lemma receive_items_ok:
  assumes libs: "rmp_ok (fv_rmp renv)" "fv_sha renv = fe_sha env" "inverts (fe_encode env) (fv_decode renv)"
    and cs: "chunk_size cfg \<noteq> 0"
    and items: "drop k (pl_items pl) = metas" "ti_items info = pl_items pl"
    and idx: "map fst bs = filter (\<lambda>i. i \<notin> skip) [k..<length (pl_items pl)]"
    and skip: "\<forall>i < length (pl_items pl). word_of_nat i \<in> set (ti_completed_files info) \<longleftrightarrow> i \<in> skip"
    and sent: "\<forall>(i, d, b) \<in> set bs. block_sent env disk base cfg pl i d b \<and>
        sendable (fv_rmp renv) (checksum_message tid i d) \<and> source_file disk base pl i \<and>
        target_path out pl i \<and> chunks_known (chunk_size cfg) pl i \<and>
        already_sent info i = word_of_nat (length (pl_chunks pl i))"
    and clash: "no_clash pl A" "set (map fst bs) \<subseteq> A"
    and r: "healthy r" "fi_config r = cfg" "fi_transfer_id r = tid"
        "unread r = announced (fv_rmp renv) tid bs @ rest"
        "list_all2 arrives bs arr" "fi_streams r = map Inr (concat arr) @ later"
        "\<forall>(i, d, b) \<in> set bs. target_ready (chunk_size cfg) (fi_disk r) pl i"
  shows "\<exists>r'. receive_items renv out info k metas r = (Inr (), r') \<and> healthy r' \<and>
     unread r' = rest \<and> fi_streams r' = later \<and>
     (\<forall>(i, d, b) \<in> set bs. fi_disk r' (pl_dst pl i) = Some (pl_data pl i)) \<and>
     (\<forall>p. (\<forall>i \<in> set (map fst bs). p \<noteq> pl_dst pl i \<and> p \<noteq> partial_path (pl_dst pl i)) \<longrightarrow> fi_disk r' p = fi_disk r p)"
  using items(1) idx sent clash(2) r
proof (induction metas arbitrary: k bs arr r)
  case Nil
  then have "length (pl_items pl) \<le> k" by simp
  with Nil have "bs = []" "arr = []" by auto
  with Nil show ?case by simp
next
  case (Cons meta metas)
  have k: "k < length (pl_items pl)" "pl_items pl ! k = meta" "drop (Suc k) (pl_items pl) = metas"
    using Cons.prems(1) by (auto simp: drop_Suc nth_via_drop dest: sym)
       (metis drop_eq_Nil list.distinct(1) not_le, metis drop_Suc list.sel(3) tl_drop)
  have upt: "[k..<length (pl_items pl)] = k # [Suc k..<length (pl_items pl)]"
    using k(1) by (simp add: upt_conv_Cons)
  show ?case
  proof (cases "k \<in> skip")
    case True
    have "map fst bs = filter (\<lambda>i. i \<notin> skip) [Suc k..<length (pl_items pl)]"
      using Cons.prems(2) True upt by simp
    from Cons.IH [OF k(3) this Cons.prems(3-)] show ?thesis
      using skip k(1) True by simp
  next
    case False
    then obtain d b bs' where bs: "bs = (k, d, b) # bs'"
        and idx': "map fst bs' = filter (\<lambda>i. i \<notin> skip) [Suc k..<length (pl_items pl)]"
      using Cons.prems(2) upt by (cases bs) auto
    obtain blk arr' where arr: "arr = blk # arr'" "arrives (k, d, b) blk" "list_all2 arrives bs' arr'"
      using Cons.prems(9) by (auto simp: bs list_all2_Cons1)
    have kk: "block_sent env disk base cfg pl k d b" "sendable (fv_rmp renv) (checksum_message tid k d)"
        "source_file disk base pl k" "target_path out pl k" "chunks_known (chunk_size cfg) pl k"
        "already_sent info k = word_of_nat (length (pl_chunks pl k))"
        "target_ready (chunk_size cfg) (fi_disk r) pl k"
      using Cons.prems(3,11) by (simp_all add: bs)
    obtain now t where t: "send_file (sender_of env cfg k) disk (join base (fm_path meta)) (pl_chunks pl k)
        (session_new cfg now) = (Inr d, t)" "tx_streams t = b"
      using kk(1) k(2) by (auto simp: block_sent_def)
    obtain q where q: "sanitize_relative_path (fm_path meta) = Inr q" "pl_dst pl k = join out q"
      using kk(4) k(2) by (auto simp: target_path_def)
    obtain n where n: "chunk_count (word_of_nat (length (pl_data pl k))) (chunk_size cfg) = Some n"
        "distinct (pl_chunks pl k)" "\<forall>x \<in> set (pl_chunks pl k). x < n"
      using kk(3,5) by (auto simp: chunks_known_def source_file_def)
    obtain r1 where r1: "receive_item renv out info k meta r = (Inr (), r1)"
        "fi_streams r1 = map Inr (concat arr') @ later" "fi_disk r1 (pl_dst pl k) = Some (pl_data pl k)"
        "\<forall>p. p \<noteq> pl_dst pl k \<longrightarrow> p \<noteq> partial_path (pl_dst pl k) \<longrightarrow> fi_disk r1 p = fi_disk r p"
        "unread r1 = announced (fv_rmp renv) tid bs' @ rest" "healthy r1" "fi_config r1 = cfg" "fi_transfer_id r1 = tid"
      using receive_item_ok [of renv r k d "announced (fv_rmp renv) tid bs' @ rest" meta q "pl_dst pl k" out disk
          "join base (fm_path meta)" "pl_data pl k" env "pl_chunks pl k" now t n info blk
          "map Inr (concat arr') @ later"]
        Cons.prems(5-8,10) libs cs kk t q n arr k(2)
      by (auto simp: bs source_file_def target_ready_def arrives_def)
    have other: "j \<in> A \<and> k \<in> A \<and> k \<noteq> j" if "(j, d', b') \<in> set bs'" for j d' b'
    proof -
      have "j \<in> set (map fst bs')" using that by force
      then have "j \<noteq> k" by (simp add: idx' del: set_map)
      with that Cons.prems(4) show ?thesis by (force simp: bs)
    qed
    have keep: "fi_disk r1 p = fi_disk r p" if "(j, d', b') \<in> set bs'" "p \<in> {pl_dst pl j, partial_path (pl_dst pl j)}" for j d' b' p
      using no_clashD [OF clash(1), of k j] other [OF that(1)] that(2) r1(4) by auto
    have ready: "\<forall>(i, d, b) \<in> set bs'. target_ready (chunk_size cfg) (fi_disk r1) pl i"
    proof clarify
      fix j d' b' assume jb: "(j, d', b') \<in> set bs'"
      then have "target_ready (chunk_size cfg) (fi_disk r) pl j" using Cons.prems(11) by (auto simp: bs)
      with keep [OF jb] show "target_ready (chunk_size cfg) (fi_disk r1) pl j"
        using target_ready_cong [of "fi_disk r1" pl j "fi_disk r"] by simp
    qed
    have sub: "set (map fst bs') \<subseteq> A" using Cons.prems(4) by (simp add: bs)
    obtain r' where r': "receive_items renv out info (Suc k) metas r1 = (Inr (), r')" "healthy r'"
        "unread r' = rest" "fi_streams r' = later"
        "\<forall>(i, d, b) \<in> set bs'. fi_disk r' (pl_dst pl i) = Some (pl_data pl i)"
        "\<forall>p. (\<forall>i \<in> set (map fst bs'). p \<noteq> pl_dst pl i \<and> p \<noteq> partial_path (pl_dst pl i)) \<longrightarrow> fi_disk r' p = fi_disk r1 p"
      using Cons.IH [OF k(3) idx' _ sub r1(6-8,5) arr(3) r1(2) ready] Cons.prems(3) by (auto simp: bs)
    have "fi_disk r' (pl_dst pl k) = fi_disk r1 (pl_dst pl k)"
    proof -
      have "\<forall>j \<in> set (map fst bs'). pl_dst pl k \<noteq> pl_dst pl j \<and> pl_dst pl k \<noteq> partial_path (pl_dst pl j)"
        using other no_clashD(1) [OF clash(1)] by fastforce
      with r'(6) show ?thesis by blast
    qed
    moreover have "word_of_nat k \<notin> set (ti_completed_files info)" using skip k(1) False by blast
    ultimately show ?thesis
      using r' r1(1,3,4) by (auto simp: bs andthen_apply)
  qed
qed

section \<open>The whole folder\<close>

text \<open>Only the file the sender will resume at has chunks delivered without being complete.\<close>

definition only_current :: "folder_transfer_state \<Rightarrow> bool" where
  "only_current st \<longleftrightarrow> (\<forall>i < length (ft_files st). i \<notin> set (ft_completed_files st) \<longrightarrow>
     get_completed_chunks st i \<noteq> [] \<longrightarrow> next_file st = Some i)"

definition ready_to_send :: "config_message \<Rightarrow> folder_transfer_state \<Rightarrow> bool" where
  "ready_to_send cfg st \<longleftrightarrow> folder_ok st \<and> only_current st \<and> ft_config st = cfg \<and> chunk_size cfg \<noteq> 0 \<and>
     length (ft_files st) \<le> 2 ^ 32 \<and> (\<forall>f \<in> set (ft_files st). fm_size f \<le> MAX_TRANSFER_FILE_SIZE)"

lemma next_file_below: "next_file st = Some i \<Longrightarrow> i < length (ft_files st)"
  by (auto simp: next_file_def find_Some_iff)

lemma unat_u32: "i < 2 ^ 32 \<Longrightarrow> unat (word_of_nat i :: u32) = i"
  by (simp add: unsigned_of_nat take_bit_nat_eq_self)

definition resumes_at :: "folder_transfer_state \<Rightarrow> resume_point option \<Rightarrow> bool" where
  "resumes_at st rp \<longleftrightarrow>
     (rp = None \<and> (\<forall>i < length (ft_files st). i \<notin> set (ft_completed_files st) \<longrightarrow> get_completed_chunks st i = [])) \<or>
     (\<exists>tid. rp = resume_point_of tid st)"

lemma already_sent_manifest:
  assumes "ready_to_send cfg st" "resumes_at st (ti_resume_from info)"
    and i: "i < length (ft_files st)" "i \<notin> set (ft_completed_files st)"
  shows "already_sent info i = word_of_nat (length (get_completed_chunks st i))"
proof (cases "get_completed_chunks st i = []")
  case False
  then have "next_file st = Some i" using assms by (auto simp: ready_to_send_def only_current_def)
  moreover have "i < 2 ^ 32" using assms(1) i(1) by (auto simp: ready_to_send_def)
  ultimately show ?thesis
    using assms(2) False i by (auto simp: already_sent_def resumes_at_def resume_point_of_def unat_u32)
next
  case True
  have small: "j < 2 ^ 32" if "next_file st = Some j" for j
    using next_file_below [OF that] assms(1) by (auto simp: ready_to_send_def)
  show ?thesis
  proof (cases "ti_resume_from info")
    case None
    with True show ?thesis by (simp add: already_sent_def)
  next
    case (Some x)
    then obtain tid where "Some x = resume_point_of tid st"
      using assms(2) by (auto simp: resumes_at_def)
    then obtain y where "next_file st = Some y" "get_completed_chunks st y \<noteq> []"
        "rp_file_index x = word_of_nat y"
      by (auto simp: resume_point_of_def split: option.splits if_splits)
    with True Some small [of y] show ?thesis by (auto simp: already_sent_def unat_u32)
  qed
qed

lemma completed_u32:
  assumes "ready_to_send cfg st" "i < length (ft_files st)"
  shows "word_of_nat i \<in> set (map (word_of_nat :: nat \<Rightarrow> u32) (ft_completed_files st)) \<longleftrightarrow>
    i \<in> set (ft_completed_files st)"
proof -
  have bound: "j < 2 ^ 32" if "j \<in> set (ft_completed_files st) \<or> j = i" for j
    using that assms by (auto simp: ready_to_send_def folder_ok_def)
  show ?thesis
  proof
    assume "word_of_nat i \<in> set (map (word_of_nat :: nat \<Rightarrow> u32) (ft_completed_files st))"
    then obtain j where "j \<in> set (ft_completed_files st)" "(word_of_nat i :: u32) = word_of_nat j" by auto
    then show "i \<in> set (ft_completed_files st)" using bound unat_u32 by metis
  qed auto
qed

lemma chunks_known_ok:
  assumes "ready_to_send cfg st" "i < length (ft_files st)" "pl_items pl = ft_files st"
    "pl_chunks pl = get_completed_chunks st"
  shows "chunks_known (chunk_size cfg) pl i"
proof -
  have "chunk_size cfg \<noteq> 0" "unat (fm_size (ft_files st ! i)) \<le> 2 ^ 40"
    using assms(1,2) MAX_TRANSFER_nat nth_mem [of i "ft_files st"]
    by (auto simp: ready_to_send_def word_le_nat_alt)
  then obtain n where n: "chunk_count (fm_size (ft_files st ! i)) (chunk_size cfg) = Some n"
    using chunk_count_nat by blast
  moreover have "distinct (get_completed_chunks st i) \<and> (\<forall>x \<in> set (get_completed_chunks st i). in_range st i x)"
    using assms(1) unfolding ready_to_send_def folder_ok_def by blast
  moreover have "ft_config st = cfg" using assms(1) by (simp add: ready_to_send_def)
  ultimately show ?thesis
    using assms(2-) by (auto simp: chunks_known_def in_range_def folder_chunks_def)
qed

lemma already_transferred_Some:
  "chunk_size cfg \<noteq> 0 \<Longrightarrow> \<exists>b. already_transferred cfg info = Some b"
  by (auto simp: already_transferred_def Let_def chunk_count_def split: option.splits)

text \<open>What the sender wrote in a successful run.\<close>

lemma prepare_Inr:
  assumes "prepare path src s = (Inr rp, s0)"
  shows "fo_connection s0 = fo_connection s \<and> fo_streams s0 = fo_streams s \<and> fo_config s0 = fo_config s \<and>
    fo_transfer_id s0 = fo_transfer_id s \<and> ft_files (fo_state s0) \<noteq> [] \<and> resumes_at (fo_state s0) rp"
proof (cases "ft_files (fo_state s) = []")
  case False
  with assms show ?thesis by (auto simp: prepare_def resumes_at_def)
next
  case True
  have "files \<noteq> []" if "list_files path src b = Inr files" for b files
    using that by (auto simp: list_files_def split: option.splits node.splits if_splits)
  with True assms show ?thesis
    by (auto simp: prepare_def resumes_at_def folder_state_new_def get_completed_chunks_def
        split: option.splits sum.splits)
qed

lemma folder_send_Inr:
  assumes run: "folder_send env disk path src s = (Inr u, s')"
    and prep: "prepare path src (s\<lparr> fo_transfer_start := Some (fo_now s), fo_total_compressed_bytes := 0 \<rparr>) = (Inr rp, s0)"
    and base: "base_path path src = Inr base"
  shows "\<exists>bs cm. map fst bs = filter (\<lambda>i. i \<notin> set (ft_completed_files (fo_state s0))) [0..<length (ft_files (fo_state s0))] \<and>
     (\<forall>(i, d, b) \<in> set bs. sends_block env disk base (fo_config s) (fo_state s0) i d b \<and>
        sendable (fe_rmp env) (checksum_message (fo_transfer_id s) i d)) \<and>
     sendable (fe_rmp env) (TransferInfoMsg (manifest rp s0)) \<and> sendable (fe_rmp env) (Complete cm) \<and>
     fo_streams s' = fo_streams s @ streams_of bs \<and>
     written s' = written s @ wire_of (fe_rmp env) (TransferInfoMsg (manifest rp s0)) @
        announced (fe_rmp env) (fo_transfer_id s) bs @ wire_of (fe_rmp env) (Complete cm) \<and>
     set (ft_completed_files (fo_state s')) =
        set (ft_completed_files (fo_state s0)) \<union> {..<length (ft_files (fo_state s0))}"
proof -
  note p = prepare_Inr [OF prep]
  let ?p0 = "with_progress (set_total_bytes (ft_total_bytes (fo_state s0))) s0"
  obtain u1 s1 u2 s2 u3 s3 where
      1: "control (send_message (fe_rmp env) (TransferInfoMsg (manifest rp s0))) ?p0 = (Inr u1, s1)"
      and 2: "control (await_ready (fe_rmp env)) s1 = (Inr u2, s2)"
      and 3: "send_files env disk base [0..<length (ft_files (fo_state s2))] s2 = (Inr u3, s3)"
      and 4: "send_complete env s3 = (Inr u, s')"
    using run prep base by (auto simp: folder_send_def andthen_eq_Inr)
  have p0: "written ?p0 = written s" "fo_state ?p0 = fo_state s0" "fo_streams ?p0 = fo_streams s"
      "fo_config ?p0 = fo_config s" "fo_transfer_id ?p0 = fo_transfer_id s"
    using p by (simp_all add: with_progress_def written_def)
  note one = control_send_Inr [OF 1] control_frame [OF 1]
  note two = control_recv_Inr [OF 2 await_keeps_send] control_frame [OF 2]
  obtain bs where bs: "map fst bs = filter (\<lambda>i. i \<notin> set (ft_completed_files (fo_state s2))) [0..<length (ft_files (fo_state s2))]"
     "\<forall>(i, d, b) \<in> set bs. sends_block env disk base (fo_config s2) (fo_state s2) i d b \<and>
        sendable (fe_rmp env) (checksum_message (fo_transfer_id s2) i d)"
     "fo_streams s3 = fo_streams s2 @ streams_of bs"
     "written s3 = written s2 @ announced (fe_rmp env) (fo_transfer_id s2) bs"
     "set (ft_completed_files (fo_state s3)) =
        set (ft_completed_files (fo_state s2)) \<union> {..<length (ft_files (fo_state s2))}"
    using send_files_Inr [OF 3] by (auto simp: atLeast0LessThan)
  obtain cm u4 s4 where 5: "control (send_message (fe_rmp env) (Complete cm)) s3 = (Inr u4, s4)"
      and s': "s' = with_progress finish s4"
    using 4 by (auto simp: send_complete_def andthen_eq_Inr)
  note five = control_send_Inr [OF 5] control_frame [OF 5]
  have "written s' = written s4" "fo_streams s' = fo_streams s4" "fo_state s' = fo_state s4"
    by (simp_all add: s' with_progress_def written_def)
  then show ?thesis
    using bs one two five p0 by (intro exI [of _ bs] exI [of _ cm]) simp
qed

definition receiver_waiting ::
  "receiver_env \<Rightarrow> config_message \<Rightarrow> folder_plan \<Rightarrow> nat set \<Rightarrow> bytes \<Rightarrow> bytes list list \<Rightarrow> folder_receiver \<Rightarrow> bool" where
  "receiver_waiting renv cfg pl completed w arr r \<longleftrightarrow>
     healthy r \<and> fi_config r = cfg \<and> unread r = w \<and> fi_streams r = map Inr (concat arr) \<and>
     (\<forall>i < length (pl_items pl).
        if i \<in> completed then fi_disk r (pl_dst pl i) = Some (pl_data pl i)
        else target_ready (chunk_size cfg) (fi_disk r) pl i)"

lemma receive_folder_ok:
  assumes libs: "rmp_ok (fv_rmp renv)" "sendable (fv_rmp renv) Ready" "fv_sha renv = fe_sha env"
        "inverts (fe_encode env) (fv_decode renv)" "fv_accept renv info = Accept"
    and st: "ready_to_send cfg st" "resumes_at st (ti_resume_from info)" "ft_files st \<noteq> []"
    and info: "ti_items info = ft_files st" "ti_completed_files info = map word_of_nat (ft_completed_files st)"
        "ti_transfer_id info = tid"
    and pl: "pl_items pl = ft_files st" "pl_chunks pl = get_completed_chunks st"
    and ok: "\<forall>i < length (ft_files st). source_file disk base pl i \<and> target_path out pl i"
        "no_clash pl {..<length (ft_files st)}"
    and bs: "map fst bs = filter (\<lambda>i. i \<notin> set (ft_completed_files st)) [0..<length (ft_files st)]"
        "\<forall>(i, d, b) \<in> set bs. sends_block env disk base cfg st i d b \<and>
           sendable (fv_rmp renv) (checksum_message tid i d)"
    and msgs: "sendable (fv_rmp renv) (TransferInfoMsg info)" "sendable (fv_rmp renv) (Complete cm)"
    and arr: "list_all2 arrives bs arr"
    and r: "receiver_waiting renv cfg pl (set (ft_completed_files st))
       (wire_of (fv_rmp renv) (TransferInfoMsg info) @ announced (fv_rmp renv) tid bs @ wire_of (fv_rmp renv) (Complete cm)) arr r"
  shows "\<exists>r' sm. receive_folder renv out r = (Inr sm, r') \<and> sum_files sm = map fm_path (ft_files st) \<and>
     fi_streams r' = [] \<and> (\<forall>i < length (ft_files st). fi_disk r' (pl_dst pl i) = Some (pl_data pl i))"
proof -
  let ?done = "set (ft_completed_files st)" and ?n = "length (ft_files st)"
  have cs: "chunk_size cfg \<noteq> 0" using st(1) by (simp add: ready_to_send_def)
  note w = r [unfolded receiver_waiting_def]
  obtain c1 where 1: "control_in (recv_message (fv_rmp renv)) r = (Inr (TransferInfoMsg info), r\<lparr> fi_connection := c1 \<rparr>)"
      "unread (r\<lparr> fi_connection := c1 \<rparr>) = announced (fv_rmp renv) tid bs @ wire_of (fv_rmp renv) (Complete cm)"
      "healthy (r\<lparr> fi_connection := c1 \<rparr>)"
    using control_in_recv_ok [OF libs(1) msgs(1), of r] w by blast
  obtain before where before: "already_transferred cfg info = Some before"
    using already_transferred_Some [OF cs] by blast
  let ?r1 = "r\<lparr> fi_connection := c1 \<rparr>"
  let ?r2 = "start_receiving info out before (?r1\<lparr> fi_transfer_id := tid,
       fi_transfer_start := Some (fi_now r), fi_total_compressed_bytes := 0 \<rparr>)"
  have r2: "healthy ?r2" "unread ?r2 = unread ?r1" "fi_config ?r2 = cfg" "fi_transfer_id ?r2 = tid"
      "fi_streams ?r2 = fi_streams r" "fi_disk ?r2 = fi_disk r"
    using 1(3) w by (simp_all add: start_receiving_def with_bar_def create_dir_all_def healthy_def unread_def)
  obtain c3 where 3: "control_in (send_message (fv_rmp renv) Ready) ?r2 = (Inr (), ?r2\<lparr> fi_connection := c3 \<rparr>)"
      "unread (?r2\<lparr> fi_connection := c3 \<rparr>) = unread ?r2" "healthy (?r2\<lparr> fi_connection := c3 \<rparr>)"
    using control_in_send_ok [OF libs(2) r2(1)] by blast
  let ?r3 = "?r2\<lparr> fi_connection := c3 \<rparr>"
  have skip: "\<forall>i < length (pl_items pl). word_of_nat i \<in> set (ti_completed_files info) \<longleftrightarrow> i \<in> ?done"
    using completed_u32 [OF st(1)] by (simp add: pl info del: set_map)
  have mem: "i < ?n \<and> i \<notin> ?done" if "(i, d, b) \<in> set bs" for i d b
  proof -
    have "i \<in> set (map fst bs)" using that by force
    then show ?thesis by (simp add: bs(1) del: set_map)
  qed
  have sent: "\<forall>(i, d, b) \<in> set bs. block_sent env disk base cfg pl i d b \<and>
        sendable (fv_rmp renv) (checksum_message tid i d) \<and> source_file disk base pl i \<and>
        target_path out pl i \<and> chunks_known (chunk_size cfg) pl i \<and>
        already_sent info i = word_of_nat (length (pl_chunks pl i))"
  proof clarify
    fix i d b assume ib: "(i, d, b) \<in> set bs"
    note m = mem [OF ib]
    have "sends_block env disk base cfg st i d b" using bs(2) ib by auto
    then have "block_sent env disk base cfg pl i d b" by (simp add: block_sent_def sends_block_def pl)
    moreover have "chunks_known (chunk_size cfg) pl i"
      using chunks_known_ok [OF st(1) _ pl] m by simp
    moreover have "already_sent info i = word_of_nat (length (pl_chunks pl i))"
      using already_sent_manifest [OF st(1,2)] m by (simp add: pl)
    ultimately show "block_sent env disk base cfg pl i d b \<and>
        sendable (fv_rmp renv) (checksum_message tid i d) \<and> source_file disk base pl i \<and>
        target_path out pl i \<and> chunks_known (chunk_size cfg) pl i \<and>
        already_sent info i = word_of_nat (length (pl_chunks pl i))"
      using ok(1) m bs(2) ib by auto
  qed
  have sub: "set (map fst bs) \<subseteq> {..<?n}" using mem by force
  have ready: "\<forall>(i, d, b) \<in> set bs. target_ready (chunk_size cfg) (fi_disk ?r3) pl i"
    using w mem r2(6) by (auto simp: pl)
  obtain r4 where r4: "receive_items renv out info 0 (pl_items pl) ?r3 = (Inr (), r4)" "healthy r4"
      "unread r4 = wire_of (fv_rmp renv) (Complete cm)" "fi_streams r4 = []"
      "\<forall>(i, d, b) \<in> set bs. fi_disk r4 (pl_dst pl i) = Some (pl_data pl i)"
      "\<forall>p. (\<forall>i \<in> set (map fst bs). p \<noteq> pl_dst pl i \<and> p \<noteq> partial_path (pl_dst pl i)) \<longrightarrow> fi_disk r4 p = fi_disk ?r3 p"
    using receive_items_ok [of renv env cfg 0 pl "pl_items pl" info bs ?done disk base tid out "{..<?n}" ?r3
        "wire_of (fv_rmp renv) (Complete cm)" arr "[]"]
      libs cs bs(1) skip sent ok(2) sub 3 1(2) r2 arr w ready
    by (simp add: pl info) blast
  obtain c5 where 5: "control_in (recv_message (fv_rmp renv)) r4 = (Inr (Complete cm), r4\<lparr> fi_connection := c5 \<rparr>)"
    using control_in_recv_ok [OF libs(1) msgs(2), of r4 "[]"] r4(2,3) by auto
  let ?r' = "with_bar finish (r4\<lparr> fi_connection := c5 \<rparr>)"
  have valid: "first_bad_size (ti_items info) = Inr ()"
    using st(1) by (simp add: first_bad_size_Inr info ready_to_send_def)
  have run: "receive_folder renv out r = (Inr (summary_of info before), ?r')"
    using 1(1) 3(1) r4(1) 5 before valid libs(5) st(3) w
    by (simp add: receive_folder_def andthen_apply receive_accepted_def Let_def expect_complete_def info pl)
  have "fi_disk r4 (pl_dst pl i) = Some (pl_data pl i)" if "i < ?n" for i
  proof (cases "i \<in> ?done")
    case True
    have "pl_dst pl i \<noteq> pl_dst pl j \<and> pl_dst pl i \<noteq> partial_path (pl_dst pl j)" if "j \<in> set (map fst bs)" for j
    proof -
      have "j < ?n" "j \<notin> ?done" using mem that by auto
      with True \<open>i < ?n\<close> have "j \<in> {..<?n}" "i \<in> {..<?n}" "j \<noteq> i" by auto
      with no_clashD(1) [OF ok(2), of j i] show ?thesis by simp
    qed
    with r4(6) have "fi_disk r4 (pl_dst pl i) = fi_disk ?r3 (pl_dst pl i)" by blast
    moreover have "fi_disk r (pl_dst pl i) = Some (pl_data pl i)" using w that True by (auto simp: pl)
    ultimately show ?thesis using r2(6) by simp
  next
    case False
    then have "i \<in> set (map fst bs)" using that by (simp add: bs(1) del: set_map)
    then obtain d b where "(i, d, b) \<in> set bs" by auto
    with r4(5) show ?thesis by auto
  qed
  then show ?thesis
    using run r4(4) by (simp add: summary_of_def with_bar_def info)
qed

text \<open>The two sides together.\<close>

lemma folder_transfer_delivers:
  assumes libs: "rmp_ok (fe_rmp env)" "sendable (fe_rmp env) Ready" "fv_rmp renv = fe_rmp env"
        "fv_sha renv = fe_sha env" "inverts (fe_encode env) (fv_decode renv)" "fv_accept renv = (\<lambda>info. Accept)"
    and run: "folder_send env disk path src s = (Inr (), s')"
    and prep: "prepare path src (s\<lparr> fo_transfer_start := Some (fo_now s), fo_total_compressed_bytes := 0 \<rparr>) = (Inr rp, s0)"
        "base_path path src = Inr base" "ready_to_send (fo_config s) (fo_state s0)"
    and wrote: "written s' = written s @ w"
    and pl: "pl_items pl = ft_files (fo_state s0)" "pl_chunks pl = get_completed_chunks (fo_state s0)"
    and ok: "\<forall>i < length (pl_items pl). source_file disk base pl i \<and> target_path out pl i"
        "no_clash pl {..<length (pl_items pl)}"
  shows "\<exists>bs. fo_streams s' = fo_streams s @ streams_of bs \<and>
     map fst bs = filter (\<lambda>i. i \<notin> set (ft_completed_files (fo_state s0))) [0..<length (pl_items pl)] \<and>
     set (ft_completed_files (fo_state s')) = {..<length (pl_items pl)} \<and>
     (\<forall>arr r. list_all2 arrives bs arr \<longrightarrow>
        receiver_waiting renv (fo_config s) pl (set (ft_completed_files (fo_state s0))) w arr r \<longrightarrow>
        (\<exists>r' sm. receive_folder renv out r = (Inr sm, r') \<and> sum_files sm = map fm_path (pl_items pl) \<and>
           fi_streams r' = [] \<and> (\<forall>i < length (pl_items pl). fi_disk r' (pl_dst pl i) = Some (pl_data pl i))))"
proof -
  note p = prepare_Inr [OF prep(1)]
  obtain bs cm where bs: "map fst bs = filter (\<lambda>i. i \<notin> set (ft_completed_files (fo_state s0))) [0..<length (ft_files (fo_state s0))]"
     "\<forall>(i, d, b) \<in> set bs. sends_block env disk base (fo_config s) (fo_state s0) i d b \<and>
        sendable (fe_rmp env) (checksum_message (fo_transfer_id s) i d)"
     "sendable (fe_rmp env) (TransferInfoMsg (manifest rp s0))" "sendable (fe_rmp env) (Complete cm)"
     "fo_streams s' = fo_streams s @ streams_of bs"
     "written s' = written s @ wire_of (fe_rmp env) (TransferInfoMsg (manifest rp s0)) @
        announced (fe_rmp env) (fo_transfer_id s) bs @ wire_of (fe_rmp env) (Complete cm)"
     "set (ft_completed_files (fo_state s')) =
        set (ft_completed_files (fo_state s0)) \<union> {..<length (ft_files (fo_state s0))}"
    using folder_send_Inr [OF run prep(1,2)] by blast
  have "set (ft_completed_files (fo_state s0)) \<subseteq> {..<length (ft_files (fo_state s0))}"
    using prep(3) by (simp add: ready_to_send_def folder_ok_def)
  then have all: "set (ft_completed_files (fo_state s')) = {..<length (pl_items pl)}"
    using bs(7) pl by auto
  have w: "w = wire_of (fe_rmp env) (TransferInfoMsg (manifest rp s0)) @
        announced (fe_rmp env) (fo_transfer_id s) bs @ wire_of (fe_rmp env) (Complete cm)"
    using bs(6) wrote by simp
  have "\<exists>r' sm. receive_folder renv out r = (Inr sm, r') \<and> sum_files sm = map fm_path (pl_items pl) \<and>
           fi_streams r' = [] \<and> (\<forall>i < length (pl_items pl). fi_disk r' (pl_dst pl i) = Some (pl_data pl i))"
    if "list_all2 arrives bs arr"
      "receiver_waiting renv (fo_config s) pl (set (ft_completed_files (fo_state s0))) w arr r" for arr r
    using receive_folder_ok [of renv env "manifest rp s0" "fo_config s" "fo_state s0" "fo_transfer_id s" pl disk
        base out bs cm arr r] that libs prep(3) p pl ok bs w
    by (simp add: manifest_def)
  with bs all pl show ?thesis by auto
qed

text \<open>
  C3: let a sender run \<open>folder_send\<close> to success, fresh or resumed from a
  well-formed record, over files that are as listed. What it wrote on the control stream and the
  streams it opened, one block per file not yet completed, are enough for a receiver with the same
  configuration whose disk has the completed files and the delivered chunks: reading exactly that
  control text, and the blocks one after the other with the streams inside each in any order,
  \<open>receive_folder\<close> returns (it neither fails nor waits for ever), consumes every stream, reports the
  names listed and leaves every file of the manifest, equal to the sender's, under the output
  directory. Excepted are folders in which one file's name is another's with \<open>.partial\<close> appended.
\<close>

theorem folder_transfer_correct:
  assumes libs: "rmp_ok (fe_rmp env)" "sendable (fe_rmp env) Ready" "fv_rmp renv = fe_rmp env"
        "fv_sha renv = fe_sha env" "inverts (fe_encode env) (fv_decode renv)" "fv_accept renv = (\<lambda>info. Accept)"
    and run: "folder_send env disk path src s = (Inr (), s')"
    and prep: "prepare path src (s\<lparr> fo_transfer_start := Some (fo_now s), fo_total_compressed_bytes := 0 \<rparr>) = (Inr rp, s0)"
        "base_path path src = Inr base" "ready_to_send (fo_config s) (fo_state s0)"
    and wrote: "written s' = written s @ w"
    and pl: "pl_items pl = ft_files (fo_state s0)" "pl_chunks pl = get_completed_chunks (fo_state s0)"
    and ok: "\<forall>i < length (pl_items pl). source_file disk base pl i \<and> target_path out pl i"
        "no_clash pl {..<length (pl_items pl)}"
  shows "\<exists>bs. fo_streams s' = fo_streams s @ streams_of bs \<and>
     map fst bs = filter (\<lambda>i. i \<notin> set (ft_completed_files (fo_state s0))) [0..<length (pl_items pl)] \<and>
     set (ft_completed_files (fo_state s')) = {..<length (pl_items pl)} \<and>
     (\<forall>arr r. list_all2 arrives bs arr \<longrightarrow>
        receiver_waiting renv (fo_config s) pl (set (ft_completed_files (fo_state s0))) w arr r \<longrightarrow>
        (\<exists>r' sm. receive_folder renv out r = (Inr sm, r') \<and> sum_files sm = map fm_path (pl_items pl) \<and>
           fi_streams r' = [] \<and> (\<forall>i < length (pl_items pl). fi_disk r' (pl_dst pl i) = Some (pl_data pl i))))"
  by (rule folder_transfer_delivers [OF libs run prep wrote pl ok])

section \<open>A folder of one file\<close>

definition demo_config :: config_message where
  "demo_config = config_default\<lparr> compression_enabled := False, chunk_size := 2 \<rparr>"

definition demo_info :: message where
  "demo_info = TransferInfoMsg \<lparr> ti_transfer_id = Uuid 7,
     ti_items = [\<lparr> fm_path = ''a'', fm_size = 1, fm_modified = 0, fm_checksum = 0 \<rparr>],
     ti_resume_from = None, ti_completed_files = [] \<rparr>"

definition demo_sum :: message where
  "demo_sum = checksum_message (Uuid 7) 0 1"

definition demo_complete :: message where
  "demo_complete = Complete \<lparr> cm_transfer_id = Uuid 7, cm_total_bytes = 1, cm_duration_ms = 0 \<rparr>"

definition demo_codec :: rmp where
  "demo_codec = \<lparr> to_vec = (\<lambda>m. if m = demo_info then Inr [0] else if m = Ready then Inr [1]
       else if m = demo_sum then Inr [2] else if m = demo_complete then Inr [3] else Inl ''unknown''),
     from_slice = (\<lambda>b. if b = [0] then Inr demo_info else if b = [1] then Inr Ready
       else if b = [2] then Inr demo_sum else if b = [3] then Inr demo_complete else Inl ''unknown'') \<rparr>"

lemma demo_codec_ok:
  "rmp_ok demo_codec" "sendable demo_codec demo_info" "sendable demo_codec Ready"
  "sendable demo_codec demo_sum" "sendable demo_codec demo_complete"
  "wire_of demo_codec demo_info = frame_of [0]" "wire_of demo_codec Ready = frame_of [1]"
  "wire_of demo_codec demo_sum = frame_of [2]" "wire_of demo_codec demo_complete = frame_of [3]"
  by (simp_all add: rmp_ok_def demo_codec_def sendable_def fits_def wire_of_def MAX_MESSAGE_SIZE_def
      demo_info_def demo_sum_def demo_complete_def checksum_message_def)

definition demo_fenv :: folder_env where
  "demo_fenv = \<lparr> fe_rmp = demo_codec, fe_encode = (\<lambda>x l. Inl []), fe_sha = (\<lambda>b. word_of_nat (length b)),
     fe_link = (\<lambda>_ _. None) \<rparr>"

definition demo_conn :: "bytes \<Rightarrow> connection" where
  "demo_conn b = \<lparr> cn_send = \<lparr> wr_out = [], wr_fail = None \<rparr>, cn_recv = \<lparr> rd_bytes = b, rd_end = None \<rparr>,
     cn_peer_addr = SocketAddr (V4 0) 0, cn_peer_fingerprint = None \<rparr>"

definition demo_sender :: folder_session where
  "demo_sender = folder_session_new (demo_conn (frame_of [1] @ frame_of [2])) demo_config (Uuid 7)
     (folder_state_new (Uuid 7) [] [] demo_config) None 0"

definition demo_state :: folder_transfer_state where
  "demo_state = folder_state_new (Uuid 7) ''a'' [\<lparr> fm_path = ''a'', fm_size = 1, fm_modified = 0, fm_checksum = 0 \<rparr>] demo_config"

lemma demo_prepare:
  "prepare ''d/a'' (Some (FileNode [5] 0)) (demo_sender\<lparr> fo_transfer_start := Some 0, fo_total_compressed_bytes := 0 \<rparr>) =
     (Inr None, demo_sender\<lparr> fo_transfer_start := Some 0, fo_total_compressed_bytes := 0, fo_state := demo_state \<rparr>)"
proof -
  have "file_name ''d/a'' = Some ''a''" by code_simp
  then show ?thesis
    by (simp add: prepare_def demo_sender_def folder_session_new_def folder_state_new_def list_files_def
        metadata_of_def demo_state_def)
qed

lemma demo_base: "base_path ''d/a'' (Some (FileNode [5] 0)) = Inr ''d''"
  by code_simp

lemma demo_stream:
  "send_file (sender_of demo_fenv demo_config 0) [''d/a'' \<mapsto> [5]] ''d/a'' [] (session_new demo_config 0) = (res, t) \<Longrightarrow>
     res = Inr 1 \<and> tx_streams t = [chunk_stream 0 False [5]] \<and> tx_marks t = [0] \<and> tx_now t = 0"
  by (simp add: send_file_def chunk_reader_new_def chunk_count_def config_default_def demo_config_def
        demo_fenv_def sender_of_def session_new_def Let_def indices_def send_chunk_def on_reader_def andthen_apply fold_chunk_def
        read_chunk_def compress_chunk_def throttle_def send_chunk_stream_def account_def upt_rec) auto

lemma control_send_ok:
  assumes "sendable rc m" "wr_fail (cn_send (fo_connection s)) = None"
  shows "control (send_message rc m) s = (Inr (), s\<lparr> fo_connection := (fo_connection s)
    \<lparr> cn_send := \<lparr> wr_out = wr_out (cn_send (fo_connection s)) @ wire_of rc m, wr_fail = None \<rparr> \<rparr> \<rparr>)"
  using send_message_ok [OF assms] by (simp add: control_def)

lemma control_recv_ok:
  assumes "rmp_ok rc" "sendable rc m" "rd_bytes (cn_recv (fo_connection s)) = wire_of rc m @ rest"
  shows "control (recv_message rc) s = (Inr m, s\<lparr> fo_connection := (fo_connection s)
    \<lparr> cn_recv := \<lparr> rd_bytes = rest, rd_end = rd_end (cn_recv (fo_connection s)) \<rparr> \<rparr> \<rparr>)"
  using recv_message_ok [OF assms] by (simp add: control_def)

lemma control_await_ok:
  assumes "rmp_ok rc" "sendable rc Ready" "rd_bytes (cn_recv (fo_connection s)) = wire_of rc Ready @ rest"
  shows "control (await_ready rc) s = (Inr (), s\<lparr> fo_connection := (fo_connection s)
    \<lparr> cn_recv := \<lparr> rd_bytes = rest, rd_end = rd_end (cn_recv (fo_connection s)) \<rparr> \<rparr> \<rparr>)"
  using recv_message_ok [OF assms] by (simp add: control_def await_ready_def)

lemma folder_send_steps:
  assumes "prepare path src (s\<lparr> fo_transfer_start := Some (fo_now s), fo_total_compressed_bytes := 0 \<rparr>) = (Inr rp, s0)"
    and "control (send_message (fe_rmp env) (TransferInfoMsg (manifest rp s0)))
           (with_progress (set_total_bytes (ft_total_bytes (fo_state s0))) s0) = (Inr u1, s1)"
    and "control (await_ready (fe_rmp env)) s1 = (Inr u2, s2)" "base_path path src = Inr base"
    and "send_files env disk base [0..<length (ft_files (fo_state s2))] s2 = (Inr u3, s3)"
  shows "folder_send env disk path src s = send_complete env s3"
  using assms by (simp add: folder_send_def andthen_apply)

lemma demo_send_run:
  "\<exists>s'. folder_send demo_fenv [''d/a'' \<mapsto> [5]] ''d/a'' (Some (FileNode [5] 0)) demo_sender = (Inr (), s') \<and>
     fo_streams s' = [chunk_stream 0 False [5]] \<and> written s' = frame_of [0] @ frame_of [2] @ frame_of [3]"
proof -
  let ?s0 = "demo_sender\<lparr> fo_transfer_start := Some 0, fo_total_compressed_bytes := 0, fo_state := demo_state \<rparr>"
  let ?disk = "[''d/a'' \<mapsto> [5]] :: disk"
  let ?io = "\<lambda>w r s. s\<lparr> fo_connection := (demo_conn r)\<lparr> cn_send := \<lparr> wr_out = w, wr_fail = None \<rparr> \<rparr> \<rparr> :: folder_session"
  obtain res t where t: "send_file (sender_of demo_fenv demo_config 0) ?disk ''d/a'' [] (session_new demo_config 0) = (res, t)"
    by fastforce
  note dt = demo_stream [OF t]
  have rmp: "fe_rmp demo_fenv = demo_codec" by (simp add: demo_fenv_def)
  have f0: "with_progress (set_total_bytes n) ?s0 = ?s0" for n
    by (simp add: with_progress_def demo_sender_def folder_session_new_def)
  have info: "TransferInfoMsg (manifest None ?s0) = demo_info"
    by (simp add: manifest_def demo_info_def demo_sender_def folder_session_new_def demo_state_def folder_state_new_def)
  have 1: "control (send_message demo_codec demo_info) ?s0 = (Inr (), ?io (frame_of [0]) (frame_of [1] @ frame_of [2]) ?s0)"
    using control_send_ok [OF demo_codec_ok(2), of ?s0]
    by (simp add: demo_codec_ok demo_sender_def folder_session_new_def demo_conn_def)
  have 2: "control (await_ready demo_codec) (?io (frame_of [0]) (frame_of [1] @ frame_of [2]) ?s0) =
      (Inr (), ?io (frame_of [0]) (frame_of [2]) ?s0)"
    using control_await_ok [OF demo_codec_ok(1,3), of "?io (frame_of [0]) (frame_of [1] @ frame_of [2]) ?s0" "frame_of [2]"]
    by (simp add: demo_codec_ok demo_conn_def)
  have path: "join ''d'' (fm_path (ft_files demo_state ! 0)) = ''d/a''" by code_simp
  let ?s2 = "?io (frame_of [0]) (frame_of [2]) ?s0"
  obtain s3 where 3: "stream_file demo_fenv ?disk ''d/a'' 0 ?s2 = (Inr 1, s3)"
      "fo_streams s3 = [chunk_stream 0 False [5]]" "fo_connection s3 = fo_connection ?s2"
      "fo_state s3 = mark_chunk_complete 0 0 demo_state" "fo_transfer_id s3 = Uuid 7" "fo_now s3 = 0"
      "fo_has_callback s3 = False" "fo_transfer_start s3 = Some 0" "fo_progress s3 = None"
    using t dt
    by (simp add: stream_file_def sender_of_def demo_sender_def folder_session_new_def demo_state_def
        folder_state_new_def get_completed_chunks_def with_progress_def)
  let ?s4 = "?io (frame_of [0] @ frame_of [2]) (frame_of [2]) s3"
  let ?s5 = "?io (frame_of [0] @ frame_of [2]) [] s3"
  have 4: "control (send_message demo_codec demo_sum) s3 = (Inr (), ?s4)"
    using control_send_ok [OF demo_codec_ok(4), of s3] 3 by (simp add: demo_codec_ok demo_conn_def)
  have 5: "control (recv_message demo_codec) ?s4 = (Inr demo_sum, ?s5)"
    using control_recv_ok [OF demo_codec_ok(1,4), of ?s4 "[]"] by (simp add: demo_codec_ok demo_conn_def)
  have single: "send_single_file demo_fenv ?disk ''d/a'' 0 ?s2 = (Inr (), ?s5)"
    using 3 4 5
    by (simp add: send_single_file_def andthen_apply rmp demo_sum_def [symmetric])
       (simp add: demo_sum_def compare_as_sender_def checksum_message_def)
  have files: "send_files demo_fenv ?disk ''d'' [0] ?s2 = (Inr (), file_done 0 ?s5)"
    using single path by (simp add: andthen_apply) (simp add: demo_state_def folder_state_new_def)
  have n: "length (ft_files (fo_state ?s2)) = 1" by (simp add: demo_state_def folder_state_new_def)
  have cm: "Complete \<lparr> cm_transfer_id = fo_transfer_id (file_done 0 ?s5),
       cm_total_bytes = ft_total_bytes (fo_state (file_done 0 ?s5)),
       cm_duration_ms = word_of_nat (nat \<lfloor>1000 * (fo_now (file_done 0 ?s5) -
          unwrap_or (fo_transfer_start (file_done 0 ?s5)) (fo_now (file_done 0 ?s5)))\<rfloor>) \<rparr> = demo_complete"
    using 3 by (simp add: demo_complete_def file_done_def Let_def demo_state_def folder_state_new_def unwrap_or_def
        mark_file_complete_def)
  have 6: "control (send_message demo_codec demo_complete) (file_done 0 ?s5) =
      (Inr (), ?io (frame_of [0] @ frame_of [2] @ frame_of [3]) [] (file_done 0 ?s5))"
    using control_send_ok [OF demo_codec_ok(5), of "file_done 0 ?s5"] by (simp add: demo_codec_ok demo_conn_def)
  have fin: "send_complete demo_fenv (file_done 0 ?s5) =
      (Inr (), with_progress finish (?io (frame_of [0] @ frame_of [2] @ frame_of [3]) [] (file_done 0 ?s5)))"
    using 6 by (simp only: send_complete_def rmp cm andthen_apply) simp
  have prep: "prepare ''d/a'' (Some (FileNode [5] 0)) (demo_sender\<lparr> fo_transfer_start := Some (fo_now demo_sender),
      fo_total_compressed_bytes := 0 \<rparr>) = (Inr None, ?s0)"
    using demo_prepare by (simp add: demo_sender_def folder_session_new_def)
  have "folder_send demo_fenv ?disk ''d/a'' (Some (FileNode [5] 0)) demo_sender = send_complete demo_fenv (file_done 0 ?s5)"
  proof (rule folder_send_steps [OF prep])
    show "control (send_message (fe_rmp demo_fenv) (TransferInfoMsg (manifest None ?s0)))
        (with_progress (set_total_bytes (ft_total_bytes (fo_state ?s0))) ?s0) =
        (Inr (), ?io (frame_of [0]) (frame_of [1] @ frame_of [2]) ?s0)"
      unfolding rmp info f0 by (rule 1)
    show "control (await_ready (fe_rmp demo_fenv)) (?io (frame_of [0]) (frame_of [1] @ frame_of [2]) ?s0) = (Inr (), ?s2)"
      unfolding rmp by (rule 2)
    show "send_files demo_fenv ?disk ''d'' [0..<length (ft_files (fo_state ?s2))] ?s2 = (Inr (), file_done 0 ?s5)"
      unfolding n using files by simp
  qed (rule demo_base)
  note this [unfolded fin]
  then show ?thesis
    using 3 by (auto simp: with_progress_def written_def file_done_def Let_def)
qed

lemma demo_ready: "ready_to_send demo_config demo_state"
  by (auto simp: ready_to_send_def demo_state_def folder_ok_new only_current_def)
     (auto simp: folder_state_new_def get_completed_chunks_def demo_config_def MAX_TRANSFER_FILE_SIZE_def)

theorem folder_transfer_correct_witness:
  "\<exists>s' r r' sm. folder_send demo_fenv [''d/a'' \<mapsto> [5]] ''d/a'' (Some (FileNode [5] 0)) demo_sender = (Inr (), s') \<and>
     unread r = written s' \<and> fi_streams r = map Inr (fo_streams s') \<and> fi_disk r = Map.empty \<and>
     receive_folder \<lparr> fv_rmp = demo_codec, fv_decode = (\<lambda>x. Inl []), fv_sha = (\<lambda>b. word_of_nat (length b)),
       fv_end = None, fv_accept = (\<lambda>i. Accept) \<rparr> ''in'' r = (Inr sm, r') \<and> fi_disk r' ''in/a'' = Some [5]"
proof -
  let ?renv = "\<lparr> fv_rmp = demo_codec, fv_decode = (\<lambda>x. Inl []), fv_sha = (\<lambda>b. word_of_nat (length b)),
       fv_end = None, fv_accept = (\<lambda>i. Accept) \<rparr>"
  let ?pl = "\<lparr> pl_items = ft_files demo_state, pl_chunks = get_completed_chunks demo_state,
       pl_data = (\<lambda>_. [5]), pl_dst = (\<lambda>_. ''in/a'') \<rparr>"
  let ?s0 = "demo_sender\<lparr> fo_transfer_start := Some 0, fo_total_compressed_bytes := 0, fo_state := demo_state \<rparr>"
  obtain s' where s': "folder_send demo_fenv [''d/a'' \<mapsto> [5]] ''d/a'' (Some (FileNode [5] 0)) demo_sender = (Inr (), s')"
      "fo_streams s' = [chunk_stream 0 False [5]]" "written s' = frame_of [0] @ frame_of [2] @ frame_of [3]"
    using demo_send_run by blast
  have cfg: "fo_config demo_sender = demo_config" "fo_streams demo_sender = []" "written demo_sender = []"
      "fo_now demo_sender = 0"
    by (simp_all add: demo_sender_def folder_session_new_def written_def demo_conn_def)
  have prep: "prepare ''d/a'' (Some (FileNode [5] 0)) (demo_sender\<lparr> fo_transfer_start := Some (fo_now demo_sender),
      fo_total_compressed_bytes := 0 \<rparr>) = (Inr None, ?s0)"
    using demo_prepare cfg by simp
  have one: "length (ft_files demo_state) = 1" "ft_completed_files demo_state = []"
      "ft_files demo_state ! 0 = \<lparr> fm_path = ''a'', fm_size = 1, fm_modified = 0, fm_checksum = 0 \<rparr>"
    by (simp_all add: demo_state_def folder_state_new_def)
  have paths: "join ''d'' ''a'' = ''d/a''" "sanitize_relative_path ''a'' = Inr ''a''" "join ''in'' ''a'' = ''in/a''"
    by code_simp+
  have ok: "\<forall>i < length (pl_items ?pl). source_file [''d/a'' \<mapsto> [5]] ''d'' ?pl i \<and> target_path ''in'' ?pl i"
    using one paths by (simp add: source_file_def target_path_def)
  have libs: "rmp_ok (fe_rmp demo_fenv)" "sendable (fe_rmp demo_fenv) Ready" "fv_rmp ?renv = fe_rmp demo_fenv"
      "fv_sha ?renv = fe_sha demo_fenv" "inverts (fe_encode demo_fenv) (fv_decode ?renv)" "fv_accept ?renv = (\<lambda>info. Accept)"
    by (simp_all add: demo_fenv_def demo_codec_ok inverts_def)
  have clash: "no_clash ?pl {..<length (pl_items ?pl)}"
    using one by (simp add: no_clash_def)
  have wrote: "written s' = written demo_sender @ written s'" using cfg by simp
  have prep': "ready_to_send (fo_config demo_sender) (fo_state ?s0)" using demo_ready cfg by simp
  have pl: "pl_items ?pl = ft_files (fo_state ?s0)" "pl_chunks ?pl = get_completed_chunks (fo_state ?s0)" by simp_all
  obtain bs where raw: "fo_streams s' = fo_streams demo_sender @ streams_of bs"
     "map fst bs = filter (\<lambda>i. i \<notin> set (ft_completed_files (fo_state ?s0))) [0..<length (pl_items ?pl)]"
     "\<forall>arr r. list_all2 arrives bs arr \<longrightarrow>
        receiver_waiting ?renv (fo_config demo_sender) ?pl (set (ft_completed_files (fo_state ?s0))) (written s') arr r \<longrightarrow>
        (\<exists>r' sm. receive_folder ?renv ''in'' r = (Inr sm, r') \<and> sum_files sm = map fm_path (pl_items ?pl) \<and>
           fi_streams r' = [] \<and> (\<forall>i < length (pl_items ?pl). fi_disk r' (pl_dst ?pl i) = Some (pl_data ?pl i)))"
    using folder_transfer_correct [OF libs s'(1) prep demo_base prep' wrote pl ok clash] by blast
  have bs: "[chunk_stream 0 False [5]] = streams_of bs" "map fst bs = [0]"
    using raw(1,2) s'(2) cfg one by simp_all
  have run: "\<exists>r' sm. receive_folder ?renv ''in'' r = (Inr sm, r') \<and> fi_disk r' ''in/a'' = Some [5]"
    if "list_all2 arrives bs arr" "receiver_waiting ?renv demo_config ?pl {} (written s') arr r" for arr r
    using raw(3) [rule_format, of arr r] that one cfg by auto
  from bs(1,2) obtain d where b: "bs = [(0, d, [chunk_stream 0 False [5]])]" by auto
  let ?r = "folder_receiver_new (demo_conn (written s')) demo_config (Uuid 0) Map.empty
     (map Inr [chunk_stream 0 False [5]]) None 0"
  have "list_all2 arrives bs [[chunk_stream 0 False [5]]]"
    by (simp add: b arrives_def MAX_CHUNK_STREAM_BYTES_def)
  moreover have "receiver_waiting ?renv demo_config ?pl {} (written s') [[chunk_stream 0 False [5]]] ?r"
    using one by (simp add: receiver_waiting_def folder_receiver_new_def healthy_def unread_def demo_conn_def
        target_ready_def resumable_def get_completed_chunks_def demo_state_def folder_state_new_def)
  ultimately obtain r' sm where "receive_folder ?renv ''in'' ?r = (Inr sm, r')" "fi_disk r' ''in/a'' = Some [5]"
    using run by blast
  moreover have "unread ?r = written s'" "fi_streams ?r = map Inr (fo_streams s')" "fi_disk ?r = Map.empty"
    using s'(2) by (simp_all add: folder_receiver_new_def unread_def demo_conn_def)
  ultimately show ?thesis using s'(1) by blast
qed

text \<open>
  A folder with the files \<open>x.partial\<close> and \<open>x\<close>: the temporary name of \<open>x\<close> is the other file. The
  chunk writer opens it as a partial file, and completing \<open>x\<close> renames it away: although every
  chunk arrived and every checksum matched, \<open>x.partial\<close> is gone.
\<close>

lemma partial_name_lost:
  assumes "fi_disk r (partial_path dst) = Some f" "accept_file env dst n want r = (Inr d, r')"
  shows "fi_disk r' (partial_path dst) = None"
proof -
  obtain rest x where x: "receive_file \<lparr> re_config = fi_config r, re_decode = fv_decode env, re_sha = fv_sha env \<rparr>
      dst n want (fi_streams r) (fv_end env) \<lparr> rx_disk = fi_disk r, rx_seen = [], rx_progress = 0, rx_marks = [] \<rparr> =
      (Inr (d, rest), x)" "fi_disk r' = rx_disk x"
    using assms(2) by (auto simp: accept_file_def with_bar_def Let_def split: prod.splits sum.splits)
  have "partial_path dst \<noteq> dst" by (simp add: partial_path_def)
  with x show ?thesis
    by (auto simp: receive_file_Inr finalize_Inr chunk_writer_new_def Let_def)
qed

end
