(* ===== verification/Folder_Resume.thy ===== *)
theory Folder_Resume
  imports Folder_Correct
begin

text \<open>
  What an interrupted send leaves behind: however a run of \<open>folder_send\<close> ends, the resume record is
  one the next run can start from, and its manifest counts the delivered chunks right.
\<close>

section \<open>After an interruption\<close>

lemma send_single_file_state:
  assumes "send_single_file env disk (join base (fm_path (ft_files (fo_state s) ! i))) i s = (res, s')"
  shows "fo_config s' = fo_config s \<and>
    (\<exists>d t. send_file (sender_of env (fo_config s) i) disk (join base (fm_path (ft_files (fo_state s) ! i)))
        (get_completed_chunks (fo_state s) i) (session_new (fo_config s) (fo_now s)) = (d, t) \<and>
     fo_state s' = fold (mark_chunk_complete i) (tx_marks t) (fo_state s))"
proof -
  let ?full = "join base (fm_path (ft_files (fo_state s) ! i))"
  obtain d t where t: "send_file (sender_of env (fo_config s) i) disk ?full
      (get_completed_chunks (fo_state s) i) (session_new (fo_config s) (fo_now s)) = (d, t)" by fastforce
  obtain s1 where s1: "stream_file env disk ?full i s = (d, s1)"
      "fo_config s1 = fo_config s" "fo_state s1 = fold (mark_chunk_complete i) (tx_marks t) (fo_state s)"
    using t by (auto simp: stream_file_def sender_of_def with_progress_def)
  have cf: "fo_config q = fo_config p \<and> fo_state q = fo_state p" if "control P p = (r, q)" for P :: "(connection, error, 'x) proc" and p r q
    using control_frame [OF that] by simp
  show ?thesis
  proof (cases d)
    case (Inl e)
    with assms s1 t show ?thesis by (auto simp: send_single_file_def andthen_apply)
  next
    case (Inr digest)
    obtain r2 s2 where 2: "control (send_message (fe_rmp env) (checksum_message (fo_transfer_id s1) i digest)) s1 = (r2, s2)"
      by fastforce
    obtain r3 s3 where 3: "control (recv_message (fe_rmp env)) s2 = (r3, s3)" by fastforce
    have "s' = s2 \<or> s' = s3"
      using assms s1(1) Inr 2 3
      by (cases r2; cases r3) (auto simp: send_single_file_def andthen_apply split: sum.splits)
    with control_frame [OF 2] control_frame [OF 3] s1 t show ?thesis by auto
  qed
qed

lemma next_file_first:
  assumes "i < length (ft_files st)" "i \<notin> set (ft_completed_files st)" "{..<i} \<subseteq> set (ft_completed_files st)"
  shows "next_file st = Some i"
  unfolding next_file_def find_Some_iff using assms by (intro exI [of _ i]) auto

lemma ready_marks:
  assumes "ready_to_send cfg st" "i < length (ft_files st)" "next_file st = Some i"
    and "folder_ok (fold (mark_chunk_complete i) ms st)"
  shows "ready_to_send cfg (fold (mark_chunk_complete i) ms st)"
proof -
  have nf: "next_file (fold (mark_chunk_complete i) ms st) = next_file st" by (simp add: next_file_def)
  have "only_current (fold (mark_chunk_complete i) ms st)"
    unfolding only_current_def
  proof (intro allI impI)
    fix j assume j: "j < length (ft_files (fold (mark_chunk_complete i) ms st))"
      "j \<notin> set (ft_completed_files (fold (mark_chunk_complete i) ms st))"
      "get_completed_chunks (fold (mark_chunk_complete i) ms st) j \<noteq> []"
    show "next_file (fold (mark_chunk_complete i) ms st) = Some j"
    proof (cases "j = i")
      case True
      with nf assms(3) show ?thesis by simp
    next
      case False
      with j assms(1) show ?thesis
        unfolding nf by (auto simp: ready_to_send_def only_current_def fold_marks_other)
    qed
  qed
  with assms show ?thesis by (simp add: ready_to_send_def)
qed

lemma folder_ok_current: "folder_ok (st\<lparr> ft_current_file := c \<rparr>) = folder_ok st"
  by (simp add: folder_ok_def get_completed_chunks_def in_range_def folder_chunks_def)

lemma ready_file_done:
  assumes "ready_to_send cfg (fo_state s)" "i < length (ft_files (fo_state s))" "next_file (fo_state s) = Some i"
  shows "ready_to_send cfg (fo_state (file_done i s))"
proof -
  have "folder_ok (fo_state (file_done i s))"
    using assms folder_ok_mark_file [of "fo_state s" i]
    by (simp add: file_done_def Let_def folder_ok_current ready_to_send_def)
  moreover have "only_current (fo_state (file_done i s))"
    using assms by (auto simp: only_current_def ready_to_send_def)
  moreover have "ft_config (fo_state (file_done i s)) = ft_config (fo_state s)"
    by (simp add: file_done_def Let_def)
  ultimately show ?thesis using assms(1) by (simp add: ready_to_send_def)
qed

lemma send_files_ready:
  assumes "send_files env disk base [k..<n] s = (res, s')"
    and "ready_to_send (fo_config s) (fo_state s)" "inverts (fe_encode env) decode"
    and "n = length (ft_files (fo_state s))" "{..<k} \<subseteq> set (ft_completed_files (fo_state s))"
    and "\<forall>i < n. \<exists>data. disk (join base (fm_path (ft_files (fo_state s) ! i))) = Some data \<and>
       length data \<le> 2 ^ 40 \<and> fm_size (ft_files (fo_state s) ! i) = word_of_nat (length data)"
  shows "ready_to_send (fo_config s) (fo_state s') \<and> ft_files (fo_state s') = ft_files (fo_state s) \<and>
    fo_config s' = fo_config s"
  using assms(1,2,4-6)
proof (induction "n - k" arbitrary: k s)
  case 0
  then show ?case by simp
next
  case (Suc m)
  then have k: "k < n" "m = n - Suc k" by linarith+
  have upt: "[k..<n] = k # [Suc k..<n]" using k(1) by (simp add: upt_conv_Cons)
  show ?case
  proof (cases "k \<in> set (ft_completed_files (fo_state s))")
    case True
    have "send_files env disk base [Suc k..<n] s = (res, s')"
      using Suc.prems(1) True upt by simp
    moreover have "{..<Suc k} \<subseteq> set (ft_completed_files (fo_state s))"
      using True Suc.prems(4) by (auto simp: lessThan_Suc)
    ultimately show ?thesis using Suc.hyps(1) [OF k(2) _ Suc.prems(2,3) _ Suc.prems(5)] by blast
  next
    case False
    note nf = next_file_first [OF _ False Suc.prems(4)]
    obtain r1 s1 where one: "send_single_file env disk (join base (fm_path (ft_files (fo_state s) ! k))) k s = (r1, s1)"
      by fastforce
    obtain d t where t: "send_file (sender_of env (fo_config s) k) disk (join base (fm_path (ft_files (fo_state s) ! k)))
        (get_completed_chunks (fo_state s) k) (session_new (fo_config s) (fo_now s)) = (d, t)"
      "fo_state s1 = fold (mark_chunk_complete k) (tx_marks t) (fo_state s)" "fo_config s1 = fo_config s"
      using send_single_file_state [OF one] by blast
    obtain data where data: "disk (join base (fm_path (ft_files (fo_state s) ! k))) = Some data"
       "length data \<le> 2 ^ 40" "fm_size (ft_files (fo_state s) ! k) = word_of_nat (length data)"
      using Suc.prems(5) k(1) by blast
    have cfg: "folder_ok (fo_state s)" "ft_config (fo_state s) = fo_config s" "chunk_size (fo_config s) \<noteq> 0"
      using Suc.prems(2) by (simp_all add: ready_to_send_def)
    have "unat (fm_size (ft_files (fo_state s) ! k)) \<le> 2 ^ 40"
      using data(2,3) unat_of_length [OF data(2)] by simp
    then obtain c where c: "folder_chunks (fo_state s) k = Some c"
      using chunk_count_nat [OF cfg(3)] k(1) Suc.prems(3) by (auto simp: folder_chunks_def cfg(2))
    have "folder_ok (fold (mark_chunk_complete k) (tx_marks t) (fo_state s))"
      using resume_marks [of "fo_state s" k c disk "join base (fm_path (ft_files (fo_state s) ! k))" data
          "sender_of env (fo_config s) k" decode "fo_now s" d t]
        cfg c data assms(3) t(1) by (simp add: sender_of_def)
    then have r1: "ready_to_send (fo_config s) (fo_state s1)"
      using ready_marks [OF Suc.prems(2) _ nf] k(1) Suc.prems(3) unfolding t(2) by simp
    have f1: "ft_files (fo_state s1) = ft_files (fo_state s)" "ft_completed_files (fo_state s1) = ft_completed_files (fo_state s)"
      by (simp_all add: t(2))
    show ?thesis
    proof (cases r1)
      case (Inl e)
      with Suc.prems(1) False upt one have "s' = s1" by (simp add: andthen_apply)
      with r1 f1 t(3) show ?thesis by simp
    next
      case (Inr u)
      with Suc.prems(1) False upt one have rest: "send_files env disk base [Suc k..<n] (file_done k s1) = (res, s')"
        by (simp add: andthen_apply)
      have "next_file (fo_state s1) = Some k"
        using nf k(1) Suc.prems(3) f1 by (simp add: next_file_def)
      then have "ready_to_send (fo_config (file_done k s1)) (fo_state (file_done k s1))"
        using ready_file_done [OF r1] k(1) Suc.prems(3) f1 t(3) by simp
      moreover have "{..<Suc k} \<subseteq> set (ft_completed_files (fo_state (file_done k s1)))"
        using Suc.prems(4) f1 by (auto simp: lessThan_Suc)
      ultimately show ?thesis
        using Suc.hyps(1) [OF k(2) rest] Suc.prems(3,5) f1 t(3) by simp
    qed
  qed
qed

text \<open>A run of \<open>folder_send\<close>, step by step, with the state it ends in.\<close>

lemma folder_send_states:
  assumes run: "folder_send env disk path src s = (res, s')"
    and prep: "prepare path src (s\<lparr> fo_transfer_start := Some (fo_now s), fo_total_compressed_bytes := 0 \<rparr>) = (Inr rp, s0)"
    and base: "base_path path src = Inr base"
  shows "fo_state s' = fo_state s0 \<or>
    (\<exists>s2 r3 s3. fo_state s2 = fo_state s0 \<and> fo_config s2 = fo_config s \<and> fo_state s' = fo_state s3 \<and>
       send_files env disk base [0..<length (ft_files (fo_state s2))] s2 = (r3, s3) \<and> (res = Inr () \<longrightarrow> r3 = Inr ()))"
proof -
  let ?p0 = "with_progress (set_total_bytes (ft_total_bytes (fo_state s0))) s0"
  have p0: "fo_config ?p0 = fo_config s" "fo_state ?p0 = fo_state s0"
    using prepare_Inr [OF prep(1)] by (simp_all add: with_progress_def)
  obtain r1 s1 where 1: "control (send_message (fe_rmp env) (TransferInfoMsg (manifest rp s0))) ?p0 = (r1, s1)"
    by fastforce
  obtain r2 s2 where 2: "control (await_ready (fe_rmp env)) s1 = (r2, s2)" by fastforce
  obtain r3 s3 where 3: "send_files env disk base [0..<length (ft_files (fo_state s2))] s2 = (r3, s3)" by fastforce
  note f1 = control_frame [OF 1] and f2 = control_frame [OF 2]
  have st2: "fo_state s2 = fo_state s0" "fo_config s2 = fo_config s" using f1 f2 p0 by simp_all
  obtain r4 s4 where 4: "send_complete env s3 = (r4, s4)" by fastforce
  have st4: "fo_state s4 = fo_state s3"
    using 4 control_frame by (fastforce simp: send_complete_def andthen_apply with_progress_def split: prod.splits sum.splits)
  have "(s' \<in> {s1, s2} \<or> s' \<in> {s3, s4} \<and> (res = Inr () \<longrightarrow> r3 = Inr ()))"
    using run prep base 1 2 3 4
    by (cases r1; cases r2; cases r3) (auto simp: folder_send_def andthen_apply)
  then have "fo_state s' = fo_state s0 \<or> fo_state s' = fo_state s3 \<and> (res = Inr () \<longrightarrow> r3 = Inr ())"
    using f1 st2 st4 p0 by auto
  with 3 st2 show ?thesis by blast
qed

definition sources_ok :: "disk \<Rightarrow> string \<Rightarrow> file_metadata list \<Rightarrow> bool" where
  "sources_ok disk base files \<longleftrightarrow> (\<forall>i < length files. \<exists>data. disk (join base (fm_path (files ! i))) = Some data \<and>
     length data \<le> 2 ^ 40 \<and> fm_size (files ! i) = word_of_nat (length data))"

lemma folder_send_ready:
  assumes run: "folder_send env disk path src s = (res, s')"
    and prep: "prepare path src (s\<lparr> fo_transfer_start := Some (fo_now s), fo_total_compressed_bytes := 0 \<rparr>) = (Inr rp, s0)"
        "base_path path src = Inr base" "ready_to_send (fo_config s) (fo_state s0)"
    and inv: "inverts (fe_encode env) decode"
    and src: "sources_ok disk base (ft_files (fo_state s0))"
  shows "ready_to_send (fo_config s) (fo_state s') \<and> ft_files (fo_state s') = ft_files (fo_state s0)"
  using folder_send_states [OF run prep(1,2)]
proof (elim disjE exE conjE)
  assume "fo_state s' = fo_state s0"
  with prep(3) show ?thesis by simp
next
  fix s2 r3 s3
  assume 3: "fo_state s2 = fo_state s0" "fo_config s2 = fo_config s" "fo_state s' = fo_state s3"
      "send_files env disk base [0..<length (ft_files (fo_state s2))] s2 = (r3, s3)"
  show ?thesis
    using send_files_ready [OF 3(4) _ inv] prep(3) src 3(1-3) by (simp add: sources_ok_def)
qed

text \<open>
  C5: a run of \<open>folder_send\<close> that started from a record the next run could
  resume from ends in such a record however it ends, also when a stream, the control connection or
  a checksum comparison fails in the middle: the recorded chunks are in range and distinct, only
  the file to be resumed at has any, and the manifest the next run announces tells the receiver
  of every uncompleted file exactly how many of its chunks it already has.
\<close>

theorem interrupted_send_resumes:
  assumes run: "folder_send env disk path src s = (res, s')"
    and prep: "prepare path src (s\<lparr> fo_transfer_start := Some (fo_now s), fo_total_compressed_bytes := 0 \<rparr>) = (Inr rp, s0)"
        "base_path path src = Inr base" "ready_to_send (fo_config s) (fo_state s0)"
    and inv: "inverts (fe_encode env) decode"
    and src: "sources_ok disk base (ft_files (fo_state s0))"
  shows "ready_to_send (fo_config s) (fo_state s') \<and> ft_files (fo_state s') = ft_files (fo_state s0) \<and>
    (\<forall>i < length (ft_files (fo_state s')). i \<notin> set (ft_completed_files (fo_state s')) \<longrightarrow>
       already_sent (manifest (resume_point_of (fo_transfer_id s') (fo_state s')) s') i =
         word_of_nat (length (get_completed_chunks (fo_state s') i)))"
proof -
  have "resumes_at (fo_state s')
      (ti_resume_from (manifest (resume_point_of (fo_transfer_id s') (fo_state s')) s'))"
    by (auto simp: manifest_def resumes_at_def)
  with folder_send_ready [OF run prep inv src] show ?thesis
    using already_sent_manifest [of "fo_config s" "fo_state s'"] by blast
qed

theorem interrupted_send_resumes_witness:
  "\<exists>res s'. folder_send demo_fenv [''d/a'' \<mapsto> [5]] ''d/a'' (Some (FileNode [5] 0)) demo_sender = (res, s') \<and>
     ready_to_send demo_config (fo_state s')"
proof -
  let ?s0 = "demo_sender\<lparr> fo_transfer_start := Some 0, fo_total_compressed_bytes := 0, fo_state := demo_state \<rparr>"
  have cfg: "fo_config demo_sender = demo_config" "fo_now demo_sender = 0"
    by (simp_all add: demo_sender_def folder_session_new_def)
  obtain res s' where run: "folder_send demo_fenv [''d/a'' \<mapsto> [5]] ''d/a'' (Some (FileNode [5] 0)) demo_sender = (res, s')"
    by fastforce
  have prep: "prepare ''d/a'' (Some (FileNode [5] 0)) (demo_sender\<lparr> fo_transfer_start := Some (fo_now demo_sender),
      fo_total_compressed_bytes := 0 \<rparr>) = (Inr None, ?s0)"
    using demo_prepare cfg by simp
  have ready: "ready_to_send (fo_config demo_sender) (fo_state ?s0)" using demo_ready cfg by simp
  have inv: "inverts (fe_encode demo_fenv) (\<lambda>x. Inl [])" by (simp add: demo_fenv_def inverts_def)
  have "join ''d'' ''a'' = ''d/a''" by code_simp
  then have src: "sources_ok [''d/a'' \<mapsto> [5]] ''d'' (ft_files (fo_state ?s0))"
    by (simp add: sources_ok_def demo_state_def folder_state_new_def)
  from interrupted_send_resumes [OF run prep demo_base ready inv src] run cfg show ?thesis by auto
qed

end
