(* ===== verification/Handshake.thy ===== *)
theory Handshake
  imports Connection
begin

text \<open>
  \<open>p2p-core/src/handshake.rs\<close>: HELLO, HELLO_ACK, CONFIG, CONFIG_ACK over the control stream, with
  the version check and the cross-check of the claimed fingerprint against the certificate TLS
  observed.
\<close>

record handshake_party =
  hp_device_id :: uuid
  hp_fingerprint :: fingerprint

record handshake_result =
  hr_peer_device_id :: uuid
  hr_peer_fingerprint :: fingerprint
  hr_config :: config_message

definition cross_check_fingerprint :: "fingerprint \<Rightarrow> fingerprint option \<Rightarrow> unit result" where
  "cross_check_fingerprint claimed observed =
     (case observed of
        Some actual \<Rightarrow> if actual = claimed then Inr () else Inl FingerprintMismatch
      | None \<Rightarrow> Inl FingerprintMismatch)"

definition own_hello :: "handshake_party \<Rightarrow> hello_message" where
  "own_hello self = \<lparr> hm_protocol_version = PROTOCOL_VERSION, hm_min_version = MIN_PROTOCOL_VERSION,
     hm_device_id = hp_device_id self, hm_cert_fingerprint = hp_fingerprint self \<rparr>"

text \<open>The checks both sides make on the peer's hello.\<close>

definition check_hello :: "hello_message \<Rightarrow> (connection, error, unit) proc" where
  "check_hello h = (\<lambda>c.
     if hm_protocol_version h \<noteq> PROTOCOL_VERSION
     then (Inl (VersionMismatch (hm_protocol_version h) PROTOCOL_VERSION), c)
     else (cross_check_fingerprint (hm_cert_fingerprint h) (cn_peer_fingerprint c), c))"

definition client_handshake ::
  "rmp \<Rightarrow> handshake_party \<Rightarrow> config_message \<Rightarrow> (connection, error, handshake_result) proc" where
  "client_handshake rc self cfg =
     andthen (send_message rc (Hello (own_hello self))) (\<lambda>_.
     andthen (recv_message rc) (\<lambda>msg.
     andthen (case msg of
         HelloAck h \<Rightarrow> ret h
       | ErrorMsg e \<Rightarrow> fail (Protocol (''Handshake error: '' @ em_message e))
       | _ \<Rightarrow> fail (Protocol (''Expected HelloAck, got '' @ variant_name msg))) (\<lambda>peer_hello.
     andthen (check_hello peer_hello) (\<lambda>_.
     andthen (send_message rc (ConfigMsg cfg)) (\<lambda>_.
     andthen (recv_message rc) (\<lambda>msg.
     andthen (case msg of
         ConfigAck \<Rightarrow> ret ()
       | ErrorMsg e \<Rightarrow> fail (Protocol (''Config rejected: '' @ em_message e))
       | _ \<Rightarrow> fail (Protocol (''Expected ConfigAck, got '' @ variant_name msg))) (\<lambda>_.
     ret \<lparr> hr_peer_device_id = hm_device_id peer_hello,
           hr_peer_fingerprint = hm_cert_fingerprint peer_hello, hr_config = cfg \<rparr>)))))))"

definition send_transfer_info :: "rmp \<Rightarrow> transfer_info \<Rightarrow> (connection, error, unit) proc" where
  "send_transfer_info rc info =
     andthen (send_message rc (TransferInfoMsg info)) (\<lambda>_.
     andthen (recv_message rc) (\<lambda>msg.
       case msg of
         Ready \<Rightarrow> ret ()
       | ErrorMsg e \<Rightarrow> fail (Protocol (''Transfer rejected: '' @ em_message e))
       | _ \<Rightarrow> fail (Protocol (''Expected Ready, got '' @ variant_name msg))))"

definition server_handshake ::
  "rmp \<Rightarrow> handshake_party \<Rightarrow> (connection, error, handshake_result) proc" where
  "server_handshake rc self =
     andthen (recv_message rc) (\<lambda>msg.
     andthen (case msg of
         Hello h \<Rightarrow> ret h
       | _ \<Rightarrow> fail (Protocol (''Expected Hello, got '' @ variant_name msg))) (\<lambda>peer_hello.
     andthen (check_hello peer_hello) (\<lambda>_.
     andthen (send_message rc (HelloAck (own_hello self))) (\<lambda>_.
     andthen (recv_message rc) (\<lambda>msg.
     andthen (case msg of
         ConfigMsg c \<Rightarrow> ret c
       | _ \<Rightarrow> fail (Protocol (''Expected Config, got '' @ variant_name msg))) (\<lambda>cfg.
     andthen (send_message rc ConfigAck) (\<lambda>_.
     ret \<lparr> hr_peer_device_id = hm_device_id peer_hello,
           hr_peer_fingerprint = hm_cert_fingerprint peer_hello, hr_config = cfg \<rparr>)))))))"

definition recv_transfer_info :: "rmp \<Rightarrow> (connection, error, transfer_info) proc" where
  "recv_transfer_info rc =
     andthen (recv_message rc) (\<lambda>msg.
     andthen (case msg of
         TransferInfoMsg i \<Rightarrow> ret i
       | _ \<Rightarrow> fail (Protocol (''Expected TransferInfo, got '' @ variant_name msg))) (\<lambda>info.
     andthen (send_message rc Ready) (\<lambda>_. ret info)))"

section \<open>Lemmas\<close>

lemma own_hello_simps [simp]:
  "hm_protocol_version (own_hello self) = PROTOCOL_VERSION"
  "hm_device_id (own_hello self) = hp_device_id self"
  "hm_cert_fingerprint (own_hello self) = hp_fingerprint self"
  by (simp_all add: own_hello_def)

lemma check_hello_Inr:
  "check_hello h c = (Inr u, c') \<longleftrightarrow>
     c' = c \<and> hm_protocol_version h = PROTOCOL_VERSION \<and> cn_peer_fingerprint c = Some (hm_cert_fingerprint h)"
  by (auto simp: check_hello_def cross_check_fingerprint_def split: option.splits)

lemma check_hello_own:
  "cn_peer_fingerprint c = Some (hp_fingerprint p) \<Longrightarrow> check_hello (own_hello p) c = (Inr (), c)"
  by (simp add: check_hello_def cross_check_fingerprint_def)

lemma expect_HelloAck:
  "(case msg of
         HelloAck h \<Rightarrow> ret h
       | ErrorMsg e \<Rightarrow> fail (Protocol (''Handshake error: '' @ em_message e))
       | _ \<Rightarrow> fail (Protocol (''Expected HelloAck, got '' @ variant_name msg))) c = (Inr h, c') \<longleftrightarrow> msg = HelloAck h \<and> c' = c"
  by (cases msg) auto

lemma expect_Hello:
  "(case msg of Hello h \<Rightarrow> ret h | _ \<Rightarrow> fail (Protocol (''Expected Hello, got '' @ variant_name msg))) c =
     (Inr h, c') \<longleftrightarrow> msg = Hello h \<and> c' = c"
  by (cases msg) auto

lemma client_authentic:
  assumes "client_handshake rc self cfg c = (Inr r, c')"
  shows "cn_peer_fingerprint c = Some (hr_peer_fingerprint r) \<and> hr_config r = cfg"
proof -
  obtain u c1 msg c2 h c3 c4 where
      s: "send_message rc (Hello (own_hello self)) c = (Inr u, c1)"
      and r: "recv_message rc c1 = (Inr msg, c2)"
      and k: "check_hello h c3 = (Inr (), c4)" and c3: "c3 = c2"
      and res: "r = \<lparr> hr_peer_device_id = hm_device_id h, hr_peer_fingerprint = hm_cert_fingerprint h, hr_config = cfg \<rparr>"
    using assms unfolding client_handshake_def
    by (auto simp: andthen_eq_Inr check_hello_Inr expect_HelloAck)
  then have "cn_peer_fingerprint c2 = Some (hm_cert_fingerprint h)" by (simp add: check_hello_Inr)
  moreover have "cn_peer_fingerprint c2 = cn_peer_fingerprint c"
    using send_message_frame [OF s] recv_message_frame [OF r] by simp
  ultimately show ?thesis using res by simp
qed

lemma server_authentic:
  assumes "server_handshake rc self c = (Inr r, c')"
  shows "cn_peer_fingerprint c = Some (hr_peer_fingerprint r)"
proof -
  obtain h c1 c2 cfg where
      r: "recv_message rc c = (Inr (Hello h), c1)" and k: "check_hello h c1 = (Inr (), c2)"
      and res: "r = \<lparr> hr_peer_device_id = hm_device_id h, hr_peer_fingerprint = hm_cert_fingerprint h, hr_config = cfg \<rparr>"
    using assms unfolding server_handshake_def
    by (auto simp: andthen_eq_Inr check_hello_Inr expect_Hello)
  with recv_message_frame [OF r] show ?thesis by (simp add: check_hello_Inr)
qed

text \<open>
  C21: whatever bytes the peer sends, a handshake that succeeds, on either side,
  has bound the peer to its certificate: the fingerprint in the result is the one TLS observed on
  this connection. The initiator's result carries its own configuration, unchanged.
\<close>

theorem handshake_authentic:
  "(client_handshake rc self cfg c = (Inr r, c') \<longrightarrow>
      cn_peer_fingerprint c = Some (hr_peer_fingerprint r) \<and> hr_config r = cfg) \<and>
   (server_handshake rc self c = (Inr r, c') \<longrightarrow> cn_peer_fingerprint c = Some (hr_peer_fingerprint r))"
  using client_authentic server_authentic by blast

lemma client_run_rest:
  assumes rc: "rmp_ok rc" "sendable rc (Hello (own_hello p))" "sendable rc (ConfigMsg cfg)"
      "sendable rc (HelloAck (own_hello q))" "sendable rc ConfigAck"
    and tls: "cn_peer_fingerprint c = Some (hp_fingerprint q)" and up: "wr_fail (cn_send c) = None"
    and input: "rd_bytes (cn_recv c) = wire_of rc (HelloAck (own_hello q)) @ wire_of rc ConfigAck @ rest"
  shows "\<exists>c'. client_handshake rc p cfg c =
      (Inr \<lparr> hr_peer_device_id = hp_device_id q, hr_peer_fingerprint = hp_fingerprint q, hr_config = cfg \<rparr>, c') \<and>
    wr_out (cn_send c') = wr_out (cn_send c) @ wire_of rc (Hello (own_hello p)) @ wire_of rc (ConfigMsg cfg) \<and>
    wr_fail (cn_send c') = None \<and> rd_bytes (cn_recv c') = rest"
  using assms
  by (simp add: client_handshake_def andthen_apply send_message_ok recv_message_ok [of rc "HelloAck (own_hello q)"]
      check_hello_own [of _ q] recv_message_ok [of rc ConfigAck _ rest])

lemma client_run:
  assumes rc: "rmp_ok rc" "sendable rc (Hello (own_hello p))" "sendable rc (ConfigMsg cfg)"
      "sendable rc (HelloAck (own_hello q))" "sendable rc ConfigAck"
    and tls: "cn_peer_fingerprint c = Some (hp_fingerprint q)" and up: "wr_fail (cn_send c) = None"
    and input: "rd_bytes (cn_recv c) = wire_of rc (HelloAck (own_hello q)) @ wire_of rc ConfigAck"
  shows "\<exists>c'. client_handshake rc p cfg c =
      (Inr \<lparr> hr_peer_device_id = hp_device_id q, hr_peer_fingerprint = hp_fingerprint q, hr_config = cfg \<rparr>, c') \<and>
    wr_out (cn_send c') = wr_out (cn_send c) @ wire_of rc (Hello (own_hello p)) @ wire_of rc (ConfigMsg cfg)"
  using client_run_rest [OF assms(1-7), of "[]"] input by auto

lemma server_run:
  assumes rc: "rmp_ok rc" "sendable rc (Hello (own_hello p))" "sendable rc (ConfigMsg cfg)"
      "sendable rc (HelloAck (own_hello q))" "sendable rc ConfigAck"
    and tls: "cn_peer_fingerprint c = Some (hp_fingerprint p)" and up: "wr_fail (cn_send c) = None"
    and input: "rd_bytes (cn_recv c) = wire_of rc (Hello (own_hello p)) @ wire_of rc (ConfigMsg cfg)"
  shows "\<exists>c'. server_handshake rc q c =
      (Inr \<lparr> hr_peer_device_id = hp_device_id p, hr_peer_fingerprint = hp_fingerprint p, hr_config = cfg \<rparr>, c') \<and>
    wr_out (cn_send c') = wr_out (cn_send c) @ wire_of rc (HelloAck (own_hello q)) @ wire_of rc ConfigAck"
  using assms
  by (simp add: server_handshake_def andthen_apply send_message_ok recv_message_ok [of rc "Hello (own_hello p)"]
      check_hello_own [of _ p] recv_message_ok [of rc "ConfigMsg cfg" _ "[]"])

text \<open>
  C27: between two honest parties whose certificates TLS reported truthfully,
  with a serializer that can express the four messages, both sides succeed when each reads what
  the other writes, and they agree: on the initiator's configuration, and each on the other's
  device id and fingerprint.
\<close>

theorem handshake_completes:
  assumes "rmp_ok rc" "sendable rc (Hello (own_hello p))" "sendable rc (ConfigMsg cfg)"
      "sendable rc (HelloAck (own_hello q))" "sendable rc ConfigAck"
    and "cn_peer_fingerprint c = Some (hp_fingerprint q)" "wr_fail (cn_send c) = None"
    and "cn_peer_fingerprint s = Some (hp_fingerprint p)" "wr_fail (cn_send s) = None"
    and "rd_bytes (cn_recv c) = wire_of rc (HelloAck (own_hello q)) @ wire_of rc ConfigAck"
    and "rd_bytes (cn_recv s) = wire_of rc (Hello (own_hello p)) @ wire_of rc (ConfigMsg cfg)"
  shows "\<exists>c' s' rcl rsv. client_handshake rc p cfg c = (Inr rcl, c') \<and> server_handshake rc q s = (Inr rsv, s') \<and>
     wr_out (cn_send c') = wr_out (cn_send c) @ rd_bytes (cn_recv s) \<and>
     wr_out (cn_send s') = wr_out (cn_send s) @ rd_bytes (cn_recv c) \<and>
     hr_config rcl = cfg \<and> hr_config rsv = cfg \<and>
     hr_peer_device_id rcl = hp_device_id q \<and> hr_peer_fingerprint rcl = hp_fingerprint q \<and>
     hr_peer_device_id rsv = hp_device_id p \<and> hr_peer_fingerprint rsv = hp_fingerprint p"
  using client_run [of rc p cfg q c] server_run [of rc p cfg q s] assms by auto

text \<open>
  C34: a responder that answers with another protocol version, or that claims a
  fingerprint other than its certificate's, is refused with an error that is not retried, and all
  the initiator has revealed by then is its own hello.
\<close>

theorem impostor_rejected:
  assumes "rmp_ok rc" "sendable rc (Hello (own_hello p))" "sendable rc (HelloAck h)"
    and "wr_fail (cn_send c) = None" "rd_bytes (cn_recv c) = wire_of rc (HelloAck h) @ rest"
    and "hm_protocol_version h \<noteq> PROTOCOL_VERSION \<or> cn_peer_fingerprint c \<noteq> Some (hm_cert_fingerprint h)"
  shows "\<exists>e c'. client_handshake rc p cfg c = (Inl e, c') \<and> \<not> is_recoverable e \<and>
     wr_out (cn_send c') = wr_out (cn_send c) @ wire_of rc (Hello (own_hello p))"
  using assms
  by (auto simp: client_handshake_def andthen_apply send_message_ok recv_message_ok [of rc "HelloAck h"]
      check_hello_def cross_check_fingerprint_def split: option.splits)

section \<open>A serializer for the witnesses\<close>

text \<open>A serializer that can only express the five messages of one handshake.\<close>

definition demo_rmp :: "handshake_party \<Rightarrow> handshake_party \<Rightarrow> config_message \<Rightarrow> rmp" where
  "demo_rmp p q cfg = \<lparr>
     to_vec = (\<lambda>m. if m = Hello (own_hello p) then Inr [1] else if m = HelloAck (own_hello q) then Inr [2]
       else if m = ConfigMsg cfg then Inr [3] else if m = ConfigAck then Inr [4] else Inl []),
     from_slice = (\<lambda>b. if b = [1] then Inr (Hello (own_hello p)) else if b = [2] then Inr (HelloAck (own_hello q))
       else if b = [3] then Inr (ConfigMsg cfg) else if b = [4] then Inr ConfigAck else Inl []) \<rparr>"

lemma demo_rmp_ok: "rmp_ok (demo_rmp p q cfg)"
  by (auto simp: rmp_ok_def demo_rmp_def split: if_splits)

lemma demo_sendable:
  "sendable (demo_rmp p q cfg) (Hello (own_hello p))" "sendable (demo_rmp p q cfg) (ConfigMsg cfg)"
  "sendable (demo_rmp p q cfg) (HelloAck (own_hello q))" "sendable (demo_rmp p q cfg) ConfigAck"
  by (auto simp: sendable_def demo_rmp_def fits_def MAX_MESSAGE_SIZE_def)

theorem handshake_authentic_witness:
  "\<exists>r c'. server_handshake (demo_rmp \<lparr> hp_device_id = Uuid 1, hp_fingerprint = 7 \<rparr> \<lparr> hp_device_id = Uuid 2, hp_fingerprint = 8 \<rparr> config_default)
       \<lparr> hp_device_id = Uuid 2, hp_fingerprint = 8 \<rparr>
       \<lparr> cn_send = \<lparr> wr_out = [], wr_fail = None \<rparr>,
         cn_recv = \<lparr> rd_bytes = frame_of [1] @ frame_of [3], rd_end = None \<rparr>,
         cn_peer_addr = SocketAddr (V4 0) 0, cn_peer_fingerprint = Some 7 \<rparr> = (Inr r, c') \<and> hr_peer_fingerprint r = 7"
proof -
  let ?p = "\<lparr> hp_device_id = Uuid 1, hp_fingerprint = 7 \<rparr>" and ?q = "\<lparr> hp_device_id = Uuid 2, hp_fingerprint = 8 \<rparr>"
  let ?s = "\<lparr> cn_send = \<lparr> wr_out = [], wr_fail = None \<rparr>,
         cn_recv = \<lparr> rd_bytes = frame_of [1] @ frame_of [3], rd_end = None \<rparr>,
         cn_peer_addr = SocketAddr (V4 0) 0, cn_peer_fingerprint = Some 7 \<rparr>"
  have "wire_of (demo_rmp ?p ?q config_default) (Hello (own_hello ?p)) = frame_of [1]"
       "wire_of (demo_rmp ?p ?q config_default) (ConfigMsg config_default) = frame_of [3]"
    by (simp_all add: wire_of_def demo_rmp_def)
  with server_run [of "demo_rmp ?p ?q config_default" ?p config_default ?q ?s, OF demo_rmp_ok demo_sendable] obtain r c' where
      run: "server_handshake (demo_rmp ?p ?q config_default) ?q ?s = (Inr r, c')"
    by auto
  with handshake_authentic [of "demo_rmp ?p ?q config_default" ?q config_default ?s r c'] show ?thesis by auto
qed

theorem handshake_completes_witness:
  "\<exists>c' rcl. client_handshake (demo_rmp \<lparr> hp_device_id = Uuid 1, hp_fingerprint = 7 \<rparr> \<lparr> hp_device_id = Uuid 2, hp_fingerprint = 8 \<rparr> config_default)
       \<lparr> hp_device_id = Uuid 1, hp_fingerprint = 7 \<rparr> config_default
       \<lparr> cn_send = \<lparr> wr_out = [], wr_fail = None \<rparr>,
         cn_recv = \<lparr> rd_bytes = frame_of [2] @ frame_of [4], rd_end = None \<rparr>,
         cn_peer_addr = SocketAddr (V4 0) 0, cn_peer_fingerprint = Some 8 \<rparr> = (Inr rcl, c') \<and>
     hr_peer_device_id rcl = Uuid 2"
proof -
  let ?p = "\<lparr> hp_device_id = Uuid 1, hp_fingerprint = 7 \<rparr>" and ?q = "\<lparr> hp_device_id = Uuid 2, hp_fingerprint = 8 \<rparr>"
  let ?c = "\<lparr> cn_send = \<lparr> wr_out = [], wr_fail = None \<rparr>,
         cn_recv = \<lparr> rd_bytes = frame_of [2] @ frame_of [4], rd_end = None \<rparr>,
         cn_peer_addr = SocketAddr (V4 0) 0, cn_peer_fingerprint = Some 8 \<rparr>"
  let ?s = "\<lparr> cn_send = \<lparr> wr_out = [], wr_fail = None \<rparr>,
         cn_recv = \<lparr> rd_bytes = frame_of [1] @ frame_of [3], rd_end = None \<rparr>,
         cn_peer_addr = SocketAddr (V4 0) 0, cn_peer_fingerprint = Some 7 \<rparr>"
  have w: "wire_of (demo_rmp ?p ?q config_default) (Hello (own_hello ?p)) = frame_of [1]"
       "wire_of (demo_rmp ?p ?q config_default) (HelloAck (own_hello ?q)) = frame_of [2]"
       "wire_of (demo_rmp ?p ?q config_default) (ConfigMsg config_default) = frame_of [3]"
       "wire_of (demo_rmp ?p ?q config_default) ConfigAck = frame_of [4]"
    by (simp_all add: wire_of_def demo_rmp_def)
  from handshake_completes [of "demo_rmp ?p ?q config_default" ?p config_default ?q ?c ?s,
      OF demo_rmp_ok demo_sendable] w show ?thesis by auto
qed

theorem impostor_rejected_witness:
  "\<exists>e c'. client_handshake (demo_rmp \<lparr> hp_device_id = Uuid 1, hp_fingerprint = 7 \<rparr> \<lparr> hp_device_id = Uuid 2, hp_fingerprint = 8 \<rparr> config_default)
       \<lparr> hp_device_id = Uuid 1, hp_fingerprint = 7 \<rparr> config_default
       \<lparr> cn_send = \<lparr> wr_out = [], wr_fail = None \<rparr>,
         cn_recv = \<lparr> rd_bytes = frame_of [2], rd_end = None \<rparr>,
         cn_peer_addr = SocketAddr (V4 0) 0, cn_peer_fingerprint = Some 9 \<rparr> = (Inl e, c')"
proof -
  let ?p = "\<lparr> hp_device_id = Uuid 1, hp_fingerprint = 7 \<rparr>" and ?q = "\<lparr> hp_device_id = Uuid 2, hp_fingerprint = 8 \<rparr>"
  let ?c = "\<lparr> cn_send = \<lparr> wr_out = [], wr_fail = None \<rparr>,
         cn_recv = \<lparr> rd_bytes = frame_of [2], rd_end = None \<rparr>,
         cn_peer_addr = SocketAddr (V4 0) 0, cn_peer_fingerprint = Some 9 \<rparr>"
  have "wire_of (demo_rmp ?p ?q config_default) (HelloAck (own_hello ?q)) = frame_of [2]"
    by (simp add: wire_of_def demo_rmp_def)
  with impostor_rejected [of "demo_rmp ?p ?q config_default" ?p "own_hello ?q" ?c "[]" config_default,
      OF demo_rmp_ok demo_sendable(1,3)]
  show ?thesis by auto
qed

end
