(* ===== verification/Identity.thy ===== *)
theory Identity
  imports Handshake Path_Safety
begin

text \<open>
  \<open>p2p-core/src/identity.rs\<close>: the device's key and certificate, kept as two PEM files, and the
  fingerprint other peers pin. The key generator (rcgen), base64, SHA-256 and the configuration
  directory of the system are parameters; a file is its text (ASCII), and a write fails either
  when the file is opened, which leaves it alone, or afterwards, which leaves it empty. The modes
  of files and the creation of directories are not modelled.
\<close>

record identity =
  id_cert_der :: bytes
  id_key_der :: bytes
  id_fingerprint :: fingerprint

record keygen =
  kg_key_pair :: "string + bytes"
  kg_params :: "string option"
  kg_self_signed :: "bytes \<Rightarrow> string + bytes"

record identity_libs =
  il_sha :: "bytes \<Rightarrow> fingerprint"
  il_hex :: "fingerprint \<Rightarrow> string"
  il_encode64 :: "bytes \<Rightarrow> string"
  il_decode64 :: "string \<Rightarrow> string + bytes"
  il_keygen :: keygen
  il_config_dir :: "string option"
  il_open :: "string \<Rightarrow> io_error option"
  il_write :: "string \<Rightarrow> io_error option"

type_synonym texts = "string \<Rightarrow> string option"

section \<open>PEM\<close>

fun find_sub :: "string \<Rightarrow> string \<Rightarrow> nat option" where
  "find_sub p [] = (if p = [] then Some 0 else None)"
| "find_sub p (c # s) =
     (if take (length p) (c # s) = p then Some 0 else map_option Suc (find_sub p s))"

definition pem_begin :: "string \<Rightarrow> string" where
  "pem_begin label = ''-----BEGIN '' @ label @ ''-----''"

definition pem_end :: "string \<Rightarrow> string" where
  "pem_end label = ''-----END '' @ label @ ''-----''"

definition is_whitespace :: "char \<Rightarrow> bool" where
  "is_whitespace c \<longleftrightarrow> c \<in> {CHR 0x09, CHR 0x0A, CHR 0x0B, CHR 0x0C, CHR 0x0D, CHR 0x20}"

text \<open>
  The body is the slice from behind the header to the footer; a footer in front of the header
  makes the slice panic, which is \<open>None\<close>.
\<close>

definition pem_to_der :: "identity_libs \<Rightarrow> string \<Rightarrow> string \<Rightarrow> bytes result option" where
  "pem_to_der l pem label =
     (case find_sub (pem_begin label) pem of
        None \<Rightarrow> Some (Inl (Tls (''PEM missing '' @ label @ '' header'')))
      | Some b \<Rightarrow>
          let start = b + length (pem_begin label) in
          (case find_sub (pem_end label) pem of
             None \<Rightarrow> Some (Inl (Tls (''PEM missing '' @ label @ '' footer'')))
           | Some stop \<Rightarrow>
               (if stop < start then None
                else let body = filter (\<lambda>c. \<not> is_whitespace c) (take (stop - start) (drop start pem))
                     in Some (case il_decode64 l body of
                                Inl e \<Rightarrow> Inl (Tls (''PEM base64 decode: '' @ e))
                              | Inr der \<Rightarrow> Inr der))))"

function pem_lines :: "string \<Rightarrow> string" where
  "pem_lines s = (if s = [] then [] else take 64 s @ [CHR 0x0A] @ pem_lines (drop 64 s))"
  by auto
termination
  by (relation "measure length") auto

declare pem_lines.simps [simp del]

definition der_to_pem :: "identity_libs \<Rightarrow> bytes \<Rightarrow> string \<Rightarrow> string" where
  "der_to_pem l der label =
     pem_begin label @ [CHR 0x0A] @ pem_lines (il_encode64 l der) @ pem_end label @ [CHR 0x0A]"

section \<open>Operations\<close>

definition fingerprint_of :: "identity_libs \<Rightarrow> bytes \<Rightarrow> fingerprint" where
  "fingerprint_of l cert = il_sha l cert"

definition identity_of :: "identity_libs \<Rightarrow> bytes \<Rightarrow> bytes \<Rightarrow> identity" where
  "identity_of l cert key =
     \<lparr> id_cert_der = cert, id_key_der = key, id_fingerprint = fingerprint_of l cert \<rparr>"

definition from_key_pair :: "identity_libs \<Rightarrow> bytes \<Rightarrow> identity result" where
  "from_key_pair l key =
     (case kg_params (il_keygen l) of
        Some e \<Rightarrow> Inl (Tls (''cert params: '' @ e))
      | None \<Rightarrow>
          (case kg_self_signed (il_keygen l) key of
             Inl e \<Rightarrow> Inl (Tls (''self-sign: '' @ e))
           | Inr cert \<Rightarrow> Inr (identity_of l cert key)))"

definition generate :: "identity_libs \<Rightarrow> identity result" where
  "generate l =
     (case kg_key_pair (il_keygen l) of
        Inl e \<Rightarrow> Inl (Tls (''keypair generation failed: '' @ e))
      | Inr key \<Rightarrow> from_key_pair l key)"

definition write_restricted :: "identity_libs \<Rightarrow> string \<Rightarrow> string \<Rightarrow> (texts, error, unit) proc" where
  "write_restricted l path data = (\<lambda>fs.
     case il_open l path of
       Some e \<Rightarrow> (Inl (Network e), fs)
     | None \<Rightarrow>
         (case il_write l path of
            Some e \<Rightarrow> (Inl (Network e), fs(path \<mapsto> []))
          | None \<Rightarrow> (Inr (), fs(path \<mapsto> data))))"

definition persist :: "identity_libs \<Rightarrow> identity \<Rightarrow> string \<Rightarrow> string \<Rightarrow> (texts, error, unit) proc" where
  "persist l ident key_path cert_path =
     andthen (write_restricted l key_path (der_to_pem l (id_key_der ident) ''PRIVATE KEY'')) (\<lambda>_.
     write_restricted l cert_path (der_to_pem l (id_cert_der ident) ''CERTIFICATE''))"

definition read_to_string :: "texts \<Rightarrow> string \<Rightarrow> string result" where
  "read_to_string fs path =
     (case fs path of None \<Rightarrow> Inl (Network (IoError NotFound path)) | Some t \<Rightarrow> Inr t)"

text \<open>\<open>None\<close> is the panic of the PEM parser.\<close>

definition load :: "identity_libs \<Rightarrow> texts \<Rightarrow> string \<Rightarrow> string \<Rightarrow> identity result option" where
  "load l fs key_path cert_path =
     (case read_to_string fs key_path of
        Inl e \<Rightarrow> Some (Inl e)
      | Inr key_pem \<Rightarrow>
          (case read_to_string fs cert_path of
             Inl e \<Rightarrow> Some (Inl e)
           | Inr cert_pem \<Rightarrow>
               do {
                 key_der \<leftarrow> pem_to_der l key_pem ''PRIVATE KEY'';
                 case key_der of
                   Inl e \<Rightarrow> Some (Inl e)
                 | Inr key \<Rightarrow> do {
                     cert_der \<leftarrow> pem_to_der l cert_pem ''CERTIFICATE'';
                     Some (rbind cert_der (\<lambda>cert. Inr (identity_of l cert key))) } }))"

definition default_identity_dir :: "identity_libs \<Rightarrow> string result" where
  "default_identity_dir l =
     (case il_config_dir l of
        None \<Rightarrow> Inl (Tls ''no config directory available for identity storage'')
      | Some base \<Rightarrow> Inr (join base ''p2p-transfer''))"

definition load_or_generate :: "identity_libs \<Rightarrow> string option \<Rightarrow> texts \<Rightarrow> (identity result \<times> texts) option" where
  "load_or_generate l dir fs =
     (case (case dir of Some d \<Rightarrow> Inr d | None \<Rightarrow> default_identity_dir l) of
        Inl e \<Rightarrow> Some (Inl e, fs)
      | Inr d \<Rightarrow>
          let key_path = join d ''identity.key''; cert_path = join d ''identity.cert'' in
          if fs key_path \<noteq> None \<and> fs cert_path \<noteq> None
          then map_option (\<lambda>r. (r, fs)) (load l fs key_path cert_path)
          else (case generate l of
                  Inl e \<Rightarrow> Some (Inl e, fs)
                | Inr ident \<Rightarrow>
                    Some (case persist l ident key_path cert_path fs of
                            (Inl e, fs') \<Rightarrow> (Inl e, fs')
                          | (Inr u, fs') \<Rightarrow> (Inr ident, fs'))))"

definition fingerprint_hex :: "identity_libs \<Rightarrow> identity \<Rightarrow> string" where
  "fingerprint_hex l ident = il_hex l (id_fingerprint ident)"

text \<open>Both \<open>HandshakeClient::new\<close> and \<open>HandshakeServer::new\<close>.\<close>

definition handshake_party_new :: "uuid \<Rightarrow> identity \<Rightarrow> handshake_party" where
  "handshake_party_new device_id ident =
     \<lparr> hp_device_id = device_id, hp_fingerprint = id_fingerprint ident \<rparr>"

section \<open>PEM round trip\<close>

definition base64_ok :: "identity_libs \<Rightarrow> bool" where
  "base64_ok l \<longleftrightarrow> (\<forall>d. il_decode64 l (il_encode64 l d) = Inr d \<and>
     list_all (\<lambda>c. c \<noteq> CHR ''-'' \<and> \<not> is_whitespace c) (il_encode64 l d))"

lemma find_sub_skip:
  "list_all (\<lambda>c. c \<noteq> p) body \<Longrightarrow>
     find_sub (p # ps) (body @ rest) = map_option ((+) (length body)) (find_sub (p # ps) rest)"
  by (induction body) (auto simp: option.map_comp comp_def split: option.splits, (cases "find_sub (p # ps) rest"; simp)+)

lemma find_sub_here: "find_sub p (p @ rest) = Some 0"
  by (cases "p @ rest") (auto simp: append_eq_Cons_conv dest: sym)

lemma pem_lines_body:
  "filter (\<lambda>c. \<not> is_whitespace c) (pem_lines s) = filter (\<lambda>c. \<not> is_whitespace c) s"
proof (induction s rule: pem_lines.induct)
  case (1 s)
  have "filter P (take 64 s) @ filter P (drop 64 s) = filter P s" for P
    by (metis append_take_drop_id filter_append)
  with 1 show ?case
    by (subst pem_lines.simps) (auto simp: is_whitespace_def)
qed

lemma pem_lines_no_dash:
  "list_all (\<lambda>c. c \<noteq> CHR ''-'') s \<Longrightarrow> list_all (\<lambda>c. c \<noteq> CHR ''-'') (pem_lines s)"
proof (induction s rule: pem_lines.induct)
  case (1 s)
  show ?case
  proof (cases "s = []")
    case True
    then show ?thesis by (simp add: pem_lines.simps)
  next
    case False
    have "list_all (\<lambda>c. c \<noteq> CHR ''-'') (take 64 s)" "list_all (\<lambda>c. c \<noteq> CHR ''-'') (drop 64 s)"
      using "1.prems" by (auto simp: list_all_iff dest: in_set_takeD in_set_dropD)
    with 1 False show ?thesis by (subst pem_lines.simps) simp
  qed
qed

lemma pem_to_der_to_pem:
  assumes "base64_ok l" "label \<in> {''PRIVATE KEY'', ''CERTIFICATE''}"
  shows "pem_to_der l (der_to_pem l der label) label = Some (Inr der)"
proof -
  let ?s = "il_encode64 l der"
  let ?mid = "[CHR 0x0A] @ pem_lines ?s"
  have s: "list_all (\<lambda>c. c \<noteq> CHR ''-'') ?s" "filter (\<lambda>c. \<not> is_whitespace c) ?s = ?s" "il_decode64 l ?s = Inr der"
    using assms(1) by (auto simp: base64_ok_def list_all_iff intro!: filter_True)
  have nd: "list_all (\<lambda>c. c \<noteq> CHR ''-'') (pem_lines ?s)" using s(1) by (rule pem_lines_no_dash)
  have b: "find_sub (pem_begin label) (der_to_pem l der label) = Some 0"
    unfolding der_to_pem_def by (rule find_sub_here)
  have "find_sub (pem_end label) (pem_lines ?s @ pem_end label @ [CHR 0x0A]) = Some (length (pem_lines ?s))"
    using find_sub_skip [OF nd, of "''----END '' @ label @ ''-----''" "pem_end label @ [CHR 0x0A]"]
      find_sub_here [of "pem_end label" "[CHR 0x0A]"]
    by (simp add: pem_end_def)
  then have e: "find_sub (pem_end label) (der_to_pem l der label) = Some (length (pem_begin label) + length ?mid)"
    using assms(2) by (auto simp: der_to_pem_def pem_begin_def pem_end_def)
  have "filter (\<lambda>c. \<not> is_whitespace c) ?mid = ?s"
    using s(2) by (simp add: pem_lines_body) (simp add: is_whitespace_def)
  moreover have "take (length ?mid) (drop (length (pem_begin label)) (der_to_pem l der label)) = ?mid"
    by (simp add: der_to_pem_def)
  ultimately show ?thesis
    using b e s(3) unfolding pem_to_der_def by (simp add: Let_def)
qed

section \<open>The identity stays\<close>

lemma identity_paths_differ: "join d ''identity.key'' \<noteq> join d ''identity.cert''"
  by (simp add: join_def push_def is_absolute_def)

lemma write_restricted_Inr:
  "write_restricted l path data fs = (Inr u, fs') \<Longrightarrow> fs' = fs(path \<mapsto> data)"
  by (auto simp: write_restricted_def split: option.splits)

lemma persist_Inr:
  "persist l ident kp cp fs = (Inr u, fs') \<Longrightarrow>
     fs' = fs(kp \<mapsto> der_to_pem l (id_key_der ident) ''PRIVATE KEY'',
              cp \<mapsto> der_to_pem l (id_cert_der ident) ''CERTIFICATE'')"
  by (auto simp: persist_def andthen_eq_Inr dest!: write_restricted_Inr)

lemma generate_Inr: "generate l = Inr ident \<Longrightarrow> ident = identity_of l (id_cert_der ident) (id_key_der ident)"
  by (auto simp: generate_def from_key_pair_def identity_of_def split: sum.splits option.splits)

lemma load_persisted:
  assumes "base64_ok l" "kp \<noteq> cp" "ident = identity_of l (id_cert_der ident) (id_key_der ident)"
    and "fs' = fs(kp \<mapsto> der_to_pem l (id_key_der ident) ''PRIVATE KEY'',
                  cp \<mapsto> der_to_pem l (id_cert_der ident) ''CERTIFICATE'')"
  shows "load l fs' kp cp = Some (Inr ident)"
  using assms(2,3) unfolding assms(4)
  by (simp add: load_def read_to_string_def pem_to_der_to_pem [OF assms(1)])

text \<open>
  C40: what the first run generates is what every later run loads: once
  \<open>load_or_generate\<close> has returned an identity, calling it again on the files it left returns the
  same certificate, key and fingerprint and changes nothing.
\<close>

theorem identity_stable:
  assumes "base64_ok l" "load_or_generate l dir fs = Some (Inr ident, fs')"
  shows "load_or_generate l dir fs' = Some (Inr ident, fs')"
proof -
  obtain d where d: "(case dir of Some d \<Rightarrow> Inr d | None \<Rightarrow> default_identity_dir l) = Inr d"
    using assms(2) by (cases "case dir of Some d \<Rightarrow> Inr d | None \<Rightarrow> default_identity_dir l")
      (auto simp: load_or_generate_def)
  let ?kp = "join d ''identity.key''" and ?cp = "join d ''identity.cert''"
  show ?thesis
  proof (cases "fs ?kp \<noteq> None \<and> fs ?cp \<noteq> None")
    case True
    then have "fs' = fs" using assms(2) d by (auto simp: load_or_generate_def Let_def)
    with assms(2) show ?thesis by simp
  next
    case False
    with assms(2) d obtain u where g: "generate l = Inr ident" and p: "persist l ident ?kp ?cp fs = (Inr u, fs')"
      by (auto simp: load_or_generate_def Let_def split: sum.splits prod.splits)
    have "load l fs' ?kp ?cp = Some (Inr ident)"
      using assms(1) identity_paths_differ generate_Inr [OF g] persist_Inr [OF p] by (rule load_persisted)
    with d persist_Inr [OF p] show ?thesis by (simp add: load_or_generate_def Let_def)
  qed
qed

fun demo_decode :: "string \<Rightarrow> bytes" where
  "demo_decode (a # b # s) = word_of_nat ((of_char a - 65) * 16 + (of_char b - 65)) # demo_decode s"
| "demo_decode s = []"

definition demo_encode :: "bytes \<Rightarrow> string" where
  "demo_encode b = concat (map (\<lambda>x. [char_of (65 + unat x div 16), char_of (65 + unat x mod 16)]) b)"

definition demo_identity_libs :: identity_libs where
  "demo_identity_libs = \<lparr> il_sha = (\<lambda>b. word_of_nat (length b)), il_hex = (\<lambda>w. []),
     il_encode64 = demo_encode, il_decode64 = (\<lambda>s. Inr (demo_decode s)),
     il_keygen = \<lparr> kg_key_pair = Inr [7], kg_params = None, kg_self_signed = (\<lambda>k. Inr (k @ [1])) \<rparr>,
     il_config_dir = Some ''c'', il_open = (\<lambda>p. None), il_write = (\<lambda>p. None) \<rparr>"

lemma demo_nibble: "n < 16 \<Longrightarrow> of_char (char_of (65 + n) :: char) = (65 + n :: nat)"
  by simp

lemma demo_nibble_char:
  assumes "n < 16"
  shows "char_of (65 + n :: nat) \<noteq> CHR ''-'' \<and> \<not> is_whitespace (char_of (65 + n))"
proof -
  have "char_of (65 + n) = c \<Longrightarrow> of_char c = 65 + n" for c :: char
    using demo_nibble [OF assms] by metis
  from this [of "CHR ''-''"] this [of "CHR 0x09"] this [of "CHR 0x0A"] this [of "CHR 0x0B"]
    this [of "CHR 0x0C"] this [of "CHR 0x0D"] this [of "CHR 0x20"]
  show ?thesis by (auto simp: is_whitespace_def)
qed

lemma demo_base64_ok: "base64_ok demo_identity_libs"
proof -
  have u: "unat x div 16 < 16" for x :: u8 using unat_u8_less [of x] by simp
  have "demo_decode (demo_encode d) = d" for d
  proof (induction d)
    case Nil
    then show ?case by (simp add: demo_encode_def)
  next
    case (Cons x d)
    have "(word_of_nat (unat x div 16 * 16 + unat x mod 16) :: u8) = x" by simp
    with Cons show ?case
      using demo_nibble [OF u [of x]] demo_nibble [of "unat x mod 16"] by (simp add: demo_encode_def)
  qed
  moreover have "list_all (\<lambda>c. c \<noteq> CHR ''-'' \<and> \<not> is_whitespace c) (demo_encode d)" for d
    using demo_nibble_char [OF u] demo_nibble_char by (auto simp: demo_encode_def list_all_iff)
  ultimately show ?thesis by (simp add: base64_ok_def demo_identity_libs_def)
qed

lemma demo_generated:
  "\<exists>fs. load_or_generate demo_identity_libs None Map.empty = Some (Inr \<lparr> id_cert_der = [7, 1], id_key_der = [7], id_fingerprint = 2 \<rparr>, fs)"
  by (simp add: load_or_generate_def default_identity_dir_def generate_def from_key_pair_def demo_identity_libs_def
      persist_def write_restricted_def andthen_apply identity_of_def fingerprint_of_def Let_def)

theorem identity_stable_witness:
  "\<exists>fs. load_or_generate demo_identity_libs None fs =
     Some (Inr \<lparr> id_cert_der = [7, 1], id_key_der = [7], id_fingerprint = 2 \<rparr>, fs)"
  using demo_generated identity_stable [OF demo_base64_ok] by blast

text \<open>
  The pair of files is not written as one step: when the certificate cannot be written after its
  file was opened, an empty certificate stays behind, and every later run then fails to load it.
\<close>

lemma half_written_identity:
  assumes "base64_ok l" "generate l = Inr ident" "fs (join d ''identity.cert'') = None"
    and "\<forall>p. il_open l p = None" "il_write l (join d ''identity.key'') = None"
    and "il_write l (join d ''identity.cert'') = Some e"
  shows "\<exists>fs'. load_or_generate l (Some d) fs = Some (Inl (Network e), fs') \<and>
    load_or_generate l (Some d) fs' = Some (Inl (Tls ''PEM missing CERTIFICATE header''), fs')"
proof -
  let ?kp = "join d ''identity.key''" and ?cp = "join d ''identity.cert''"
  let ?fs = "fs(?kp \<mapsto> der_to_pem l (id_key_der ident) ''PRIVATE KEY'', ?cp \<mapsto> [])"
  have "pem_to_der l [] ''CERTIFICATE'' = Some (Inl (Tls ''PEM missing CERTIFICATE header''))"
    by (simp add: pem_to_der_def pem_begin_def)
  then have "load_or_generate l (Some d) ?fs = Some (Inl (Tls ''PEM missing CERTIFICATE header''), ?fs)"
    using identity_paths_differ [of d] pem_to_der_to_pem [OF assms(1), of "''PRIVATE KEY''" "id_key_der ident"]
    by (simp add: load_or_generate_def Let_def load_def read_to_string_def)
  moreover have "load_or_generate l (Some d) fs = Some (Inl (Network e), ?fs)"
    using assms(2-6) by (simp add: load_or_generate_def Let_def persist_def andthen_apply write_restricted_def)
  ultimately show ?thesis by blast
qed

end
