(* ===== verification/Endpoint.thy ===== *)
theory Endpoint
  imports Identity
begin

text \<open>
  \<open>p2p-core/src/tls.rs\<close> and the endpoint of \<open>network/quic.rs\<close>: the certificate verifiers, dialling
  with a pinned fingerprint and accepting without one. Of quinn and rustls remains what they are
  documented to do: a handshake ends in a failure or in a connection that presents the peer's
  certificates and whose control stream can be opened or not; and rustls asks the installed
  verifier about the first certificate and gives the handshake up when it objects.
\<close>

section \<open>Verifiers\<close>

definition verify_server_cert :: "identity_libs \<Rightarrow> fingerprint \<Rightarrow> bytes \<Rightarrow> string + unit" where
  "verify_server_cert l expected end_entity =
     (let presented = fingerprint_of l end_entity in
      if presented = expected then Inr ()
      else Inl (''peer fingerprint mismatch (expected '' @ il_hex l expected @
                '', got '' @ il_hex l presented @ '')''))"

definition client_auth_mandatory :: bool where
  "client_auth_mandatory = True"

definition verify_client_cert :: "bytes \<Rightarrow> string + unit" where
  "verify_client_cert end_entity = Inr ()"

section \<open>Connections\<close>

record quinn_conn =
  qc_remote :: socket_addr
  qc_certs :: "bytes list option"
  qc_control :: "string + writer \<times> reader"

definition peer_fingerprint :: "identity_libs \<Rightarrow> quinn_conn \<Rightarrow> fingerprint option" where
  "peer_fingerprint l q =
     (case qc_certs q of
        Some (first # _) \<Rightarrow> Some (fingerprint_of l first)
      | _ \<Rightarrow> None)"

definition of_quinn :: "identity_libs \<Rightarrow> quinn_conn \<Rightarrow> writer \<Rightarrow> reader \<Rightarrow> connection" where
  "of_quinn l q control_send control_recv =
     \<lparr> cn_send = control_send, cn_recv = control_recv, cn_peer_addr = qc_remote q,
       cn_peer_fingerprint = peer_fingerprint l q \<rparr>"

definition control_initiator :: "identity_libs \<Rightarrow> quinn_conn \<Rightarrow> connection result" where
  "control_initiator l q =
     (case qc_control q of
        Inl e \<Rightarrow> Inl (Quic (''open_bi: '' @ e))
      | Inr (s, r) \<Rightarrow>
          (case open_control_initiator (of_quinn l q s r) of
             (Inl e, c) \<Rightarrow> Inl e
           | (Inr u, c) \<Rightarrow> Inr c))"

definition control_responder :: "identity_libs \<Rightarrow> quinn_conn \<Rightarrow> connection result" where
  "control_responder l q =
     (case qc_control q of
        Inl e \<Rightarrow> Inl (Quic (''accept_bi: '' @ e))
      | Inr (s, r) \<Rightarrow>
          (case open_control_responder (of_quinn l q s r) of
             (Inl e, c) \<Rightarrow> Inl e
           | (Inr u, c) \<Rightarrow> Inr c))"

section \<open>Endpoints\<close>

text \<open>
  What quinn gives: the outcome of an outgoing handshake, its verifier aside, and of an incoming
  one. A peer without a certificate does not get through when one is mandatory; the text of
  rustls' own error is left out.
\<close>

datatype dial = NoConnecting string | HandshakeFails string | Established quinn_conn
datatype incoming = EndpointClosed | InboundFails string | Inbound quinn_conn

definition endpoint_connect ::
  "identity_libs \<Rightarrow> dial \<Rightarrow> fingerprint \<Rightarrow> connection result" where
  "endpoint_connect l dialled peer_fp =
     (case dialled of
        NoConnecting e \<Rightarrow> Inl (Quic (''connect_with: '' @ e))
      | HandshakeFails e \<Rightarrow> Inl (Quic (''handshake: '' @ e))
      | Established q \<Rightarrow>
          (case qc_certs q of
             Some (first # _) \<Rightarrow>
               (case verify_server_cert l peer_fp first of
                  Inl e \<Rightarrow> Inl (Quic (''handshake: '' @ e))
                | Inr u \<Rightarrow> control_initiator l q)
           | _ \<Rightarrow> Inl (Quic ''handshake: '')))"

definition endpoint_accept :: "identity_libs \<Rightarrow> incoming \<Rightarrow> connection result" where
  "endpoint_accept l inc =
     (case inc of
        EndpointClosed \<Rightarrow> Inl (Quic ''endpoint closed'')
      | InboundFails e \<Rightarrow> Inl (Quic (''inbound handshake: '' @ e))
      | Inbound q \<Rightarrow>
          (case qc_certs q of
             Some (first # _) \<Rightarrow>
               (case verify_client_cert first of
                  Inl e \<Rightarrow> Inl (Quic (''inbound handshake: '' @ e))
                | Inr u \<Rightarrow> control_responder l q)
           | _ \<Rightarrow> (if client_auth_mandatory then Inl (Quic ''inbound handshake: '')
                    else control_responder l q)))"

text \<open>
  Binding: the socket may fail to bind or to be made non-blocking, and the configuration of TLS and
  of the endpoint may be refused. An endpoint is known by its local address.
\<close>

record binding =
  bi_socket :: "socket_addr \<Rightarrow> io_error + socket_addr"
  bi_nonblocking :: "io_error option"
  bi_server_config :: "string option"
  bi_quic_config :: "string option"
  bi_endpoint :: "string option"

definition endpoint_from_socket :: "binding \<Rightarrow> socket_addr \<Rightarrow> socket_addr result" where
  "endpoint_from_socket b local_addr =
     (case bi_nonblocking b of Some e \<Rightarrow> Inl (Network e)
      | None \<Rightarrow>
     (case bi_server_config b of Some e \<Rightarrow> Inl (Tls (''server config: '' @ e))
      | None \<Rightarrow>
     (case bi_quic_config b of Some e \<Rightarrow> Inl (Tls (''QuicServerConfig: '' @ e))
      | None \<Rightarrow>
     (case bi_endpoint b of Some e \<Rightarrow> Inl (Quic (''endpoint construct: '' @ e))
      | None \<Rightarrow> Inr local_addr))))"

definition endpoint_bind :: "binding \<Rightarrow> socket_addr \<Rightarrow> socket_addr result" where
  "endpoint_bind b bind_addr =
     (case bi_socket b bind_addr of
        Inl e \<Rightarrow> Inl (Network e)
      | Inr local_addr \<Rightarrow> endpoint_from_socket b local_addr)"

definition unspecified :: "u16 \<Rightarrow> socket_addr" where
  "unspecified port = SocketAddr (V4 0) port"

definition bind_wildcard :: "binding \<Rightarrow> u16 \<Rightarrow> socket_addr result" where
  "bind_wildcard b port = endpoint_bind b (unspecified port)"

section \<open>What a connection is known to be\<close>

lemma open_control_initiator_frame:
  "open_control_initiator c = (res, c') \<Longrightarrow>
     cn_peer_fingerprint c' = cn_peer_fingerprint c \<and> cn_peer_addr c' = cn_peer_addr c"
  by (auto simp: open_control_initiator_def on_send_def split: prod.splits)

lemma open_control_responder_frame:
  "open_control_responder c = (res, c') \<Longrightarrow>
     cn_peer_fingerprint c' = cn_peer_fingerprint c \<and> cn_peer_addr c' = cn_peer_addr c"
  by (auto simp: open_control_responder_def on_recv_def andthen_apply split: prod.splits sum.splits if_splits)

lemma control_initiator_frame:
  "control_initiator l q = Inr c \<Longrightarrow> cn_peer_fingerprint c = peer_fingerprint l q \<and> cn_peer_addr c = qc_remote q"
  by (auto simp: control_initiator_def of_quinn_def split: sum.splits prod.splits dest!: open_control_initiator_frame)

lemma control_responder_frame:
  "control_responder l q = Inr c \<Longrightarrow> cn_peer_fingerprint c = peer_fingerprint l q \<and> cn_peer_addr c = qc_remote q"
  by (auto simp: control_responder_def of_quinn_def split: sum.splits prod.splits dest!: open_control_responder_frame)

text \<open>A dialled connection carries the pinned fingerprint.\<close>

lemma endpoint_connect_pinned:
  assumes "endpoint_connect l dialled fp = Inr c"
  shows "cn_peer_fingerprint c = Some fp"
proof -
  obtain q first rest where q: "qc_certs q = Some (first # rest)" "fingerprint_of l first = fp" "control_initiator l q = Inr c"
    using assms by (auto simp: endpoint_connect_def verify_server_cert_def Let_def
        split: dial.splits option.splits list.splits sum.splits if_splits)
  then show ?thesis using control_initiator_frame [OF q(3)] by (simp add: peer_fingerprint_def)
qed

text \<open>An accepted connection carries some fingerprint, of a certificate nothing was asked of.\<close>

lemma endpoint_accept_presented:
  assumes "endpoint_accept l inc = Inr c"
  shows "\<exists>q first rest. inc = Inbound q \<and> qc_certs q = Some (first # rest) \<and>
    cn_peer_fingerprint c = Some (fingerprint_of l first) \<and> cn_peer_addr c = qc_remote q"
proof -
  obtain q first rest where q: "inc = Inbound q" "qc_certs q = Some (first # rest)" "control_responder l q = Inr c"
    using assms by (auto simp: endpoint_accept_def client_auth_mandatory_def
        split: incoming.splits option.splits list.splits sum.splits if_splits)
  then show ?thesis using control_responder_frame [OF q(3)] by (auto simp: peer_fingerprint_def)
qed

end
