(* ===== verification/Rendezvous_Client.thy ===== *)
theory Rendezvous_Client
  imports Rendezvous_Server
begin

text \<open>
  \<open>p2p-rendezvous/src/client.rs\<close>: one \<open>Register\<close> frame to the server, one message back, and what the
  caller is told of it. The TCP connection is its two directions and whether the reply comes too
  late; the MessagePack serializer is a parameter.
\<close>

record rz_rmp =
  rz_to_vec :: "rz_message \<Rightarrow> string + bytes"
  rz_from_slice :: "bytes \<Rightarrow> string + rz_message"

record tcp =
  tc_send :: writer
  tc_recv :: reader
  tc_late :: bool

record peer_info =
  pi_endpoint :: socket_addr
  pi_fingerprint :: fingerprint
  pi_device_id :: "128 word"

record relay_info =
  ri_relay_endpoint :: socket_addr
  ri_session_token :: token
  ri_peer_fingerprint :: fingerprint
  ri_peer_device_id :: "128 word"

datatype match_outcome = Direct peer_info | Relay relay_info

datatype client_error =
    CConnect io_error
  | CWire rendezvous_proto_error
  | CTimeout
  | CExpired
  | CRejected string
  | CUnexpectedFromServer string

fun rz_display :: "rendezvous_proto_error \<Rightarrow> string" where
  "rz_display (RIo e) = ''rendezvous io: '' @ io_text e"
| "rz_display (RDecode s) = ''rendezvous decode: '' @ s"
| "rz_display (REncode s) = ''rendezvous encode: '' @ s"
| "rz_display (FrameTooLarge sz cap) =
     ''rendezvous frame too large: '' @ show_nat (unat sz) @ '' > '' @ show_nat (unat cap)"

fun client_display :: "client_error \<Rightarrow> string" where
  "client_display (CConnect e) = ''rendezvous connect failed: '' @ io_text e"
| "client_display (CWire e) = ''rendezvous wire: '' @ rz_display e"
| "client_display CTimeout = ''rendezvous timed out waiting for peer''"
| "client_display CExpired = ''rendezvous code expired before peer arrived''"
| "client_display (CRejected s) = ''rendezvous rejected: '' @ s"
| "client_display (CUnexpectedFromServer s) = ''unexpected message from rendezvous server: '' @ s"

fun outcome_of :: "rz_message \<Rightarrow> client_error + match_outcome" where
  "outcome_of (Match endpoint fp dev) =
     Inr (Direct \<lparr> pi_endpoint = endpoint, pi_fingerprint = fp, pi_device_id = dev \<rparr>)"
| "outcome_of (RelayMatch relay token fp dev) =
     Inr (Relay \<lparr> ri_relay_endpoint = relay, ri_session_token = token, ri_peer_fingerprint = fp, ri_peer_device_id = dev \<rparr>)"
| "outcome_of Expired = Inl CExpired"
| "outcome_of (Rejected reason) = Inl (CRejected reason)"
| "outcome_of (Register r) = Inl (CUnexpectedFromServer ''Register frame from server'')"

definition register_on :: "rz_rmp \<Rightarrow> register_request \<Rightarrow> tcp \<Rightarrow> (client_error + match_outcome) \<times> tcp" where
  "register_on c req t =
     (case rz_write_message (rz_to_vec c) (Register req) (tc_send t) of
        (Inl e, w) \<Rightarrow> (Inl (CWire e), t\<lparr> tc_send := w \<rparr>)
      | (Inr u, w) \<Rightarrow>
          let t1 = t\<lparr> tc_send := w \<rparr> in
          if tc_late t then (Inl CTimeout, t1)
          else (case rz_read_message (rz_from_slice c) (tc_recv t) of
                  (Inl e, r) \<Rightarrow> (Inl (CWire e), t1\<lparr> tc_recv := r \<rparr>)
                | (Inr response, r) \<Rightarrow> (outcome_of response, t1\<lparr> tc_recv := r \<rparr>)))"

definition register_full :: "rz_rmp \<Rightarrow> io_error + tcp \<Rightarrow> register_request \<Rightarrow> client_error + match_outcome" where
  "register_full c stream req =
     (case stream of Inl e \<Rightarrow> Inl (CConnect e) | Inr t \<Rightarrow> fst (register_on c req t))"

definition register :: "rz_rmp \<Rightarrow> io_error + tcp \<Rightarrow> register_request \<Rightarrow> client_error + peer_info" where
  "register c stream req =
     (case register_full c stream req of
        Inl e \<Rightarrow> Inl e
      | Inr (Direct p) \<Rightarrow> Inr p
      | Inr (Relay r) \<Rightarrow> Inl (CUnexpectedFromServer
          ''rendezvous returned RelayMatch but caller used the direct-only register() helper''))"

section \<open>Client and server\<close>

definition rz_ok :: "rz_rmp \<Rightarrow> bool" where
  "rz_ok c \<longleftrightarrow> (\<forall>m p. rz_to_vec c m = Inr p \<longrightarrow> rz_from_slice c p = Inr m)"

lemma rz_read_written:
  assumes "rz_ok c" "rz_to_vec c m = Inr p" "rz_fits p"
  shows "rz_read_message (rz_from_slice c) \<lparr> rd_bytes = rz_frame_of p @ rest, rd_end = e \<rparr> =
    (Inr m, \<lparr> rd_bytes = rest, rd_end = e \<rparr>)"
  using assms by (simp add: rz_read_message_def andthen_apply rz_read_frame_frame_of rz_ok_def)

lemma rz_write_fits:
  assumes "rz_to_vec c m = Inr p" "rz_fits p"
  shows "rz_write_message (rz_to_vec c) m \<lparr> wr_out = out, wr_fail = None \<rparr> =
    (Inr (), \<lparr> wr_out = out @ rz_frame_of p, wr_fail = None \<rparr>)"
  using assms rz_fits_bounds [OF assms(2)]
  by (simp add: rz_write_message_def andthen_apply map_err_apply write_all_def rz_frame_of_def)

text \<open>What the client succeeds with came in a single well-formed frame of the server.\<close>

lemma register_full_Inr:
  assumes "register_full c stream req = Inr out"
  shows "\<exists>t r m r'. stream = Inr t \<and> \<not> tc_late t \<and>
    rz_read_message (rz_from_slice c) (tc_recv t) = (Inr m, r') \<and> outcome_of m = Inr out"
  using assms
  by (auto simp: register_full_def register_on_def Let_def split: sum.splits prod.splits if_splits)

text \<open>
  C39: a client whose request fits a frame puts exactly this request on the
  wire, which the server decodes as its first frame; and whatever message the server answers with
  is what the client's result is made of: a match gives the endpoint, fingerprint and device the
  server named, a rejection or expiry the corresponding error.
\<close>

theorem registration:
  assumes "rz_ok c" "rz_to_vec c (Register req) = Inr p" "rz_fits p" "rz_to_vec c answer = Inr q" "rz_fits q"
    and "rz_write_message (rz_to_vec c) answer \<lparr> wr_out = [], wr_fail = None \<rparr> = (Inr (), w)"
    and "t = \<lparr> tc_send = \<lparr> wr_out = [], wr_fail = None \<rparr>, tc_recv = \<lparr> rd_bytes = wr_out w, rd_end = e \<rparr>, tc_late = False \<rparr>"
    and "register_on c req t = (res, t')"
  shows "rz_read_message (rz_from_slice c) \<lparr> rd_bytes = wr_out (tc_send t'), rd_end = e' \<rparr> =
           (Inr (Register req), \<lparr> rd_bytes = [], rd_end = e' \<rparr>) \<and>
         res = outcome_of answer \<and> register_full c (Inr t) req = outcome_of answer \<and>
         (case answer of
            Match ep fp dev \<Rightarrow> register c (Inr t) req = Inr \<lparr> pi_endpoint = ep, pi_fingerprint = fp, pi_device_id = dev \<rparr>
          | _ \<Rightarrow> \<exists>e. register c (Inr t) req = Inl e)"
proof -
  have w: "wr_out w = rz_frame_of q" using assms(6) rz_write_fits [OF assms(4,5), of "[]"] by auto
  have on: "register_on c req t = (outcome_of answer,
      t\<lparr> tc_send := \<lparr> wr_out = rz_frame_of p, wr_fail = None \<rparr>, tc_recv := \<lparr> rd_bytes = [], rd_end = e \<rparr> \<rparr>)"
    using rz_write_fits [OF assms(2,3), of "[]"] rz_read_written [OF assms(1,4,5), of "[]" e]
    by (simp add: register_on_def assms(7) w Let_def)
  have full: "register_full c (Inr t) req = outcome_of answer" by (simp add: register_full_def on)
  have "case answer of
            Match ep fp dev \<Rightarrow> register c (Inr t) req = Inr \<lparr> pi_endpoint = ep, pi_fingerprint = fp, pi_device_id = dev \<rparr>
          | _ \<Rightarrow> \<exists>e. register c (Inr t) req = Inl e"
    by (cases answer) (simp_all add: register_def full)
  with full on assms(8) rz_read_written [OF assms(1-3), of "[]" e'] show ?thesis by simp
qed

definition demo_request :: register_request where
  "demo_request = \<lparr> rq_protocol_version = 1, rq_code = ''ABCD'', rq_public_endpoint = SocketAddr (V4 1) 2,
     rq_cert_fingerprint = 3, rq_device_id = 4, rq_want_relay = False \<rparr>"

definition demo_rz :: rz_rmp where
  "demo_rz = \<lparr>
     rz_to_vec = (\<lambda>m. if m = Register demo_request then Inr [0]
                      else if m = Match (SocketAddr (V4 9) 9) 8 7 then Inr [1] else Inl []),
     rz_from_slice = (\<lambda>b. if b = [0] then Inr (Register demo_request) else Inr (Match (SocketAddr (V4 9) 9) 8 7)) \<rparr>"

lemma demo_rz_ok: "rz_ok demo_rz"
  by (auto simp: rz_ok_def demo_rz_def split: if_splits)

theorem registration_witness:
  "register demo_rz (Inr \<lparr> tc_send = \<lparr> wr_out = [], wr_fail = None \<rparr>,
       tc_recv = \<lparr> rd_bytes = rz_frame_of [1], rd_end = None \<rparr>, tc_late = False \<rparr>) demo_request =
     Inr \<lparr> pi_endpoint = SocketAddr (V4 9) 9, pi_fingerprint = 8, pi_device_id = 7 \<rparr>"
proof -
  have fit: "rz_fits [0]" "rz_fits [1]" by (simp_all add: rz_fits_def MAX_FRAME_BYTES_def)
  have v: "rz_to_vec demo_rz (Register demo_request) = Inr [0]"
      "rz_to_vec demo_rz (Match (SocketAddr (V4 9) 9) 8 7) = Inr [1]"
    by (simp_all add: demo_rz_def)
  show ?thesis
    using registration [OF demo_rz_ok v(1) fit(1) v(2) fit(2) rz_write_fits [OF v(2) fit(2), of "[]"] refl
        surjective_pairing, where e' = None and e = None]
    by simp
qed

end
