(* ===== verification/Stun.thy ===== *)
theory Stun
  imports Wire_Protocol
begin

text \<open>
  The STUN client of \<open>p2p-core/src/traversal/stun.rs\<close>: the binding request, the parser of the binding
  response, the query that drops packets of others, and the NAT classification. Every cut and
  index of the parser is written with its bounds check: \<open>None\<close> is the panic it would be in the code.
  The response layout of RFC 5389 is stated as an encoder, which the parser is proved against.
\<close>

unbundle bit_operations_syntax

definition BINDING_REQUEST :: u16 where "BINDING_REQUEST = 0x0001"
definition BINDING_RESPONSE :: u16 where "BINDING_RESPONSE = 0x0101"
definition MAGIC_COOKIE :: u32 where "MAGIC_COOKIE = 0x2112A442"
definition ATTR_MAPPED_ADDRESS :: u16 where "ATTR_MAPPED_ADDRESS = 0x0001"
definition ATTR_XOR_MAPPED_ADDRESS :: u16 where "ATTR_XOR_MAPPED_ADDRESS = 0x0020"

section \<open>Parsing\<close>

definition cut :: "nat \<Rightarrow> nat \<Rightarrow> bytes \<Rightarrow> bytes option" where
  "cut a b xs = (if a \<le> b \<and> b \<le> length xs then Some (take (b - a) (drop a xs)) else None)"

definition be_at :: "nat \<Rightarrow> nat \<Rightarrow> bytes \<Rightarrow> ('n::len word) option" where
  "be_at off n xs = map_option be_word (cut off (off + n) xs)"

definition parse_xor_mapped :: "bytes \<Rightarrow> bytes \<Rightarrow> socket_addr result option" where
  "parse_xor_mapped attr tx_id =
     (if length attr < 8 then Some (Inl (Protocol ''XOR-MAPPED-ADDRESS too short''))
      else do {
        family \<leftarrow> be_at 1 1 attr :: u8 option;
        xor_port \<leftarrow> be_at 2 2 attr :: u16 option;
        let port = xor_port XOR ucast (drop_bit 16 MAGIC_COOKIE);
        if family = 1 then do {
          xor_ip \<leftarrow> be_at 4 4 attr :: u32 option;
          Some (Inr (SocketAddr (V4 (xor_ip XOR MAGIC_COOKIE)) port)) }
        else if family = 2 then
          (if length attr < 20 then Some (Inl (Protocol ''XOR-MAPPED-ADDRESS IPv6 too short''))
           else if length tx_id \<noteq> 12 then None
           else do {
             octets \<leftarrow> cut 4 20 attr;
             Some (Inr (SocketAddr (V6 (be_word (map2 (XOR) octets (word_be 4 MAGIC_COOKIE @ tx_id)))) port)) })
        else Some (Inl (Protocol (''unknown address family: '' @ show_nat (unat family)))) })"

definition parse_mapped :: "bytes \<Rightarrow> socket_addr result option" where
  "parse_mapped attr =
     (if length attr < 8 then Some (Inl (Protocol ''MAPPED-ADDRESS too short''))
      else do {
        family \<leftarrow> be_at 1 1 attr :: u8 option;
        port \<leftarrow> be_at 2 2 attr :: u16 option;
        if family = 1 then do {
          ip \<leftarrow> be_at 4 4 attr :: u32 option;
          Some (Inr (SocketAddr (V4 ip) port)) }
        else if family = 2 then
          (if length attr < 20 then Some (Inl (Protocol ''MAPPED-ADDRESS IPv6 too short''))
           else do {
             octets \<leftarrow> cut 4 20 attr;
             Some (Inr (SocketAddr (V6 (be_word octets)) port)) })
        else Some (Inl (Protocol (''unknown address family: '' @ show_nat (unat family)))) })"

definition ok_of :: "'a result \<Rightarrow> 'a option" where
  "ok_of r = (case r of Inr x \<Rightarrow> Some x | Inl _ \<Rightarrow> None)"

definition parse_attr :: "u16 \<Rightarrow> bytes \<Rightarrow> bytes \<Rightarrow> socket_addr option option" where
  "parse_attr attr_type attr tx_id =
     (if attr_type = ATTR_XOR_MAPPED_ADDRESS then map_option ok_of (parse_xor_mapped attr tx_id)
      else if attr_type = ATTR_MAPPED_ADDRESS then map_option ok_of (parse_mapped attr)
      else Some None)"

text \<open>An attribute whose address does not parse is skipped, like one of another type.\<close>

function attr_loop :: "bytes \<Rightarrow> bytes \<Rightarrow> nat \<Rightarrow> nat \<Rightarrow> socket_addr option option" where
  "attr_loop data tx_id stop_at off =
     (if off + 4 \<le> stop_at then do {
        attr_type \<leftarrow> be_at off 2 data :: u16 option;
        attr_len \<leftarrow> be_at (off + 2) 2 data :: u16 option;
        let n = unat attr_len;
        if off + 4 + n > stop_at then Some None
        else do {
          attr \<leftarrow> cut (off + 4) (off + 4 + n) data;
          r \<leftarrow> parse_attr attr_type attr tx_id;
          case r of
            Some addr \<Rightarrow> Some (Some addr)
          | None \<Rightarrow> attr_loop data tx_id stop_at (off + 4 + (n + 3) div 4 * 4) } }
      else Some None)"
  by pat_completeness auto
termination
  by (relation "measure (\<lambda>(data, tx_id, stop_at, off). stop_at - off)") auto

declare attr_loop.simps [simp del]

definition parse_binding_response :: "bytes \<Rightarrow> socket_addr result option" where
  "parse_binding_response data =
     (if length data < 20 then Some (Inl (Protocol ''STUN response too short''))
      else do {
        msg_type \<leftarrow> be_at 0 2 data :: u16 option;
        if msg_type \<noteq> BINDING_RESPONSE then Some (Inl (Protocol (''unexpected STUN message type: 0x'' @ concat (map hex2 (word_be 2 msg_type)))))
        else do {
          msg_len \<leftarrow> be_at 2 2 data :: u16 option;
          cookie \<leftarrow> be_at 4 4 data :: u32 option;
          if cookie \<noteq> MAGIC_COOKIE then Some (Inl (Protocol ''invalid STUN magic cookie''))
          else do {
            tx_id \<leftarrow> cut 8 20 data;
            found \<leftarrow> attr_loop data tx_id (min (20 + unat msg_len) (length data)) 20;
            Some (case found of
                    Some addr \<Rightarrow> Inr addr
                  | None \<Rightarrow> Inl (Protocol ''no mapped-address attribute in STUN response'')) } } })"

section \<open>Requests and queries\<close>

definition build_binding_request :: "bytes \<Rightarrow> bytes" where
  "build_binding_request tx = word_be 2 BINDING_REQUEST @ [0, 0] @ word_be 4 MAGIC_COOKIE @ tx"

text \<open>
  The packets that reach the socket before the deadline, in order, cut to the 1024-byte buffer;
  afterwards the socket fails or the deadline passes.
\<close>

fun query_loop ::
  "socket_addr \<Rightarrow> bytes \<Rightarrow> (socket_addr \<times> bytes) list \<Rightarrow> io_error option \<Rightarrow> socket_addr result option" where
  "query_loop server tx [] lost =
     Some (Inl (case lost of None \<Rightarrow> Timeout | Some e \<Rightarrow> Network e))"
| "query_loop server tx ((src, packet) # rest) lost =
     (let data = take 1024 packet in
      if src \<noteq> server \<or> length data < 20 \<or> take 12 (drop 8 data) \<noteq> tx
      then query_loop server tx rest lost
      else parse_binding_response data)"

definition query ::
  "(bytes \<Rightarrow> io_error option) \<Rightarrow> socket_addr \<Rightarrow> bytes \<Rightarrow> (socket_addr \<times> bytes) list \<Rightarrow> io_error option \<Rightarrow>
     socket_addr result option" where
  "query send server tx packets lost =
     (case send (build_binding_request tx) of
        Some e \<Rightarrow> Some (Inl (Network e))
      | None \<Rightarrow> query_loop server tx packets lost)"

datatype nat_class = Cone socket_addr | Symmetric

definition classify_nat :: "socket_addr result \<Rightarrow> socket_addr result \<Rightarrow> nat_class result" where
  "classify_nat query_a query_b =
     rbind query_a (\<lambda>map_a. rbind query_b (\<lambda>map_b.
       Inr (if sa_port map_a = sa_port map_b then Cone map_a else Symmetric)))"

section \<open>No packet makes the parser panic\<close>

lemma cut_Some: "a \<le> b \<Longrightarrow> b \<le> length xs \<Longrightarrow> cut a b xs = Some (take (b - a) (drop a xs))"
  by (simp add: cut_def)

lemma be_at_Some: "off + n \<le> length xs \<Longrightarrow> be_at off n xs = Some (be_word (take n (drop off xs)))"
  by (simp add: be_at_def cut_Some)

lemma parse_attr_total: "length tx = 12 \<Longrightarrow> parse_attr ty attr tx \<noteq> None"
  by (auto simp: parse_attr_def parse_xor_mapped_def parse_mapped_def be_at_Some cut_Some Let_def)

lemma attr_loop_total:
  "length tx = 12 \<Longrightarrow> stop_at \<le> length data \<Longrightarrow> attr_loop data tx stop_at off \<noteq> None"
proof (induction data tx stop_at off rule: attr_loop.induct)
  case (1 data tx stop_at off)
  show ?case
  proof (cases "off + 4 \<le> stop_at")
    case False
    then show ?thesis by (subst attr_loop.simps) simp
  next
    case True
    let ?ty = "be_word (take 2 (drop off data)) :: u16" and ?len = "be_word (take 2 (drop (off + 2) data)) :: u16"
    have at: "be_at off 2 data = Some ?ty" "be_at (off + 2) 2 data = Some ?len"
      using True 1(3) by (simp_all add: be_at_Some)
    show ?thesis
    proof (cases "off + 4 + unat ?len > stop_at")
      case gt: True
      with True at show ?thesis by (subst attr_loop.simps) (simp add: Let_def)
    next
      case False
      let ?attr = "take (unat ?len) (drop (off + 4) data)"
      have sl: "cut (off + 4) (off + 4 + unat ?len) data = Some ?attr"
        using False 1(3) by (simp add: cut_Some)
      obtain r where r: "parse_attr ?ty ?attr tx = Some r" using parse_attr_total [OF 1(2)] by blast
      show ?thesis
      proof (cases r)
        case (Some addr)
        with True False at sl r show ?thesis by (subst attr_loop.simps) (simp add: Let_def)
      next
        case (None)
        from 1(1) [OF True at(1) at(2) refl False sl r None 1(2,3)] True False at sl r None show ?thesis
          by (subst attr_loop.simps) (simp add: Let_def)
      qed
    qed
  qed
qed

lemma parse_binding_response_total: "parse_binding_response data \<noteq> None"
proof (cases "length data < 20")
  case True
  then show ?thesis by (simp add: parse_binding_response_def)
next
  case False
  then have "cut 8 20 data = Some (take 12 (drop 8 data))" "length (take 12 (drop 8 data)) = 12"
    by (simp_all add: cut_Some)
  moreover from this attr_loop_total obtain found where
    "attr_loop data (take 12 (drop 8 data)) (min (20 + unat (be_word (take 2 (drop 2 data)) :: u16)) (length data)) 20 = Some found"
    by (metis min.cobounded2 not_None_eq)
  ultimately show ?thesis
    using False by (auto simp: parse_binding_response_def be_at_Some)
qed

section \<open>The layout of a response\<close>

definition attribute :: "u16 \<Rightarrow> bytes \<Rightarrow> bytes" where
  "attribute ty v = word_be 2 ty @ word_be 2 (word_of_nat (length v) :: u16) @ v @
     replicate ((length v + 3) div 4 * 4 - length v) 0"

definition xor_value :: "bytes \<Rightarrow> socket_addr \<Rightarrow> bytes" where
  "xor_value tx addr =
     (case sa_ip addr of V4 a \<Rightarrow> [0, 1] | V6 a \<Rightarrow> [0, 2]) @
     word_be 2 (sa_port addr XOR ucast (drop_bit 16 MAGIC_COOKIE)) @
     (case sa_ip addr of
        V4 a \<Rightarrow> word_be 4 (a XOR MAGIC_COOKIE)
      | V6 a \<Rightarrow> map2 (XOR) (word_be 16 a) (word_be 4 MAGIC_COOKIE @ tx))"

definition stun_body :: "(u16 \<times> bytes) list \<Rightarrow> bytes" where
  "stun_body attrs = concat (map (\<lambda>(ty, v). attribute ty v) attrs)"

definition stun_response :: "bytes \<Rightarrow> (u16 \<times> bytes) list \<Rightarrow> bytes" where
  "stun_response tx attrs = word_be 2 BINDING_RESPONSE @
     word_be 2 (word_of_nat (length (stun_body attrs)) :: u16) @ word_be 4 MAGIC_COOKIE @ tx @ stun_body attrs"

lemma length_attribute: "length (attribute ty v) = 4 + (length v + 3) div 4 * 4"
proof -
  have "length v \<le> (length v + 3) div 4 * 4" by linarith
  then show ?thesis by (simp add: attribute_def)
qed

lemma be_at_word:
  assumes "LENGTH('n::len) = 8 * n" "off = length a"
  shows "be_at off n (a @ word_be n (w :: 'n word) @ b) = Some w"
  using be_word_word_be [OF assms(1), of w] by (simp add: assms(2) be_at_Some)

lemma cut_mid: "off = length a \<Longrightarrow> e = off + length b \<Longrightarrow> cut off e (a @ b @ c) = Some b"
  by (simp add: cut_def)

lemma attr_loop_step:
  assumes "length v < 2 ^ 16"
  shows "attr_loop (a @ attribute ty v @ b) tx (length (a @ attribute ty v @ b)) (length a) =
    (case parse_attr ty v tx of
       None \<Rightarrow> None
     | Some (Some addr) \<Rightarrow> Some (Some addr)
     | Some None \<Rightarrow> attr_loop (a @ attribute ty v @ b) tx (length (a @ attribute ty v @ b))
                        (length (a @ attribute ty v)))"
proof -
  let ?pad = "replicate ((length v + 3) div 4 * 4 - length v) (0 :: u8)"
  let ?len = "word_of_nat (length v) :: u16"
  let ?d = "a @ attribute ty v @ b"
  have len: "unat ?len = length v" using assms by (simp add: unsigned_of_nat take_bit_nat_eq_self)
  have 1: "be_at (length a) 2 ?d = Some ty"
    using be_at_word [of 2 "length a" a ty "word_be 2 ?len @ v @ ?pad @ b"] by (simp add: attribute_def)
  have 2: "be_at (length a + 2) 2 ?d = Some ?len"
    using be_at_word [of 2 "length a + 2" "a @ word_be 2 ty" ?len "v @ ?pad @ b"] by (simp add: attribute_def)
  have 3: "cut (length a + 4) (length a + 4 + length v) ?d = Some v"
    using cut_mid [of "length a + 4" "a @ word_be 2 ty @ word_be 2 ?len" "length a + 4 + length v" v "?pad @ b"]
    by (simp add: attribute_def)
  have "length v \<le> (length v + 3) div 4 * 4" by linarith
  then have fit: "length a + 4 \<le> length ?d" "\<not> length a + 4 + length v > length ?d"
    by (simp_all add: length_attribute)
  show ?thesis
    using 1 2 3 fit len
    by (subst attr_loop.simps) (auto simp: Let_def length_attribute add.assoc split: option.splits sum.splits)
qed

lemma map2_xor_twice:
  "length xs = length ys \<Longrightarrow> map2 (XOR) (map2 (XOR) xs ys) ys = (xs :: u8 list)"
  by (induction xs ys rule: list_induct2) (simp_all add: xor.assoc)

lemma parse_xor_value:
  assumes "length tx = 12"
  shows "parse_attr ATTR_XOR_MAPPED_ADDRESS (xor_value tx addr) tx = Some (Some addr)"
proof -
  obtain ip port where addr: "addr = SocketAddr ip port" by (cases addr)
  let ?p = "port XOR ucast (drop_bit 16 MAGIC_COOKIE) :: u16"
  have fam: "be_at 1 1 ([0, f] @ r) = Some f" for f :: u8 and r
    by (simp add: be_at_Some be_word_def from_be_def)
  have prt: "be_at 2 2 ([0, f] @ word_be 2 ?p @ r) = Some ?p" for f :: u8 and r
    using be_at_word [of 2 2 "[0, f]" ?p r] by simp
  show ?thesis
  proof (cases ip)
    case (V4 a)
    have "be_at 4 4 (([0, 1] @ word_be 2 ?p) @ word_be 4 (a XOR MAGIC_COOKIE) @ []) = Some (a XOR MAGIC_COOKIE)"
      by (rule be_at_word) simp_all
    with fam [of 1] prt [of 1] show ?thesis
      by (simp add: parse_attr_def ok_of_def parse_xor_mapped_def xor_value_def addr V4 Let_def xor.assoc)
  next
    case (V6 a)
    let ?key = "word_be 4 MAGIC_COOKIE @ tx"
    let ?o = "map2 (XOR) (word_be 16 a) ?key"
    have lk: "length ?o = 16" by (simp add: assms)
    have "cut 4 20 (([0, 2] @ word_be 2 ?p) @ ?o @ []) = Some ?o"
      by (rule cut_mid) (simp_all add: assms)
    moreover have "map2 (XOR) ?o ?key = word_be 16 a"
      by (intro map2_xor_twice) (simp add: assms)
    ultimately show ?thesis
      using fam [of 2] prt [of 2] lk assms
      by (simp add: parse_attr_def ok_of_def parse_xor_mapped_def xor_value_def addr V6 Let_def xor.assoc)
  qed
qed

lemma attr_loop_find:
  assumes "length tx = 12" "\<forall>(ty, v) \<in> set pre. ty \<notin> {ATTR_XOR_MAPPED_ADDRESS, ATTR_MAPPED_ADDRESS} \<and> length v < 2 ^ 16"
    and "data = a @ stun_body pre @ attribute ATTR_XOR_MAPPED_ADDRESS (xor_value tx addr) @ b"
  shows "attr_loop data tx (length data) (length a) = Some (Some addr)"
  using assms(2,3)
proof (induction pre arbitrary: a)
  case Nil
  have "length (xor_value tx addr) < 2 ^ 16"
    using assms(1) by (auto simp: xor_value_def split: ip_addr.splits)
  from attr_loop_step [OF this, of a] Nil show ?case
    by (simp add: stun_body_def parse_xor_value [OF assms(1)])
next
  case (Cons p pre)
  obtain ty v where p: "p = (ty, v)" by fastforce
  let ?d = "a @ attribute ty v @ stun_body pre @ attribute ATTR_XOR_MAPPED_ADDRESS (xor_value tx addr) @ b"
  have d: "data = ?d" using Cons.prems(2) by (simp add: p stun_body_def)
  have "parse_attr ty v tx = Some None" using Cons.prems(1) by (simp add: p parse_attr_def)
  moreover have "length v < 2 ^ 16" using Cons.prems(1) by (simp add: p)
  ultimately have "attr_loop ?d tx (length ?d) (length a) = attr_loop ?d tx (length ?d) (length (a @ attribute ty v))"
    using attr_loop_step [of v a ty "stun_body pre @ attribute ATTR_XOR_MAPPED_ADDRESS (xor_value tx addr) @ b" tx]
    by (simp only: option.case sum.case)
  moreover have "attr_loop data tx (length data) (length (a @ attribute ty v)) = Some (Some addr)"
    using Cons.IH [of "a @ attribute ty v"] Cons.prems(1) d by simp
  ultimately show ?case by (simp only: d)
qed

lemma parse_response:
  assumes "length tx = 12" "length (stun_body attrs) < 2 ^ 16"
    and "attrs = pre @ (ATTR_XOR_MAPPED_ADDRESS, xor_value tx addr) # post"
    and "\<forall>(ty, v) \<in> set pre. ty \<notin> {ATTR_XOR_MAPPED_ADDRESS, ATTR_MAPPED_ADDRESS}"
  shows "parse_binding_response (stun_response tx attrs) = Some (Inr addr)"
proof -
  let ?d = "stun_response tx attrs" and ?n = "word_of_nat (length (stun_body attrs)) :: u16"
  let ?h = "word_be 2 BINDING_RESPONSE @ word_be 2 ?n @ word_be 4 MAGIC_COOKIE @ tx"
  have n: "unat ?n = length (stun_body attrs)" using assms(2) by (simp add: unsigned_of_nat take_bit_nat_eq_self)
  let ?rest = "tx @ stun_body attrs"
  have 1: "be_at 0 2 ([] @ word_be 2 BINDING_RESPONSE @ word_be 2 ?n @ word_be 4 MAGIC_COOKIE @ ?rest) = Some BINDING_RESPONSE"
    by (rule be_at_word) simp_all
  have 2: "be_at 2 2 (word_be 2 BINDING_RESPONSE @ word_be 2 ?n @ word_be 4 MAGIC_COOKIE @ ?rest) = Some ?n"
    by (rule be_at_word) simp_all
  have 3: "be_at 4 4 ((word_be 2 BINDING_RESPONSE @ word_be 2 ?n) @ word_be 4 MAGIC_COOKIE @ ?rest) = Some MAGIC_COOKIE"
    by (rule be_at_word) simp_all
  have 4: "cut 8 20 ((word_be 2 BINDING_RESPONSE @ word_be 2 ?n @ word_be 4 MAGIC_COOKIE) @ tx @ stun_body attrs) = Some tx"
    by (rule cut_mid) (simp_all add: assms(1))
  note at = 1 [unfolded append_Nil] 2 3 [unfolded append_assoc] 4 [unfolded append_assoc]
  note at = at [folded stun_response_def]
  have len: "length ?d = 20 + length (stun_body attrs)" using assms(1) by (simp add: stun_response_def)
  have small: "length v < 2 ^ 16" if "(ty, v) \<in> set attrs" for ty v
  proof -
    from split_list [OF that] obtain l r where "attrs = l @ (ty, v) # r" by blast
    then have "length (attribute ty v) \<le> length (stun_body attrs)"
      by (simp add: stun_body_def)
    moreover have "length v \<le> (length v + 3) div 4 * 4" by linarith
    ultimately show ?thesis using assms(2) by (simp add: length_attribute)
  qed
  have "?d = ?h @ stun_body pre @ attribute ATTR_XOR_MAPPED_ADDRESS (xor_value tx addr) @ stun_body post"
    by (simp add: stun_response_def assms(3) stun_body_def)
  moreover have "length ?h = 20" using assms(1) by simp
  moreover have "\<forall>(ty, v) \<in> set pre. ty \<notin> {ATTR_XOR_MAPPED_ADDRESS, ATTR_MAPPED_ADDRESS} \<and> length v < 2 ^ 16"
    using assms(3,4) small by fastforce
  ultimately have "attr_loop ?d tx (length ?d) 20 = Some (Some addr)"
    using attr_loop_find [OF assms(1), of pre ?d ?h addr "stun_body post"] by simp
  with at len n show ?thesis by (simp add: parse_binding_response_def)
qed

text \<open>
  Whatever packets reach the socket, a STUN query ends without a panic; it reports an
  address only from a packet of the queried server with the transaction id of the request; and a
  standard response with an XOR-MAPPED-ADDRESS attribute, behind any number of packets of others and
  of attributes of other types, makes it report exactly the address encoded there.
\<close>

lemma stun_query:
  assumes "length tx = 12" "\<forall>(src, p) \<in> set before. src \<noteq> server \<or> take 12 (drop 8 p) \<noteq> tx"
    and "attrs = pre @ (ATTR_XOR_MAPPED_ADDRESS, xor_value tx addr) # post"
    and "\<forall>(ty, v) \<in> set pre. ty \<notin> {ATTR_XOR_MAPPED_ADDRESS, ATTR_MAPPED_ADDRESS}"
    and "length (stun_response tx attrs) \<le> 1024"
  shows "query_loop server tx (before @ (server, stun_response tx attrs) # after) lost = Some (Inr addr) \<and>
    (\<forall>packets. query_loop server tx packets lost \<noteq> None) \<and>
    (\<forall>packets a. query_loop server tx packets lost = Some (Inr a) \<longrightarrow>
       (\<exists>p. (server, p) \<in> set packets \<and> take 12 (drop 8 p) = tx \<and>
            parse_binding_response (take 1024 p) = Some (Inr a)))"
proof (intro conjI allI impI)
  have "length (stun_body attrs) < 2 ^ 16" using assms(5) by (simp add: stun_response_def)
  then have pr: "parse_binding_response (stun_response tx attrs) = Some (Inr addr)"
    using parse_response [OF assms(1) _ assms(3,4)] by blast
  have tx: "take 12 (drop 8 (stun_response tx attrs)) = tx" "20 \<le> length (stun_response tx attrs)"
    using assms(1) by (simp_all add: stun_response_def)
  show "query_loop server tx (before @ (server, stun_response tx attrs) # after) lost = Some (Inr addr)"
    using assms(2)
  proof (induction before)
    case Nil
    with pr tx assms(5) show ?case by (simp add: Let_def)
  next
    case (Cons q before)
    obtain src p where q: "q = (src, p)" by fastforce
    have "take 12 (drop 8 (take 1024 p)) = take 12 (drop 8 p)"
      by (simp add: drop_take min_def)
    with Cons show ?case by (auto simp: q Let_def)
  qed
next
  fix packets show "query_loop server tx packets lost \<noteq> None"
    by (induction packets) (auto simp: Let_def parse_binding_response_total [unfolded not_None_eq])
next
  fix packets a assume "query_loop server tx packets lost = Some (Inr a)"
  then show "\<exists>p. (server, p) \<in> set packets \<and> take 12 (drop 8 p) = tx \<and>
            parse_binding_response (take 1024 p) = Some (Inr a)"
  proof (induction packets)
    case Nil
    then show ?case by (auto split: option.splits)
  next
    case (Cons q packets)
    obtain src p where q: "q = (src, p)" by fastforce
    have "take 12 (drop 8 (take 1024 p)) = take 12 (drop 8 p)"
      by (simp add: drop_take min_def)
    with Cons show ?case by (fastforce simp: q Let_def split: if_splits)
  qed
qed

lemma stun_query_witness:
  "query_loop (SocketAddr (V4 9) 3478) [1, 2, 3, 4, 5, 6, 7, 8, 9, 10, 11, 12]
     [(SocketAddr (V4 8) 53, [0]), (SocketAddr (V4 9) 3478, stun_response [1, 2, 3, 4, 5, 6, 7, 8, 9, 10, 11, 12]
        [(ATTR_XOR_MAPPED_ADDRESS, xor_value [1, 2, 3, 4, 5, 6, 7, 8, 9, 10, 11, 12] (SocketAddr (V4 0x08080808) 4433))])] None
   = Some (Inr (SocketAddr (V4 0x08080808) 4433))"
proof -
  let ?tx = "[1, 2, 3, 4, 5, 6, 7, 8, 9, 10, 11, 12] :: bytes"
  let ?attrs = "[(ATTR_XOR_MAPPED_ADDRESS, xor_value ?tx (SocketAddr (V4 0x08080808) 4433))]"
  have "length (stun_response ?tx ?attrs) \<le> 1024"
    by (simp add: stun_response_def stun_body_def length_attribute xor_value_def)
  with stun_query [of ?tx "[(SocketAddr (V4 8) 53, [0])]" "SocketAddr (V4 9) 3478" ?attrs "[]"
      "SocketAddr (V4 0x08080808) 4433" "[]" "[]" None]
  show ?thesis by simp
qed

end
