(* ===== verification/Traversal.thy ===== *)
theory Traversal
  imports Endpoint Rendezvous_Client Stun
begin

text \<open>
  \<open>p2p-core/src/traversal/mod.rs\<close> and \<open>punch.rs\<close>: from a shared code to a QUIC connection. The
  sockets, name resolution and the arrival times of packets and handshakes are parameters; the
  message of the STUN query, the registration, the relay's hello and the endpoint are those of the
  theories imported. Times are in seconds from the start of the race.
\<close>

section \<open>Pairing codes\<close>

definition ALPHABET :: string where
  "ALPHABET = ''ABCDEFGHJKMNPQRSTVWXYZ23456789''"

text \<open>The random generator gives six positions below the length of the alphabet.\<close>

definition generate_code :: "nat list \<Rightarrow> string" where
  "generate_code rng = map (\<lambda>i. ALPHABET ! (rng ! i)) [0..<6]"

section \<open>The race\<close>

definition PUNCH_TIMEOUT :: rat where "PUNCH_TIMEOUT = 30"
definition SECONDARY_CONNECT_DELAY :: rat where "SECONDARY_CONNECT_DELAY = 50 / 1000"

definition peer_matches :: "socket_addr \<Rightarrow> socket_addr \<Rightarrow> bool" where
  "peer_matches observed expected \<longleftrightarrow> observed = expected"

text \<open>
  What the \<open>accept\<close> side of the race ends with and when; it goes on for ever when no connection of
  the peer comes in and none fails.
\<close>

fun accept_from ::
  "identity_libs \<Rightarrow> socket_addr \<Rightarrow> (rat \<times> incoming) list \<Rightarrow> (rat \<times> connection result) option" where
  "accept_from l expected [] = None"
| "accept_from l expected ((t, inc) # rest) =
     (case endpoint_accept l inc of
        Inl e \<Rightarrow> Some (t, Inl e)
      | Inr conn \<Rightarrow>
          if peer_matches (cn_peer_addr conn) expected then Some (t, Inr conn)
          else accept_from l expected rest)"

text \<open>
  How long a handshake with an address takes and how it ends, if it ever does; the connections that
  come in, in order; and which branch \<open>select!\<close> takes when both are ready.
\<close>

record punch_net =
  pn_dial :: "socket_addr \<Rightarrow> (rat \<times> dial) option"
  pn_incoming :: "(rat \<times> incoming) list"
  pn_prefers_connect :: bool

definition select2 :: "bool \<Rightarrow> (rat \<times> 'a) option \<Rightarrow> (rat \<times> 'a) option \<Rightarrow> (rat \<times> 'a) option" where
  "select2 prefer a b =
     (case (a, b) of
        (Some (t, x), Some (u, y)) \<Rightarrow> if t < u \<or> t = u \<and> prefer then Some (t, x) else Some (u, y)
      | (Some p, None) \<Rightarrow> Some p
      | (None, q) \<Rightarrow> q)"

definition connect_branch ::
  "identity_libs \<Rightarrow> punch_net \<Rightarrow> socket_addr \<Rightarrow> fingerprint \<Rightarrow> bool \<Rightarrow> (rat \<times> connection result) option" where
  "connect_branch l nt peer_addr peer_fp we_go_first =
     map_option (\<lambda>(d, dialled). ((if we_go_first then 0 else SECONDARY_CONNECT_DELAY) + d,
                                  endpoint_connect l dialled peer_fp)) (pn_dial nt peer_addr)"

definition race_connect_and_accept ::
  "identity_libs \<Rightarrow> (socket_addr \<Rightarrow> string) \<Rightarrow> punch_net \<Rightarrow> socket_addr \<Rightarrow> fingerprint \<Rightarrow> uuid \<Rightarrow> uuid \<Rightarrow>
     connection result" where
  "race_connect_and_accept l show_addr nt peer_addr peer_fp our_device_id peer_device_id =
     (let we_go_first = our_device_id < peer_device_id;
          timed_out = Inl (HolePunchFailed (''no QUIC handshake completed with '' @ show_addr peer_addr @
            '' within 30s (peer down, strict firewall, or symmetric NAT)''))
      in case select2 (pn_prefers_connect nt) (connect_branch l nt peer_addr peer_fp we_go_first)
                (accept_from l peer_addr (pn_incoming nt)) of
           None \<Rightarrow> timed_out
         | Some (t, outcome) \<Rightarrow> if t \<le> PUNCH_TIMEOUT then outcome else timed_out)"

section \<open>Establishing a session\<close>

record rendezvous_params =
  rv_rendezvous :: socket_addr
  rv_code :: string
  rv_identity :: identity
  rv_device_id :: uuid
  rv_stun_servers :: "string \<times> string"
  rv_force_relay :: bool

record established_session =
  es_endpoint :: socket_addr
  es_connection :: connection
  es_peer_endpoint :: socket_addr
  es_peer_fingerprint :: fingerprint
  es_peer_device_id :: uuid

record traversal_env =
  tv_libs :: identity_libs
  tv_show_addr :: "socket_addr \<Rightarrow> string"
  tv_bind :: "io_error option"
  tv_local_addr :: "io_error + socket_addr"
  tv_lookup :: "string \<Rightarrow> io_error + socket_addr list"
  tv_query :: "socket_addr \<Rightarrow> (bytes \<Rightarrow> io_error option) \<times> bytes \<times> (socket_addr \<times> bytes) list \<times> io_error option"
  tv_rmp :: rz_rmp
  tv_tcp :: "io_error + tcp"
  tv_hello :: "nat \<Rightarrow> io_error option"
  tv_into_std :: "io_error option"
  tv_binding :: binding
  tv_punch :: punch_net

definition is_loopback :: "ip_addr \<Rightarrow> bool" where
  "is_loopback ip = (case ip of V4 a \<Rightarrow> drop_bit 24 a = 127 | V6 a \<Rightarrow> a = 1)"

definition resolve_first :: "traversal_env \<Rightarrow> string \<Rightarrow> socket_addr result" where
  "resolve_first env host_port =
     (case tv_lookup env host_port of
        Inl e \<Rightarrow> Inl (Network e)
      | Inr [] \<Rightarrow> Inl (RendezvousError (''could not resolve STUN server '' @ [CHR 0x27] @ host_port @ [CHR 0x27]))
      | Inr (a # _) \<Rightarrow> Inr a)"

definition run_query :: "traversal_env \<Rightarrow> socket_addr \<Rightarrow> socket_addr result option" where
  "run_query env server =
     (case tv_query env server of (send, tx, packets, lost) \<Rightarrow> query send server tx packets lost)"

definition local_endpoint :: "traversal_env \<Rightarrow> socket_addr result" where
  "local_endpoint env = map_sum Network id (tv_local_addr env)"

text \<open>The endpoint to announce and whether to ask for the relay; \<open>None\<close> is a panic of the STUN parser.\<close>

definition public_endpoint :: "traversal_env \<Rightarrow> rendezvous_params \<Rightarrow> (socket_addr \<times> bool) result option" where
  "public_endpoint env ps =
     (if is_loopback (sa_ip (rv_rendezvous ps))
      then Some (rbind (local_endpoint env) (\<lambda>local. Inr (local, rv_force_relay ps)))
      else
        case resolve_first env (fst (rv_stun_servers ps)) of
          Inl e \<Rightarrow> Some (Inl e)
        | Inr stun_a \<Rightarrow>
            (case resolve_first env (snd (rv_stun_servers ps)) of
               Inl e \<Rightarrow> Some (Inl e)
             | Inr stun_b \<Rightarrow> do {
                 map_a \<leftarrow> run_query env stun_a;
                 map_b \<leftarrow> run_query env stun_b;
                 Some (rbind (classify_nat map_a map_b) (\<lambda>class.
                   case class of
                     Cone public \<Rightarrow> Inr (public, rv_force_relay ps)
                   | Symmetric \<Rightarrow> rbind (local_endpoint env) (\<lambda>local. Inr (local, True)))) }))"

definition request_of :: "rendezvous_params \<Rightarrow> socket_addr \<Rightarrow> bool \<Rightarrow> register_request" where
  "request_of ps public want_relay =
     \<lparr> rq_protocol_version = RZ_PROTOCOL_VERSION, rq_code = rv_code ps, rq_public_endpoint = public,
       rq_cert_fingerprint = id_fingerprint (rv_identity ps),
       rq_device_id = uuid_word (rv_device_id ps), rq_want_relay = want_relay \<rparr>"

definition punch ::
  "traversal_env \<Rightarrow> socket_addr \<Rightarrow> socket_addr \<Rightarrow> fingerprint \<Rightarrow> uuid \<Rightarrow> uuid \<Rightarrow> established_session result" where
  "punch env local_addr peer_addr peer_fp device_id peer_id =
     (case tv_into_std env of
        Some e \<Rightarrow> Inl (Network e)
      | None \<Rightarrow>
          rbind (endpoint_from_socket (tv_binding env) local_addr) (\<lambda>endpoint.
          rbind (race_connect_and_accept (tv_libs env) (tv_show_addr env) (tv_punch env) peer_addr peer_fp device_id peer_id)
            (\<lambda>connection. Inr \<lparr> es_endpoint = endpoint, es_connection = connection,
               es_peer_endpoint = peer_addr, es_peer_fingerprint = peer_fp, es_peer_device_id = peer_id \<rparr>)))"

fun send_hellos ::
  "traversal_env \<Rightarrow> socket_addr \<Rightarrow> bytes \<Rightarrow> nat list \<Rightarrow> ((socket_addr \<times> bytes) list, error, unit) proc" where
  "send_hellos env relay hello [] = ret ()"
| "send_hellos env relay hello (i # is) = (\<lambda>sent.
     case tv_hello env i of
       Some e \<Rightarrow> (Inl (Network e), sent)
     | None \<Rightarrow> send_hellos env relay hello is (sent @ [(relay, hello)]))"

definition establish_via_relay ::
  "traversal_env \<Rightarrow> socket_addr \<Rightarrow> relay_info \<Rightarrow> fingerprint \<Rightarrow> uuid \<Rightarrow>
     ((socket_addr \<times> bytes) list, error, established_session) proc" where
  "establish_via_relay env local_addr relay our_fp device_id =
     (let hello = encode_hello \<lparr> rh_token = ri_session_token relay, rh_fingerprint = our_fp \<rparr> in
      andthen (send_hellos env (ri_relay_endpoint relay) hello [0..<3]) (\<lambda>_ sent.
        (punch env local_addr (ri_relay_endpoint relay) (ri_peer_fingerprint relay) device_id
           (Uuid (ri_peer_device_id relay)), sent)))"

text \<open>The result and the datagrams sent to the relay.\<close>

definition establish_via_rendezvous ::
  "traversal_env \<Rightarrow> rendezvous_params \<Rightarrow> established_session result option \<times> (socket_addr \<times> bytes) list" where
  "establish_via_rendezvous env ps =
     (case tv_bind env of
        Some e \<Rightarrow> (Some (Inl (Network e)), [])
      | None \<Rightarrow>
          (case local_endpoint env of
             Inl e \<Rightarrow> (Some (Inl e), [])
           | Inr local_addr \<Rightarrow>
               (case public_endpoint env ps of
                  None \<Rightarrow> (None, [])
                | Some (Inl e) \<Rightarrow> (Some (Inl e), [])
                | Some (Inr (public, want_relay)) \<Rightarrow>
                    (case register_full (tv_rmp env) (tv_tcp env) (request_of ps public want_relay) of
                       Inl e \<Rightarrow> (Some (Inl (RendezvousError (client_display e))), [])
                     | Inr (Direct peer) \<Rightarrow>
                         (Some (punch env local_addr (pi_endpoint peer) (pi_fingerprint peer) (rv_device_id ps)
                                  (Uuid (pi_device_id peer))), [])
                     | Inr (Relay relay) \<Rightarrow>
                         (case establish_via_relay env local_addr relay (id_fingerprint (rv_identity ps))
                                 (rv_device_id ps) [] of
                            (res, sent) \<Rightarrow> (Some res, sent))))))"

section \<open>Codes\<close>

lemma ALPHABET_valid: "list_all ascii_alphanumeric ALPHABET" "length ALPHABET = 30"
  by (simp_all add: ALPHABET_def ascii_alphanumeric_def Let_def of_char_def)

text \<open>
  Every code the generator can produce is one the server admits: a client
  that registers with it passes all checks before the pairing.
\<close>

lemma generated_code_admitted:
  assumes "length rng = 6" "\<forall>i \<in> set rng. i < length ALPHABET"
  shows "is_valid_code (generate_code rng) \<and> length (generate_code rng) = 6 \<and>
    (rv_code ps = generate_code rng \<longrightarrow>
       admit (Frame (Register (request_of ps public want_relay))) = Inr (request_of ps public want_relay))"
proof -
  have "ascii_alphanumeric (ALPHABET ! (rng ! i))" if "i < 6" for i
    using ALPHABET_valid(1) assms that by (simp add: list_all_length)
  then have "is_valid_code (generate_code rng)"
    by (auto simp: is_valid_code_def generate_code_def list_all_iff)
  then show ?thesis by (simp add: generate_code_def admit_def request_of_def)
qed

lemma generated_code_admitted_witness: "is_valid_code (generate_code [29, 0, 3, 4, 5, 6])"
  using generated_code_admitted [of "[29, 0, 3, 4, 5, 6]"] by (simp add: ALPHABET_valid)

section \<open>Who is at the other end\<close>

lemma accept_from_Some:
  "accept_from l expected incs = Some (t, Inr c) \<Longrightarrow>
     cn_peer_addr c = expected \<and> (\<exists>inc. (t, inc) \<in> set incs \<and> endpoint_accept l inc = Inr c)"
  by (induction l expected incs rule: accept_from.induct)
     (auto simp: peer_matches_def split: sum.splits if_splits)

lemma select2_cases: "select2 p a b = Some (t, x) \<Longrightarrow> a = Some (t, x) \<or> b = Some (t, x)"
  by (auto simp: select2_def split: option.splits prod.splits if_splits)

text \<open>A connection of the race was dialled to the pinned certificate or came in from the expected address.\<close>

lemma race_outcome:
  assumes "race_connect_and_accept l show_addr nt addr fp a b = Inr c"
  shows "cn_peer_fingerprint c = Some fp \<or>
    cn_peer_addr c = addr \<and> (\<exists>t inc. (t, inc) \<in> set (pn_incoming nt) \<and> endpoint_accept l inc = Inr c)"
proof -
  obtain t where "select2 (pn_prefers_connect nt) (connect_branch l nt addr fp (a < b))
      (accept_from l addr (pn_incoming nt)) = Some (t, Inr c)"
    using assms by (auto simp: race_connect_and_accept_def Let_def split: option.splits prod.splits if_splits)
  then consider "connect_branch l nt addr fp (a < b) = Some (t, Inr c)"
    | "accept_from l addr (pn_incoming nt) = Some (t, Inr c)"
    using select2_cases by fastforce
  then show ?thesis
  proof cases
    case 1
    then show ?thesis by (auto simp: connect_branch_def dest: endpoint_connect_pinned)
  next
    case 2
    then show ?thesis using accept_from_Some by blast
  qed
qed

lemma punch_Inr:
  assumes "punch env local_addr addr fp dev peer = Inr est"
  shows "es_peer_endpoint est = addr \<and> es_peer_fingerprint est = fp \<and> es_peer_device_id est = peer \<and>
    (cn_peer_fingerprint (es_connection est) = Some fp \<or> cn_peer_addr (es_connection est) = addr)"
  using assms by (auto simp: punch_def split: option.splits dest!: race_outcome)

lemma send_hellos_Inr:
  "send_hellos env relay hello is sent = (Inr u, sent') \<Longrightarrow> sent' = sent @ replicate (length is) (relay, hello)"
  by (induction "is" arbitrary: sent) (fastforce split: option.splits)+

text \<open>
  C38: a session that was established is the one the rendezvous server named: its
  request carried the caller's code, certificate fingerprint and device, the peer's address,
  fingerprint and device are those of the server's answer, and the connection was either dialled
  to exactly this certificate or came in from exactly this address. Through the relay, three
  datagrams went out before, each of which the relay decodes as this client's hello for the session.
\<close>

theorem establish_named_peer:
  assumes "establish_via_rendezvous env ps = (Some (Inr est), sent)"
  shows "\<exists>public want out. public_endpoint env ps = Some (Inr (public, want)) \<and>
    register_full (tv_rmp env) (tv_tcp env) (request_of ps public want) = Inr out \<and>
    (case out of
       Direct p \<Rightarrow> es_peer_endpoint est = pi_endpoint p \<and> es_peer_fingerprint est = pi_fingerprint p \<and>
         es_peer_device_id est = Uuid (pi_device_id p) \<and> sent = []
     | Relay r \<Rightarrow> es_peer_endpoint est = ri_relay_endpoint r \<and> es_peer_fingerprint est = ri_peer_fingerprint r \<and>
         es_peer_device_id est = Uuid (ri_peer_device_id r) \<and>
         (\<exists>hello. sent = replicate 3 (ri_relay_endpoint r, hello) \<and>
            try_decode hello = Some \<lparr> rh_token = ri_session_token r, rh_fingerprint = id_fingerprint (rv_identity ps) \<rparr>)) \<and>
    (cn_peer_fingerprint (es_connection est) = Some (es_peer_fingerprint est) \<or>
     cn_peer_addr (es_connection est) = es_peer_endpoint est)"
proof -
  obtain local_addr public want out where s:
      "public_endpoint env ps = Some (Inr (public, want))"
      "register_full (tv_rmp env) (tv_tcp env) (request_of ps public want) = Inr out"
      "case out of
         Direct p \<Rightarrow> punch env local_addr (pi_endpoint p) (pi_fingerprint p) (rv_device_id ps) (Uuid (pi_device_id p)) = Inr est \<and> sent = []
       | Relay r \<Rightarrow> establish_via_relay env local_addr r (id_fingerprint (rv_identity ps)) (rv_device_id ps) [] = (Inr est, sent)"
    using assms by (auto simp: establish_via_rendezvous_def split: option.splits sum.splits match_outcome.splits prod.splits)
  have "(case out of
       Direct p \<Rightarrow> es_peer_endpoint est = pi_endpoint p \<and> es_peer_fingerprint est = pi_fingerprint p \<and>
         es_peer_device_id est = Uuid (pi_device_id p) \<and> sent = []
     | Relay r \<Rightarrow> es_peer_endpoint est = ri_relay_endpoint r \<and> es_peer_fingerprint est = ri_peer_fingerprint r \<and>
         es_peer_device_id est = Uuid (ri_peer_device_id r) \<and>
         (\<exists>hello. sent = replicate 3 (ri_relay_endpoint r, hello) \<and>
            try_decode hello = Some \<lparr> rh_token = ri_session_token r, rh_fingerprint = id_fingerprint (rv_identity ps) \<rparr>)) \<and>
    (cn_peer_fingerprint (es_connection est) = Some (es_peer_fingerprint est) \<or>
     cn_peer_addr (es_connection est) = es_peer_endpoint est)"
  proof (cases out)
    case (Direct p)
    with s(3) show ?thesis by (auto dest!: punch_Inr)
  next
    case (Relay r)
    with s(3) show ?thesis
      by (auto simp: establish_via_relay_def Let_def andthen_eq_Inr hello.dec_enc dest!: punch_Inr send_hellos_Inr)
  qed
  with s(1,2) show ?thesis by blast
qed

definition demo_quinn :: "nat \<Rightarrow> socket_addr \<Rightarrow> bytes \<Rightarrow> quinn_conn" where
  "demo_quinn n addr inp = \<lparr> qc_remote = addr, qc_certs = Some [replicate n 0],
     qc_control = Inr (\<lparr> wr_out = [], wr_fail = None \<rparr>, \<lparr> rd_bytes = inp, rd_end = None \<rparr>) \<rparr>"

definition demo_connection :: "nat \<Rightarrow> socket_addr \<Rightarrow> bytes \<Rightarrow> bytes \<Rightarrow> connection" where
  "demo_connection n addr out inp = \<lparr> cn_send = \<lparr> wr_out = out, wr_fail = None \<rparr>,
     cn_recv = \<lparr> rd_bytes = inp, rd_end = None \<rparr>, cn_peer_addr = addr, cn_peer_fingerprint = Some (word_of_nat n) \<rparr>"

lemma demo_dialled:
  "endpoint_connect demo_identity_libs (Established (demo_quinn n addr inp)) (word_of_nat n) =
     Inr (demo_connection n addr PROTOCOL_MAGIC inp)"
  by (simp add: endpoint_connect_def demo_quinn_def verify_server_cert_def fingerprint_of_def demo_identity_libs_def
      control_initiator_def of_quinn_def open_control_initiator_def on_send_def map_err_apply write_all_def
      peer_fingerprint_def demo_connection_def Let_def)

lemma demo_accepted:
  "endpoint_accept demo_identity_libs (Inbound (demo_quinn n addr (PROTOCOL_MAGIC @ inp))) = Inr (demo_connection n addr [] inp)"
  by (simp add: endpoint_accept_def demo_quinn_def verify_client_cert_def fingerprint_of_def demo_identity_libs_def
      control_responder_def of_quinn_def open_control_responder_def on_recv_def andthen_apply map_err_apply
      read_exact_def peer_fingerprint_def demo_connection_def Let_def PROTOCOL_MAGIC_def)

definition demo_params :: rendezvous_params where
  "demo_params = \<lparr> rv_rendezvous = SocketAddr (V4 0x7F000001) 7, rv_code = ''ABCD'',
     rv_identity = \<lparr> id_cert_der = [0, 0, 0], id_key_der = [], id_fingerprint = 3 \<rparr>, rv_device_id = Uuid 4,
     rv_stun_servers = ([], []), rv_force_relay = False \<rparr>"

definition demo_binding :: binding where
  "demo_binding = \<lparr> bi_socket = Inr, bi_nonblocking = None, bi_server_config = None, bi_quic_config = None, bi_endpoint = None \<rparr>"

definition demo_traversal :: "punch_net \<Rightarrow> traversal_env" where
  "demo_traversal pn = \<lparr> tv_libs = demo_identity_libs, tv_show_addr = (\<lambda>a. []), tv_bind = None,
     tv_local_addr = Inr (SocketAddr (V4 1) 2), tv_lookup = (\<lambda>h. Inr []),
     tv_query = (\<lambda>s. (\<lambda>b. None, [], [], None)), tv_rmp = demo_rz,
     tv_tcp = Inr \<lparr> tc_send = \<lparr> wr_out = [], wr_fail = None \<rparr>, tc_recv = \<lparr> rd_bytes = rz_frame_of [1], rd_end = None \<rparr>, tc_late = False \<rparr>,
     tv_hello = (\<lambda>i. None), tv_into_std = None, tv_binding = demo_binding, tv_punch = pn \<rparr>"

text \<open>The server names the address, the fingerprint 8 and the device 7; the race decides the rest.\<close>

lemma demo_established:
  assumes "race_connect_and_accept demo_identity_libs (\<lambda>a. []) pn (SocketAddr (V4 9) 9) 8 (Uuid 4) (Uuid 7) = Inr c"
  shows "establish_via_rendezvous (demo_traversal pn) demo_params =
     (Some (Inr \<lparr> es_endpoint = SocketAddr (V4 1) 2, es_connection = c,
        es_peer_endpoint = SocketAddr (V4 9) 9, es_peer_fingerprint = 8, es_peer_device_id = Uuid 7 \<rparr>), [])"
proof -
  have req: "request_of demo_params (SocketAddr (V4 1) 2) False = demo_request"
    by (simp add: request_of_def demo_params_def demo_request_def RZ_PROTOCOL_VERSION_def)
  have fit: "rz_fits [0]" "rz_fits [1]" by (simp_all add: rz_fits_def MAX_FRAME_BYTES_def)
  have v: "rz_to_vec demo_rz (Register demo_request) = Inr [0]"
      "rz_to_vec demo_rz (Match (SocketAddr (V4 9) 9) 8 7) = Inr [1]"
    by (simp_all add: demo_rz_def)
  have reg: "register_full demo_rz (tv_tcp (demo_traversal pn)) demo_request =
      Inr (Direct \<lparr> pi_endpoint = SocketAddr (V4 9) 9, pi_fingerprint = 8, pi_device_id = 7 \<rparr>)"
    using rz_write_fits [OF v(1) fit(1), of "[]"] rz_read_written [OF demo_rz_ok v(2) fit(2), of "[]" None]
    by (simp add: register_full_def register_on_def demo_traversal_def)
  have pub: "public_endpoint (demo_traversal pn) demo_params = Some (Inr (SocketAddr (V4 1) 2, False))"
    by (simp add: public_endpoint_def is_loopback_def local_endpoint_def demo_params_def demo_traversal_def)
  have "punch (demo_traversal pn) (SocketAddr (V4 1) 2) (SocketAddr (V4 9) 9) 8 (Uuid 4) (Uuid 7) =
      Inr \<lparr> es_endpoint = SocketAddr (V4 1) 2, es_connection = c,
        es_peer_endpoint = SocketAddr (V4 9) 9, es_peer_fingerprint = 8, es_peer_device_id = Uuid 7 \<rparr>"
    using assms by (simp add: punch_def endpoint_from_socket_def demo_traversal_def demo_binding_def)
  moreover have "rv_device_id demo_params = Uuid 4" by (simp add: demo_params_def)
  ultimately show ?thesis
    using reg pub req
    by (simp add: establish_via_rendezvous_def) (simp add: demo_traversal_def local_endpoint_def)
qed

definition demo_dialling :: "bytes \<Rightarrow> punch_net" where
  "demo_dialling inp = \<lparr> pn_dial = (\<lambda>a. Some (1, Established (demo_quinn 8 a inp))), pn_incoming = [], pn_prefers_connect = True \<rparr>"

lemma demo_race:
  "race_connect_and_accept demo_identity_libs (\<lambda>a. []) (demo_dialling inp) (SocketAddr (V4 9) 9) 8 (Uuid 4) (Uuid 7) =
      Inr (demo_connection 8 (SocketAddr (V4 9) 9) PROTOCOL_MAGIC inp)"
  using demo_dialled [of 8 "SocketAddr (V4 9) 9" inp]
  by (simp add: race_connect_and_accept_def connect_branch_def select2_def demo_dialling_def less_uuid_def PUNCH_TIMEOUT_def)

theorem establish_named_peer_witness:
  "\<exists>est. establish_via_rendezvous (demo_traversal (demo_dialling [])) demo_params = (Some (Inr est), []) \<and>
     (cn_peer_fingerprint (es_connection est) = Some (es_peer_fingerprint est) \<or>
      cn_peer_addr (es_connection est) = es_peer_endpoint est)"
  using establish_named_peer [OF demo_established [OF demo_race]] demo_established [OF demo_race] by auto

section \<open>Weak points of the race\<close>

text \<open>
  A connection that comes in from elsewhere is dropped, but a handshake of a stranger that fails,
  such as one without the priming magic, ends the race with an error although the peer would have
  connected later.
\<close>

lemma stranger_aborts_race:
  assumes "pn_incoming nt = [(1, InboundFails e)]" "pn_dial nt addr = Some (2, dialled)"
  shows "race_connect_and_accept l show_addr nt addr fp a b = Inl (Quic (''inbound handshake: '' @ e))"
  using assms
  by (cases "a < b") (simp_all add: race_connect_and_accept_def connect_branch_def endpoint_accept_def select2_def
      SECONDARY_CONNECT_DELAY_def PUNCH_TIMEOUT_def)

text \<open>
  Each end decides alone which connection it keeps. A dialled connection is there after one round
  trip \<open>r\<close>, at the other end half a round trip later; when \<open>r\<close> exceeds 100 milliseconds both ends
  keep the connection they dialled themselves and drop the one of the other.
\<close>

lemma race_split:
  assumes r: "100 / 1000 < r" "r \<le> 10" and ids: "a < b"
    and na: "pn_dial na addr_b = Some (r, db)" "pn_incoming na = [(SECONDARY_CONNECT_DELAY + 3 / 2 * r, ib)]"
    and nb: "pn_dial nb addr_a = Some (r, da)" "pn_incoming nb = [(3 / 2 * r, ia)]"
  shows "race_connect_and_accept l show_addr na addr_b fp_b a b = endpoint_connect l db fp_b \<and>
         race_connect_and_accept l show_addr nb addr_a fp_a b a = endpoint_connect l da fp_a"
proof -
  have acc: "accept_from l addr [(t, inc)] \<in> {None} \<union> {Some (t, x) | x. True}" for addr t inc
    by (auto split: sum.splits)
  have sel: "select2 p (Some (t, x)) q = Some (t, x)"
    if "q \<in> {None} \<union> {Some (u, y) | y. True}" "t < u" for p t u and x :: "connection result" and q
    using that by (auto simp: select2_def)
  have "\<not> b < a" using ids by simp
  moreover have "r < SECONDARY_CONNECT_DELAY + 3 / 2 * r" "SECONDARY_CONNECT_DELAY + r < 3 / 2 * r"
      "SECONDARY_CONNECT_DELAY + r \<le> PUNCH_TIMEOUT" "r \<le> PUNCH_TIMEOUT"
    using r by (simp_all add: SECONDARY_CONNECT_DELAY_def PUNCH_TIMEOUT_def)
  ultimately show ?thesis
    using ids na nb
      sel [OF acc [of addr_b "SECONDARY_CONNECT_DELAY + 3 / 2 * r" ib], of r "pn_prefers_connect na" "endpoint_connect l db fp_b"]
      sel [OF acc [of addr_a "3 / 2 * r" ia], of "SECONDARY_CONNECT_DELAY + r" "pn_prefers_connect nb" "endpoint_connect l da fp_a"]
    by (simp add: race_connect_and_accept_def connect_branch_def)
qed

end
