(* ===== verification/Reconnect_Policy.thy ===== *)
theory Reconnect_Policy
  imports P2P_Error
begin

text \<open>
  \<open>p2p-core/src/reconnect.rs\<close>: the backoff delays (64-bit, wrapping as the release profile does),
  the retry decision and the retry loop. The operation is a parameter over a world state; the loop
  may be unlimited, so it runs on fuel and records the delays it slept.
\<close>

record reconnect_config =
  rc_max_attempts :: u32
  rc_initial_backoff_secs :: u64
  rc_max_backoff_secs :: u64
  rc_exponential :: bool

definition reconnect_default :: reconnect_config where
  "reconnect_default = \<lparr> rc_max_attempts = 5, rc_initial_backoff_secs = 3,
     rc_max_backoff_secs = 180, rc_exponential = True \<rparr>"

definition unlimited :: reconnect_config where
  "unlimited = reconnect_default\<lparr> rc_max_attempts := 0 \<rparr>"

definition with_max_attempts :: "u32 \<Rightarrow> reconnect_config" where
  "with_max_attempts n = reconnect_default\<lparr> rc_max_attempts := n \<rparr>"

definition backoff_delay :: "reconnect_config \<Rightarrow> u32 \<Rightarrow> u64" where
  "backoff_delay cfg attempt =
     (if rc_exponential cfg
      then min (rc_initial_backoff_secs cfg * 2 ^ unat attempt) (rc_max_backoff_secs cfg)
      else rc_initial_backoff_secs cfg)"

definition should_retry :: "reconnect_config \<Rightarrow> u32 \<Rightarrow> bool" where
  "should_retry cfg attempt \<longleftrightarrow>
     rc_max_attempts cfg = 0 \<or> attempt + 1 < rc_max_attempts cfg"

fun retry_loop ::
  "nat \<Rightarrow> ('w \<Rightarrow> ('e + 'a) \<times> 'w) \<Rightarrow> reconnect_config \<Rightarrow> u32 \<Rightarrow> u64 list \<Rightarrow> 'w \<Rightarrow>
     (('e + 'a) \<times> u64 list \<times> 'w) option" where
  "retry_loop 0 operation cfg attempt slept w = None"
| "retry_loop (Suc fuel) operation cfg attempt slept w =
     (case operation w of
        (Inr result, w') \<Rightarrow> Some (Inr result, slept, w')
      | (Inl e, w') \<Rightarrow>
          if \<not> should_retry cfg attempt then Some (Inl e, slept, w')
          else retry_loop fuel operation cfg (attempt + 1) (slept @ [backoff_delay cfg attempt]) w')"

definition retry_with_backoff ::
  "nat \<Rightarrow> ('w \<Rightarrow> ('e + 'a) \<times> 'w) \<Rightarrow> reconnect_config \<Rightarrow> 'w \<Rightarrow> (('e + 'a) \<times> u64 list \<times> 'w) option" where
  "retry_with_backoff fuel operation cfg w = retry_loop fuel operation cfg 0 [] w"

section \<open>The loop\<close>

text \<open>The world after \<open>n\<close> runs of the operation, and the outcome of run number \<open>n\<close>.\<close>

definition runs :: "('w \<Rightarrow> ('e + 'a) \<times> 'w) \<Rightarrow> nat \<Rightarrow> 'w \<Rightarrow> 'w" where
  "runs operation n w = ((snd \<circ> operation) ^^ n) w"

definition outcome :: "('w \<Rightarrow> ('e + 'a) \<times> 'w) \<Rightarrow> 'w \<Rightarrow> nat \<Rightarrow> 'e + 'a" where
  "outcome operation w n = fst (operation (runs operation n w))"

lemma runs_Suc: "runs operation (Suc n) w = runs operation n (snd (operation w))"
  by (simp add: runs_def funpow_swap1)

lemma outcome_Suc: "outcome operation w (Suc n) = outcome operation (snd (operation w)) n"
  by (simp add: outcome_def runs_Suc)

lemma runs_0 [simp]: "runs operation 0 w = w"
  by (simp add: runs_def)

definition is_Inr :: "'e + 'a \<Rightarrow> bool" where
  "is_Inr r = (case r of Inl _ \<Rightarrow> False | Inr _ \<Rightarrow> True)"

lemma is_Inr_simps [simp]: "is_Inr (Inr x)" "\<not> is_Inr (Inl e)"
  by (simp_all add: is_Inr_def)

lemma retry_loop_stops:
  assumes "\<forall>i < j. \<not> is_Inr (outcome operation w i) \<and> should_retry cfg (a + word_of_nat i)"
    and "is_Inr (outcome operation w j) \<or> \<not> should_retry cfg (a + word_of_nat j)"
  shows "retry_loop (Suc j + k) operation cfg a slept w =
     Some (outcome operation w j,
           slept @ map (\<lambda>i. backoff_delay cfg (a + word_of_nat i)) [0..<j],
           runs operation (Suc j) w)"
  using assms
proof (induction j arbitrary: a slept w)
  case 0
  then show ?case
    by (cases "operation w") (auto simp: outcome_def runs_Suc split: sum.splits)
next
  case (Suc j)
  have "\<not> is_Inr (outcome operation w 0)" using Suc.prems(1) by blast
  then have "\<not> is_Inr (fst (operation w))" by (simp add: outcome_def)
  then obtain e w' where one: "operation w = (Inl e, w')"
    by (cases "operation w"; cases "fst (operation w)") auto
  have more: "should_retry cfg a" using Suc.prems(1) by (auto dest!: spec [of _ 0])
  have "\<forall>i < j. \<not> is_Inr (outcome operation w' i) \<and> should_retry cfg (a + 1 + word_of_nat i)"
  proof (intro allI impI)
    fix i assume "i < j"
    with Suc.prems(1) have "\<not> is_Inr (outcome operation w (Suc i)) \<and> should_retry cfg (a + word_of_nat (Suc i))"
      by blast
    then show "\<not> is_Inr (outcome operation w' i) \<and> should_retry cfg (a + 1 + word_of_nat i)"
      by (simp add: outcome_Suc one algebra_simps)
  qed
  moreover have "is_Inr (outcome operation w' j) \<or> \<not> should_retry cfg (a + 1 + word_of_nat j)"
    using Suc.prems(2) by (simp add: outcome_Suc one algebra_simps)
  ultimately have "retry_loop (Suc j + k) operation cfg (a + 1) (slept @ [backoff_delay cfg a]) w' =
     Some (outcome operation w' j,
           (slept @ [backoff_delay cfg a]) @ map (\<lambda>i. backoff_delay cfg (a + 1 + word_of_nat i)) [0..<j],
           runs operation (Suc j) w')"
    by (rule Suc.IH)
  moreover have "map (\<lambda>i. backoff_delay cfg (a + word_of_nat i)) [0..<Suc j] =
      backoff_delay cfg a # map (\<lambda>i. backoff_delay cfg (a + 1 + word_of_nat i)) [0..<j]"
    by (simp add: map_upt_Suc algebra_simps del: upt_Suc)
  ultimately show ?case
    using one more by (simp add: outcome_Suc runs_Suc [of _ "Suc j"])
qed

lemma should_retry_nat:
  assumes "Suc i < 2 ^ 32"
  shows "should_retry cfg (word_of_nat i) \<longleftrightarrow>
     rc_max_attempts cfg = 0 \<or> Suc i < unat (rc_max_attempts cfg)"
proof -
  have "unat (word_of_nat i + 1 :: u32) = Suc i"
    using assms by (simp add: unsigned_of_nat take_bit_nat_eq_self unat_word_ariths)
  then show ?thesis by (simp add: should_retry_def word_less_nat_alt)
qed



text \<open>
  The default delays double from 3 seconds up to the cap of 180 and stay there,
  for 64 attempts; from attempt 64 on the power of two wraps to zero in 64 bits, and an unlimited
  retry loop no longer waits at all.
\<close>

lemma backoff_default:
  "unat (backoff_delay unlimited attempt) =
     (if unat attempt < 64 then min (3 * 2 ^ unat attempt) 180 else 0)"
proof -
  let ?n = "unat attempt"
  have p: "(3 * 2 ^ ?n :: u64) = word_of_nat (3 * 2 ^ ?n)" by simp
  have u: "unat (3 * 2 ^ ?n :: u64) = (3 * 2 ^ ?n) mod 2 ^ 64"
    unfolding p unat_of_nat by simp
  have "unat (min x y) = min (unat x) (unat y)" for x y :: u64
    by (simp add: min_def word_le_nat_alt)
  then have eq: "unat (backoff_delay unlimited attempt) = min ((3 * 2 ^ ?n) mod 2 ^ 64) 180"
    by (simp add: backoff_delay_def unlimited_def reconnect_default_def u del: unat_of_nat)
  consider "?n \<le> 62" | "?n = 63" | "64 \<le> ?n" by linarith
  then show ?thesis
  proof cases
    case 1
    have "(2 :: nat) ^ ?n \<le> 2 ^ 62" using 1 by (intro power_increasing) simp_all
    then show ?thesis using 1 by (simp add: eq)
  next
    case 2
    then show ?thesis by (simp add: eq)
  next
    case 3
    then have "(2 :: nat) ^ 64 dvd 2 ^ ?n" by (rule le_imp_power_dvd)
    then have "(3 * 2 ^ ?n) mod 2 ^ 64 = (0 :: nat)" by (simp add: dvd_mult)
    with 3 show ?thesis by (simp add: eq)
  qed
qed

end
