(* ===== verification/Session.thy ===== *)
theory Session
  imports Folder_Resume Traversal Reconnect_Policy
begin

text \<open>
  \<open>P2PSession\<close> of \<open>p2p-core/src/session.rs\<close>: establishing a session in the three ways the code has,
  sending with resume and reconnection, receiving, and taking a session up again. Network operations are
  numbered, and what the \<open>n\<close>-th of them meets is a parameter, as is the text form of the resume
  record. A session's endpoint is its local address. The definitions are here, what they guarantee
  in Session_Peer and Session_Send.
\<close>

section \<open>Sessions\<close>

record p2p_session =
  pe_endpoint :: socket_addr
  pe_connection :: connection
  pe_identity :: identity
  pe_session_id :: uuid
  pe_device_id :: uuid
  pe_handshake :: handshake_result
  pe_initiator_target :: "(socket_addr \<times> fingerprint) option"

record session_env =
  sn_libs :: identity_libs
  sn_rmp :: rmp
  sn_binding :: "nat \<Rightarrow> binding"
  sn_dial :: "nat \<Rightarrow> socket_addr \<Rightarrow> dial"
  sn_incoming :: "nat \<Rightarrow> incoming"

text \<open>A new session, or the error of the handshake that was to open it.\<close>

definition opened ::
  "socket_addr \<Rightarrow> identity \<Rightarrow> uuid \<Rightarrow> uuid \<Rightarrow> (socket_addr \<times> fingerprint) option \<Rightarrow>
     handshake_result result \<times> connection \<Rightarrow> p2p_session result" where
  "opened endpoint ident device_id session_id target shaken =
     (case shaken of
        (Inl e, c) \<Rightarrow> Inl e
      | (Inr h, c) \<Rightarrow> Inr \<lparr> pe_endpoint = endpoint, pe_connection = c, pe_identity = ident,
          pe_session_id = session_id, pe_device_id = device_id, pe_handshake = h, pe_initiator_target = target \<rparr>)"

definition session_connect ::
  "session_env \<Rightarrow> nat \<Rightarrow> socket_addr \<Rightarrow> fingerprint \<Rightarrow> identity \<Rightarrow> uuid \<Rightarrow> config_message \<Rightarrow> uuid \<Rightarrow> p2p_session result" where
  "session_connect env n peer_addr peer_fp ident device_id cfg session_id =
     rbind (endpoint_bind (sn_binding env n) (unspecified 0)) (\<lambda>endpoint.
     rbind (endpoint_connect (sn_libs env) (sn_dial env n peer_addr) peer_fp) (\<lambda>c.
       opened endpoint ident device_id session_id (Some (peer_addr, peer_fp))
         (client_handshake (sn_rmp env) (handshake_party_new device_id ident) cfg c)))"

definition session_accept ::
  "session_env \<Rightarrow> nat \<Rightarrow> socket_addr \<Rightarrow> identity \<Rightarrow> uuid \<Rightarrow> uuid \<Rightarrow> p2p_session result" where
  "session_accept env n bind_addr ident device_id session_id =
     rbind (endpoint_bind (sn_binding env n) bind_addr) (\<lambda>endpoint.
     rbind (endpoint_accept (sn_libs env) (sn_incoming env n)) (\<lambda>c.
       opened endpoint ident device_id session_id None
         (server_handshake (sn_rmp env) (handshake_party_new device_id ident) c)))"

text \<open>The fingerprint the rendezvous server gave is not used here. \<open>None\<close> is a panic.\<close>

definition rendezvous_handshake ::
  "rmp \<Rightarrow> rendezvous_params \<Rightarrow> config_message \<Rightarrow> established_session \<Rightarrow> handshake_result result \<times> connection" where
  "rendezvous_handshake rc ps cfg est =
     (let self = handshake_party_new (rv_device_id ps) (rv_identity ps);
          we_initiate = rv_device_id ps < es_peer_device_id est
      in if we_initiate then client_handshake rc self cfg (es_connection est)
         else server_handshake rc self (es_connection est))"

definition from_rendezvous ::
  "session_env \<Rightarrow> traversal_env \<Rightarrow> rendezvous_params \<Rightarrow> config_message \<Rightarrow> uuid \<Rightarrow> p2p_session result option" where
  "from_rendezvous env tenv ps cfg session_id =
     map_option (\<lambda>r. rbind r (\<lambda>est.
         opened (es_endpoint est) (rv_identity ps) (rv_device_id ps) session_id None
           (rendezvous_handshake (sn_rmp env) ps cfg est)))
       (fst (establish_via_rendezvous tenv ps))"

section \<open>Taking a session up again\<close>

definition reconnect :: "session_env \<Rightarrow> nat \<Rightarrow> (p2p_session, error, unit) proc" where
  "reconnect env n = (\<lambda>s.
     case pe_initiator_target s of
       None \<Rightarrow> (Inl (Protocol ''Only initiator sessions can reconnect''), s)
     | Some (peer_addr, peer_fp) \<Rightarrow>
         (case endpoint_bind (sn_binding env n) (unspecified 0) of
            Inl e \<Rightarrow> (Inl e, s)
          | Inr endpoint \<Rightarrow>
              (case endpoint_connect (sn_libs env) (sn_dial env n peer_addr) peer_fp of
                 Inl e \<Rightarrow> (Inl e, s)
               | Inr c \<Rightarrow>
                   (case client_handshake (sn_rmp env) (handshake_party_new (pe_device_id s) (pe_identity s))
                           (hr_config (pe_handshake s)) c of
                      (Inl e, c') \<Rightarrow> (Inl e, s)
                    | (Inr h, c') \<Rightarrow>
                        (Inr (), s\<lparr> pe_endpoint := endpoint, pe_connection := c', pe_handshake := h \<rparr>)))))"

definition reaccept :: "session_env \<Rightarrow> nat \<Rightarrow> (p2p_session, error, unit) proc" where
  "reaccept env n = (\<lambda>s.
     if pe_initiator_target s \<noteq> None
     then (Inl (Protocol ''reaccept() is only valid for responder sessions''), s)
     else (case endpoint_accept (sn_libs env) (sn_incoming env n) of
             Inl e \<Rightarrow> (Inl e, s)
           | Inr c \<Rightarrow>
               (case server_handshake (sn_rmp env) (handshake_party_new (pe_device_id s) (pe_identity s)) c of
                  (Inl e, c') \<Rightarrow> (Inl e, s)
                | (Inr h, c') \<Rightarrow> (Inr (), s\<lparr> pe_connection := c', pe_handshake := h \<rparr>))))"

section \<open>Sending\<close>

text \<open>
  What a send works on: the session, the resume record, the files that may hold a saved record, the
  progress bar, the clock, the number of network operations and of attempts so far.
\<close>

record send_world =
  sw_session :: p2p_session
  sw_state :: folder_transfer_state
  sw_files :: "string \<Rightarrow> string option"
  sw_progress :: "progress_state option"
  sw_now :: rat
  sw_dials :: nat

record send_env =
  sd_net :: session_env
  sd_folder :: "nat \<Rightarrow> folder_env"
  sd_disk :: disk
  sd_path :: string
  sd_source :: "node option"
  sd_to_json :: "folder_transfer_state \<Rightarrow> string + string"
  sd_of_json :: "string \<Rightarrow> string + folder_transfer_state"

definition session_config :: "send_world \<Rightarrow> config_message" where
  "session_config w = hr_config (pe_handshake (sw_session w))"

text \<open>One attempt: a new folder session on the connection there is.\<close>

definition attempt_start :: "uuid \<Rightarrow> send_world \<Rightarrow> folder_session" where
  "attempt_start transfer_id w =
     folder_session_new (pe_connection (sw_session w)) (session_config w) transfer_id
       (sw_state w) (sw_progress w) (sw_now w)"

definition send_attempt :: "send_env \<Rightarrow> uuid \<Rightarrow> (send_world, stop, unit) proc" where
  "send_attempt env transfer_id = (\<lambda>w.
     case folder_send (sd_folder env (sw_dials w)) (sd_disk env) (sd_path env) (sd_source env) (attempt_start transfer_id w) of
       (res, s) \<Rightarrow>
         (res, w\<lparr> sw_session := (sw_session w)\<lparr> pe_connection := fo_connection s \<rparr>,
                  sw_state := fo_state s, sw_progress := fo_progress s, sw_now := fo_now s \<rparr>))"

definition save_state :: "send_env \<Rightarrow> string option \<Rightarrow> send_world \<Rightarrow> send_world" where
  "save_state env state_path w =
     (case state_path of
        None \<Rightarrow> w
      | Some p \<Rightarrow> w\<lparr> sw_files := snd (save_to_file (sd_to_json env) p (sw_state w) (sw_files w)) \<rparr>)"

definition remove_state :: "string option \<Rightarrow> send_world \<Rightarrow> send_world" where
  "remove_state state_path w =
     (case state_path of None \<Rightarrow> w | Some p \<Rightarrow> w\<lparr> sw_files := (sw_files w)(p := None) \<rparr>)"

text \<open>A failed reconnection leaves the old connection in place; the next attempt then fails on it.\<close>

definition sleep_and_reconnect :: "send_env \<Rightarrow> u64 \<Rightarrow> send_world \<Rightarrow> send_world" where
  "sleep_and_reconnect env delay w =
     w\<lparr> sw_now := sw_now w + of_nat (unat delay),
        sw_session := snd (reconnect (sd_net env) (Suc (sw_dials w)) (sw_session w)),
        sw_dials := Suc (sw_dials w) \<rparr>"

definition summary_of_state :: "folder_transfer_state \<Rightarrow> transfer_summary" where
  "summary_of_state st =
     \<lparr> sum_root_name = ft_folder_name st, sum_files = map fm_path (ft_files st), sum_bytes = ft_total_bytes st \<rparr>"

text \<open>The loop of \<open>send_path\<close>; without a limit on the attempts it may go on for ever, hence the fuel.\<close>

fun send_path_loop ::
  "nat \<Rightarrow> send_env \<Rightarrow> reconnect_config \<Rightarrow> string option \<Rightarrow> uuid \<Rightarrow> u32 \<Rightarrow> send_world \<Rightarrow>
     ((stop + transfer_summary) \<times> send_world) option" where
  "send_path_loop 0 env cfg state_path transfer_id attempt w = None"
| "send_path_loop (Suc fuel) env cfg state_path transfer_id attempt w =
     (case send_attempt env transfer_id w of
        (Inr u, w1) \<Rightarrow> Some (Inr (summary_of_state (sw_state w1)), remove_state state_path w1)
      | (Inl (Err e), w1) \<Rightarrow>
          (if \<not> is_recoverable e then Some (Inl (Err e), save_state env state_path w1)
           else if \<not> should_retry cfg attempt
           then Some (Inl (Err (Protocol (''Transfer failed after '' @ show_nat (unat (attempt + 1)) @
                        '' attempts: '' @ display e))), save_state env state_path w1)
           else send_path_loop fuel env cfg state_path transfer_id (attempt + 1)
                  (sleep_and_reconnect env (backoff_delay cfg attempt) (save_state env state_path w1)))
      | (Inl stopped, w1) \<Rightarrow> Some (Inl stopped, w1))"

definition fresh_state :: "uuid \<Rightarrow> send_world \<Rightarrow> folder_transfer_state" where
  "fresh_state new_id w = folder_state_new new_id [] [] (session_config w)"

text \<open>A saved record that does not load is replaced by a fresh one.\<close>

definition initial_state :: "send_env \<Rightarrow> string option \<Rightarrow> uuid \<Rightarrow> send_world \<Rightarrow> folder_transfer_state" where
  "initial_state env state_path new_id w =
     (case state_path of
        None \<Rightarrow> fresh_state new_id w
      | Some p \<Rightarrow>
          (if sw_files w p = None then fresh_state new_id w
           else case fst (load_from_file (sd_of_json env) p (sw_files w)) of
                  Inr loaded \<Rightarrow> loaded
                | Inl e \<Rightarrow> fresh_state new_id w))"

definition send_path ::
  "nat \<Rightarrow> send_env \<Rightarrow> reconnect_config \<Rightarrow> string option \<Rightarrow> uuid \<times> uuid \<Rightarrow> send_world \<Rightarrow>
     ((stop + transfer_summary) \<times> send_world) option" where
  "send_path fuel env cfg state_path ids w =
     (if sd_source env = None
      then Some (Inl (Err (Protocol (''Path does not exist: '' @ sd_path env))), w)
      else
        let st = initial_state env state_path (fst ids) w;
            transfer_id = (if ft_files st = [] then snd ids else ft_transfer_id st)
        in send_path_loop fuel env cfg state_path transfer_id 0 (w\<lparr> sw_state := st \<rparr>))"

section \<open>Receiving\<close>

text \<open>
  The streams and the policy come with the call; creating the output directory may fail before
  anything else happens.
\<close>

definition receive_to ::
  "receiver_env \<Rightarrow> string \<Rightarrow> io_error option \<Rightarrow> uuid \<Rightarrow> disk \<Rightarrow> (error + bytes) list \<Rightarrow> progress_state option \<Rightarrow> rat \<Rightarrow>
     p2p_session \<Rightarrow> (stop + transfer_summary) \<times> folder_receiver" where
  "receive_to renv output_dir dir_error new_id disk streams progress now s =
     (let r = folder_receiver_new (pe_connection s) (hr_config (pe_handshake s)) new_id disk streams progress now
      in case dir_error of
           Some e \<Rightarrow> (Inl (Err (Network e)), r)
         | None \<Rightarrow> receive_folder renv output_dir (create_dir_all output_dir r))"

text \<open>The standard parsers of socket and IP addresses are parameters.\<close>

definition parse_peer_addr ::
  "(string \<Rightarrow> socket_addr option) \<Rightarrow> (string \<Rightarrow> ip_addr option) \<Rightarrow> string \<Rightarrow> u16 \<Rightarrow> socket_addr result" where
  "parse_peer_addr parse_sa parse_ip addr_str port =
     (case parse_sa addr_str of
        Some sa \<Rightarrow> Inr sa
      | None \<Rightarrow>
          (case parse_ip addr_str of
             Some ip \<Rightarrow> Inr (SocketAddr ip port)
           | None \<Rightarrow> Inl (Protocol (''invalid peer address '' @ [CHR 0x27] @ addr_str @ [CHR 0x27]))))"

end
