(* ===== verification/Session_Peer.thy ===== *)
theory Session_Peer
  imports Session
begin

text \<open>
  Who a session is with: however a session came about and whatever has been done with it since, the
  peer it names is the one whose certificate TLS saw on its present connection; and for a session
  that was dialled it is the one that was asked for.
\<close>

section \<open>Transfers keep the peer\<close>

definition peer_of :: "folder_session \<Rightarrow> fingerprint option" where
  "peer_of s = cn_peer_fingerprint (fo_connection s)"

definition peer_in :: "folder_receiver \<Rightarrow> fingerprint option" where
  "peer_in s = cn_peer_fingerprint (fi_connection s)"

lemma keeps_send_message [simp]: "keeps cn_peer_fingerprint (send_message rc m)"
  by (rule keepsI) (metis prod.collapse send_message_frame)

lemma keeps_recv_message [simp]: "keeps cn_peer_fingerprint (recv_message rc)"
  by (rule keepsI) (metis prod.collapse recv_message_frame)

lemma keeps_await_ready [simp]: "keeps cn_peer_fingerprint (await_ready rc)"
proof (rule keepsI)
  fix c
  obtain r c' where "recv_message rc c = (r, c')" by fastforce
  with recv_message_frame [OF this] show "cn_peer_fingerprint (snd (await_ready rc c)) = cn_peer_fingerprint c"
    by (auto simp: await_ready_def split: sum.splits message.splits)
qed

lemma keeps_control: "keeps cn_peer_fingerprint p \<Longrightarrow> keeps peer_of (control p)"
  by (auto simp: keeps_def control_def peer_of_def split: prod.splits sum.splits) (metis snd_conv)+

lemma keeps_control_in: "keeps cn_peer_fingerprint p \<Longrightarrow> keeps peer_in (control_in p)"
  by (auto simp: keeps_def control_in_def peer_in_def split: prod.splits sum.splits) (metis snd_conv)+

lemmas keeps_controls = keeps_control [OF keeps_send_message] keeps_control [OF keeps_recv_message]
  keeps_control [OF keeps_await_ready] keeps_control_in [OF keeps_send_message] keeps_control_in [OF keeps_recv_message]

lemma keeps_prepare: "keeps peer_of (prepare path src)"
  by (rule keepsI) (simp add: prepare_def peer_of_def split: option.splits sum.splits)

lemma keeps_stream_file: "keeps peer_of (stream_file env disk path i)"
  by (rule keepsI) (simp add: stream_file_def peer_of_def with_progress_def split: prod.splits)

lemma keeps_send_single_file: "keeps peer_of (send_single_file env disk path i)"
  unfolding send_single_file_def
  by (intro keeps_andthen keeps_stream_file keeps_controls
      keeps_dep [where p = "\<lambda>t. control (send_message rc (checksum_message t i d))" and g = fo_transfer_id for rc i d])
     (auto split: sum.splits)

lemma keeps_send_files: "keeps peer_of (send_files env disk base is)"
proof (induction "is")
  case Nil
  then show ?case by (simp add: keeps_def)
next
  case (Cons i "is")
  have "keeps peer_of (\<lambda>s. send_files env disk base is (file_done i s))"
    using Cons by (simp add: keeps_def file_done_def peer_of_def Let_def)
  then have "keeps peer_of (andthen (send_single_file env disk p i) (\<lambda>_ s. send_files env disk base is (file_done i s)))" for p
    by (intro keeps_andthen keeps_send_single_file)
  with Cons show ?case by (simp add: keeps_def)
qed

lemma peer_of_with_progress [simp]: "peer_of (with_progress f s) = peer_of s"
  by (simp add: peer_of_def with_progress_def)

lemma keeps_send_complete: "keeps peer_of (send_complete env)"
  unfolding send_complete_def
  by (rule keeps_andthen) (use keeps_controls(1) in \<open>simp_all add: keeps_def\<close>)

lemma keeps_folder_send: "keeps peer_of (folder_send env disk path src)"
proof -
  have 1: "keeps peer_of (\<lambda>s. prepare path src (s\<lparr> fo_transfer_start := Some (fo_now s), fo_total_compressed_bytes := 0 \<rparr>))"
    using keeps_prepare [of path src] by (simp add: keeps_def) (simp add: peer_of_def)
  have 2: "keeps peer_of (\<lambda>s. control (send_message (fe_rmp env) (TransferInfoMsg (manifest rp s)))
        (with_progress (set_total_bytes (ft_total_bytes (fo_state s))) s))" for rp
    using keeps_controls(1) by (simp add: keeps_def)
  have 3: "keeps peer_of (\<lambda>s. send_files env disk base [0..<length (ft_files (fo_state s))] s)" for base
    by (rule keeps_dep [OF keeps_send_files])
  show ?thesis
    unfolding folder_send_def
    by (intro keeps_andthen 1 2 keeps_controls) (auto intro: keeps_andthen 3 keeps_send_complete split: sum.splits)
qed

section \<open>Receiving\<close>

lemma peer_in_simps [simp]:
  "peer_in (with_bar f s) = peer_in s" "peer_in (create_dir_all d s) = peer_in s"
  by (simp_all add: peer_in_def with_bar_def create_dir_all_def)

lemma keeps_accept_file: "keeps peer_in (accept_file env path n k)"
  by (rule keepsI) (simp add: accept_file_def Let_def peer_in_def with_bar_def split: prod.splits sum.splits)

lemma keeps_receive_single_file: "keeps peer_in (receive_single_file env path i n k)"
  unfolding receive_single_file_def
  by (intro keeps_andthen keeps_accept_file keeps_controls
      keeps_dep [where p = "\<lambda>t. control_in (send_message rc (checksum_message t i d))" and g = fi_transfer_id for rc i d])
     (auto split: sum.splits)

lemma keeps_receive_item: "keeps peer_in (receive_item env out info i meta)"
  using keeps_receive_single_file
  by (auto simp: receive_item_def Let_def keeps_def fail_def split: sum.splits option.splits)

lemma keeps_receive_items: "keeps peer_in (receive_items env out info i metas)"
  by (induction metas arbitrary: i) (auto intro: keeps_receive_item)

lemma keeps_expect_complete: "keeps peer_in (expect_complete env)"
  unfolding expect_complete_def by (rule keeps_andthen [OF keeps_controls(5)]) (simp add: keeps_def)

lemma keeps_receive_accepted: "keeps peer_in (receive_accepted env out info)"
proof (rule keepsI)
  fix s :: folder_receiver
  let ?s1 = "s\<lparr> fi_transfer_id := ti_transfer_id info, fi_transfer_start := Some (fi_now s), fi_total_compressed_bytes := 0 \<rparr>"
  have s1: "peer_in ?s1 = peer_in s" by (simp add: peer_in_def)
  have "keeps peer_in (andthen (control_in (send_message (fv_rmp env) Ready)) (\<lambda>_.
         andthen (receive_items env out info 0 (ti_items info)) (\<lambda>_.
         andthen (expect_complete env) (\<lambda>_. ret (summary_of info before)))))" for before
    by (intro keeps_andthen keeps_controls keeps_receive_items keeps_expect_complete) simp
  then show "peer_in (snd (receive_accepted env out info s)) = peer_in s"
    using s1 by (auto simp: receive_accepted_def Let_def keeps_def start_receiving_def split: option.splits)
qed

lemma keeps_receive_folder: "keeps peer_in (receive_folder env out)"
  unfolding receive_folder_def
  by (intro keeps_andthen keeps_controls)
     (auto split: message.splits sum.splits intro: keeps_andthen keeps_controls keeps_receive_accepted)

section \<open>The life of a session\<close>

text \<open>
  The sessions that can come about: by one of the three ways to establish one, and from then on by
  reconnecting, accepting again, and any number of sends and receives, whatever their outcome.
\<close>

inductive session_life :: "session_env \<Rightarrow> p2p_session \<Rightarrow> bool" for env where
  sl_connect: "session_connect env n addr fp ident dev cfg sid = Inr s \<Longrightarrow> session_life env s"
| sl_accept: "session_accept env n addr ident dev sid = Inr s \<Longrightarrow> session_life env s"
| sl_rendezvous: "from_rendezvous env tenv ps cfg sid = Some (Inr s) \<Longrightarrow> session_life env s"
| sl_reconnect: "session_life env s \<Longrightarrow> reconnect env n s = (res, s') \<Longrightarrow> session_life env s'"
| sl_reaccept: "session_life env s \<Longrightarrow> reaccept env n s = (res, s') \<Longrightarrow> session_life env s'"
| sl_send: "session_life env s \<Longrightarrow>
    folder_send fenv disk path src (folder_session_new (pe_connection s) (hr_config (pe_handshake s)) tid st bar now) = (r, fs) \<Longrightarrow>
    session_life env (s\<lparr> pe_connection := fo_connection fs \<rparr>)"
| sl_receive: "session_life env s \<Longrightarrow>
    receive_to renv out err tid disk streams bar now s = (q, fr) \<Longrightarrow>
    session_life env (s\<lparr> pe_connection := fi_connection fr \<rparr>)"

definition authenticated :: "p2p_session \<Rightarrow> bool" where
  "authenticated s \<longleftrightarrow>
     cn_peer_fingerprint (pe_connection s) = Some (hr_peer_fingerprint (pe_handshake s)) \<and>
     (\<forall>addr fp. pe_initiator_target s = Some (addr, fp) \<longrightarrow> hr_peer_fingerprint (pe_handshake s) = fp)"

text \<open>A handshake leaves the connection's certificate alone and vouches for it.\<close>

lemma keeps_client_handshake: "keeps cn_peer_fingerprint (client_handshake rc self cfg)"
  unfolding client_handshake_def
  by (intro keeps_andthen keeps_send_message keeps_recv_message keeps_ret)
     (auto simp: keeps_def check_hello_def split: message.splits)

lemma keeps_server_handshake: "keeps cn_peer_fingerprint (server_handshake rc self)"
  unfolding server_handshake_def
  by (intro keeps_andthen keeps_send_message keeps_recv_message keeps_ret)
     (auto simp: keeps_def check_hello_def split: message.splits)

lemma client_vouches:
  assumes "client_handshake rc self cfg c = (Inr h, c')"
  shows "cn_peer_fingerprint c' = Some (hr_peer_fingerprint h)" "cn_peer_fingerprint c = Some (hr_peer_fingerprint h)"
    "hr_config h = cfg"
  using client_authentic [OF assms] keepsD [OF keeps_client_handshake assms] by simp_all

lemma server_vouches:
  assumes "server_handshake rc self c = (Inr h, c')"
  shows "cn_peer_fingerprint c' = Some (hr_peer_fingerprint h)" "cn_peer_fingerprint c = Some (hr_peer_fingerprint h)"
  using server_authentic [OF assms] keepsD [OF keeps_server_handshake assms] by simp_all

lemma opened_authenticated:
  assumes "opened ep ident dev sid target shaken = Inr s"
    and "\<And>h c. shaken = (Inr h, c) \<Longrightarrow> cn_peer_fingerprint c = Some (hr_peer_fingerprint h)"
    and "\<And>h c addr fp. shaken = (Inr h, c) \<Longrightarrow> target = Some (addr, fp) \<Longrightarrow> hr_peer_fingerprint h = fp"
  shows "authenticated s"
  using assms by (auto simp: opened_def authenticated_def split: prod.splits sum.splits)

lemma session_connect_authenticated:
  assumes "session_connect env n addr fp ident dev cfg sid = Inr s"
  shows "authenticated s \<and> pe_initiator_target s = Some (addr, fp)"
proof -
  obtain ep c where c: "endpoint_connect (sn_libs env) (sn_dial env n addr) fp = Inr c"
      and o: "opened ep ident dev sid (Some (addr, fp))
        (client_handshake (sn_rmp env) (handshake_party_new dev ident) cfg c) = Inr s"
    using assms by (auto simp: session_connect_def)
  have fp: "hr_peer_fingerprint h = fp" if "client_handshake rc p cfg c = (Inr h, c')" for rc p h c'
    using client_vouches(2) [OF that] endpoint_connect_pinned [OF c] by simp
  have "authenticated s"
    by (rule opened_authenticated [OF o]) (erule client_vouches(1), auto dest: fp)
  with o show ?thesis by (auto simp: opened_def split: prod.splits sum.splits)
qed

lemma reconnect_cases:
  assumes "reconnect env n s = (res, s')"
  shows "s' = s \<and> res \<noteq> Inr () \<or>
    (\<exists>addr fp ep c h c'. res = Inr () \<and> pe_initiator_target s = Some (addr, fp) \<and>
        endpoint_connect (sn_libs env) (sn_dial env n addr) fp = Inr c \<and>
        client_handshake (sn_rmp env) (handshake_party_new (pe_device_id s) (pe_identity s))
           (hr_config (pe_handshake s)) c = (Inr h, c') \<and>
        s' = s\<lparr> pe_endpoint := ep, pe_connection := c', pe_handshake := h \<rparr>)"
  using assms
  by (simp add: reconnect_def split: option.split_asm sum.split_asm prod.split_asm) auto

lemma reconnect_authenticated:
  assumes "reconnect env n s = (res, s')" "authenticated s"
  shows "authenticated s'"
  using reconnect_cases [OF assms(1)]
proof (elim disjE exE conjE)
  assume "s' = s"
  with assms(2) show ?thesis by simp
next
  fix addr fp ep c h c'
  assume 2: "res = Inr ()" "pe_initiator_target s = Some (addr, fp)"
      "endpoint_connect (sn_libs env) (sn_dial env n addr) fp = Inr c"
      "client_handshake (sn_rmp env) (handshake_party_new (pe_device_id s) (pe_identity s))
         (hr_config (pe_handshake s)) c = (Inr h, c')"
      "s' = s\<lparr> pe_endpoint := ep, pe_connection := c', pe_handshake := h \<rparr>"
  have "hr_peer_fingerprint h = fp"
    using client_vouches(2) [OF 2(4)] endpoint_connect_pinned [OF 2(3)] by simp
  with client_vouches(1) [OF 2(4)] 2(2,5) show ?thesis by (simp add: authenticated_def)
qed

lemma reaccept_authenticated:
  assumes "reaccept env n s = (res, s')" "authenticated s"
  shows "authenticated s'"
  using assms
  by (auto simp: reaccept_def authenticated_def split: if_splits sum.splits prod.splits dest: server_vouches(1))

lemma session_life_authenticated:
  assumes "session_life env s"
  shows "authenticated s"
  using assms
proof (induction rule: session_life.induct)
  case (sl_connect n addr fp ident dev cfg sid s)
  then show ?case using session_connect_authenticated by blast
next
  case (sl_accept n addr ident dev sid s)
  then show ?case
    by (auto simp: session_accept_def intro!: opened_authenticated dest: server_vouches(1))
next
  case (sl_rendezvous tenv ps cfg sid s)
  then show ?case
    by (auto simp: from_rendezvous_def rendezvous_handshake_def Let_def intro!: opened_authenticated
        dest: server_vouches(1) client_vouches(1) split: if_splits)
next
  case (sl_reconnect s n res s')
  then show ?case using reconnect_authenticated by blast
next
  case (sl_reaccept s n res s')
  then show ?case using reaccept_authenticated by blast
next
  case (sl_send s fenv disk path src tid st bar now r fs)
  then show ?case
    using keepsD [OF keeps_folder_send sl_send.hyps(2)]
    by (simp add: authenticated_def peer_of_def folder_session_new_def)
next
  case (sl_receive s renv out err tid disk streams bar now q fr)
  have "peer_in fr = cn_peer_fingerprint (pe_connection s)"
    using sl_receive.hyps(2) keepsD [OF keeps_receive_folder]
    by (auto simp: receive_to_def Let_def split: option.splits)
       (simp_all add: folder_receiver_new_def peer_in_def)
  with sl_receive.IH show ?case by (simp add: authenticated_def peer_in_def)
qed

text \<open>
  C10: at any point of a session's life, after any number of reconnections, sends and
  receives that succeed or fail, the peer the session names is the holder of the certificate TLS
  saw on the session's present connection; and if the session was dialled, it is the peer that was
  asked for when it was opened. A reconnection that fails leaves everything as it was, one that
  succeeds keeps the session's number, device, target and negotiated configuration.
\<close>

theorem session_peer:
  assumes "session_life env s"
  shows "cn_peer_fingerprint (pe_connection s) = Some (hr_peer_fingerprint (pe_handshake s)) \<and>
    (\<forall>addr fp. pe_initiator_target s = Some (addr, fp) \<longrightarrow> hr_peer_fingerprint (pe_handshake s) = fp) \<and>
    (\<forall>n res s'. reconnect env n s = (res, s') \<longrightarrow>
       (if res = Inr () then pe_session_id s' = pe_session_id s \<and> pe_device_id s' = pe_device_id s \<and>
          pe_initiator_target s' = pe_initiator_target s \<and> hr_config (pe_handshake s') = hr_config (pe_handshake s)
        else s' = s))"
proof -
  have "authenticated s" using assms by (rule session_life_authenticated)
  moreover have "if res = Inr () then pe_session_id s' = pe_session_id s \<and> pe_device_id s' = pe_device_id s \<and>
          pe_initiator_target s' = pe_initiator_target s \<and> hr_config (pe_handshake s') = hr_config (pe_handshake s)
        else s' = s" if "reconnect env n s = (res, s')" for n res s'
    using reconnect_cases [OF that] by (auto dest: client_vouches(3))
  ultimately show ?thesis by (auto simp: authenticated_def)
qed

definition demo_dial_env :: session_env where
  "demo_dial_env = \<lparr> sn_libs = demo_identity_libs,
     sn_rmp = demo_rmp \<lparr> hp_device_id = Uuid 4, hp_fingerprint = 3 \<rparr> \<lparr> hp_device_id = Uuid 7, hp_fingerprint = 8 \<rparr> config_default,
     sn_binding = (\<lambda>n. demo_binding), sn_dial = (\<lambda>n a. Established (demo_quinn 8 a (frame_of [2] @ frame_of [4]))),
     sn_incoming = (\<lambda>n. EndpointClosed) \<rparr>"

lemma demo_client_run:
  assumes "q = \<lparr> hp_device_id = dev, hp_fingerprint = word_of_nat n \<rparr>"
  shows "\<exists>c'. client_handshake (demo_rmp p q cfg) p cfg (demo_connection n addr out (frame_of [2] @ frame_of [4])) =
    (Inr \<lparr> hr_peer_device_id = dev, hr_peer_fingerprint = word_of_nat n, hr_config = cfg \<rparr>, c')"
proof -
  have "wire_of (demo_rmp p q cfg) (HelloAck (own_hello q)) = frame_of [2]"
       "wire_of (demo_rmp p q cfg) ConfigAck = frame_of [4]"
    by (simp_all add: wire_of_def demo_rmp_def)
  with client_run [of "demo_rmp p q cfg" p cfg q "demo_connection n addr out (frame_of [2] @ frame_of [4])", OF demo_rmp_ok demo_sendable]
  show ?thesis by (auto simp: demo_connection_def assms)
qed

lemma demo_session:
  "\<exists>s. session_connect demo_dial_env 0 (SocketAddr (V4 9) 9) 8
     \<lparr> id_cert_der = [0, 0, 0], id_key_der = [], id_fingerprint = 3 \<rparr> (Uuid 4) config_default (Uuid 1) = Inr s \<and>
     pe_initiator_target s = Some (SocketAddr (V4 9) 9, 8)"
proof -
  let ?p = "\<lparr> hp_device_id = Uuid 4, hp_fingerprint = 3 \<rparr>" and ?q = "\<lparr> hp_device_id = Uuid 7, hp_fingerprint = 8 \<rparr>"
  obtain c' where "client_handshake (demo_rmp ?p ?q config_default) ?p config_default
      (demo_connection 8 (SocketAddr (V4 9) 9) PROTOCOL_MAGIC (frame_of [2] @ frame_of [4])) =
    (Inr \<lparr> hr_peer_device_id = Uuid 7, hr_peer_fingerprint = 8, hr_config = config_default \<rparr>, c')"
    using demo_client_run [of ?q "Uuid 7" 8 ?p config_default "SocketAddr (V4 9) 9" PROTOCOL_MAGIC] by auto
  moreover have "endpoint_connect demo_identity_libs (Established (demo_quinn 8 (SocketAddr (V4 9) 9) (frame_of [2] @ frame_of [4]))) 8 =
      Inr (demo_connection 8 (SocketAddr (V4 9) 9) PROTOCOL_MAGIC (frame_of [2] @ frame_of [4]))"
    using demo_dialled [of 8] by simp
  ultimately show ?thesis
    by (simp add: session_connect_def demo_dial_env_def endpoint_bind_def endpoint_from_socket_def demo_binding_def
        handshake_party_new_def opened_def)
qed

theorem session_peer_witness:
  "\<exists>s. session_life demo_dial_env s \<and> hr_peer_fingerprint (pe_handshake s) = 8"
proof -
  obtain s where s: "session_life demo_dial_env s" "pe_initiator_target s = Some (SocketAddr (V4 9) 9, 8)"
    using demo_session sl_connect by blast
  with session_peer [OF s(1)] show ?thesis by auto
qed

section \<open>A session through the rendezvous is not pinned\<close>

text \<open>
  The fingerprint the server names is only enforced on the connection this end dials. If the one
  that comes in is ready first it is kept, whatever certificate it carries, and the handshake then
  checks the peer's claim against that certificate alone: here the server named fingerprint 8, and
  the session is with the holder of certificate 9 at the same address.
\<close>

lemma rendezvous_not_pinned:
  "\<exists>env pn est s. establish_via_rendezvous (demo_traversal pn) demo_params = (Some (Inr est), []) \<and>
     es_peer_fingerprint est = 8 \<and>
     from_rendezvous env (demo_traversal pn) demo_params config_default (Uuid 1) = Some (Inr s) \<and>
     hr_peer_fingerprint (pe_handshake s) = 9"
proof -
  let ?p = "\<lparr> hp_device_id = Uuid 4, hp_fingerprint = 3 \<rparr>" and ?q = "\<lparr> hp_device_id = Uuid 7, hp_fingerprint = 9 \<rparr>"
  let ?addr = "SocketAddr (V4 9) 9" and ?inp = "frame_of [2] @ frame_of [4]"
  let ?pn = "\<lparr> pn_dial = (\<lambda>a. None), pn_incoming = [(1, Inbound (demo_quinn 9 ?addr (PROTOCOL_MAGIC @ ?inp)))],
    pn_prefers_connect = True \<rparr>"
  let ?env = "demo_dial_env\<lparr> sn_rmp := demo_rmp ?p ?q config_default \<rparr>"
  have "race_connect_and_accept demo_identity_libs (\<lambda>a. []) ?pn ?addr 8 (Uuid 4) (Uuid 7) = Inr (demo_connection 9 ?addr [] ?inp)"
    using demo_accepted [of 9 ?addr ?inp]
    by (simp add: race_connect_and_accept_def connect_branch_def select2_def peer_matches_def demo_connection_def PUNCH_TIMEOUT_def)
  note est = demo_established [OF this]
  obtain c' where "client_handshake (demo_rmp ?p ?q config_default) ?p config_default (demo_connection 9 ?addr [] ?inp) =
    (Inr \<lparr> hr_peer_device_id = Uuid 7, hr_peer_fingerprint = 9, hr_config = config_default \<rparr>, c')"
    using demo_client_run [of ?q "Uuid 7" 9 ?p config_default ?addr "[]"] by auto
  then have "\<exists>s. from_rendezvous ?env (demo_traversal ?pn) demo_params config_default (Uuid 1) = Some (Inr s) \<and>
      hr_peer_fingerprint (pe_handshake s) = 9"
    unfolding from_rendezvous_def est
    by (simp add: rendezvous_handshake_def demo_dial_env_def demo_params_def handshake_party_new_def less_uuid_def opened_def)
  with est show ?thesis by (intro exI [of _ ?env] exI [of _ ?pn]) auto
qed

end
