(* ===== verification/Session_Send.thy ===== *)
theory Session_Send
  imports Session_Peer
begin

text \<open>
  \<open>send_path\<close> over any number of attempts: the resume record only grows, stays one the next attempt
  or the next run can start from, and what is saved at the end is that record; the loop stops
  within the configured number of attempts, and succeeds with the first attempt that does.
\<close>

section \<open>The record only grows\<close>

definition advances :: "folder_transfer_state \<Rightarrow> folder_transfer_state \<Rightarrow> bool" where
  "advances st st' \<longleftrightarrow>
     ft_files st' = ft_files st \<and> ft_transfer_id st' = ft_transfer_id st \<and> ft_folder_name st' = ft_folder_name st \<and>
     ft_total_bytes st' = ft_total_bytes st \<and>
     set (ft_completed_files st) \<subseteq> set (ft_completed_files st') \<and>
     (\<forall>i. set (get_completed_chunks st i) \<subseteq> set (get_completed_chunks st' i))"

lemma advances_refl [simp]: "advances st st"
  by (simp add: advances_def)

lemma advances_trans: "advances a b \<Longrightarrow> advances b c \<Longrightarrow> advances a c"
  unfolding advances_def by (metis order_trans)

lemma advances_mark: "advances st (mark_chunk_complete i c st)"
  by (auto simp: advances_def mark_chunk_complete_def get_completed_chunks_def)

lemma advances_marks: "advances st (fold (mark_chunk_complete i) cs st)"
proof (induction cs arbitrary: st)
  case Nil
  then show ?case by simp
next
  case (Cons c cs)
  from advances_trans [OF advances_mark Cons] show ?case by simp
qed

lemma advances_file_done: "advances (fo_state s) (fo_state (file_done i s))"
  by (auto simp: advances_def file_done_def Let_def mark_file_complete_def get_completed_chunks_def)

lemma send_files_advances:
  "send_files env disk base is s = (res, s') \<Longrightarrow> advances (fo_state s) (fo_state s')"
proof (induction "is" arbitrary: s)
  case Nil
  then show ?case by simp
next
  case (Cons i "is")
  show ?case
  proof (cases "i \<in> set (ft_completed_files (fo_state s))")
    case True
    with Cons show ?thesis by simp
  next
    case False
    obtain r1 s1 where one: "send_single_file env disk (join base (fm_path (ft_files (fo_state s) ! i))) i s = (r1, s1)"
      by fastforce
    have a1: "advances (fo_state s) (fo_state s1)"
      using send_single_file_state [OF one] advances_marks by metis
    show ?thesis
    proof (cases r1)
      case (Inl e)
      with Cons.prems False one a1 show ?thesis by (simp add: andthen_apply)
    next
      case (Inr u)
      with Cons.prems False one have "send_files env disk base is (file_done i s1) = (res, s')"
        by (simp add: andthen_apply)
      from Cons.IH [OF this] advances_file_done a1 show ?thesis using advances_trans by metis
    qed
  qed
qed

lemma folder_send_advances:
  assumes "folder_send env disk path src s = (res, s')"
    and "prepare path src (s\<lparr> fo_transfer_start := Some (fo_now s), fo_total_compressed_bytes := 0 \<rparr>) = (Inr rp, s0)"
    and "base_path path src = Inr base"
  shows "advances (fo_state s0) (fo_state s')"
  using folder_send_states [OF assms] by (metis advances_refl send_files_advances)

section \<open>One attempt\<close>

text \<open>
  The record is still empty, because nothing was listed yet, or one to resume from. The hypotheses
  on the surroundings: the compressor is invertible and every listing of the path describes files
  that are there, with their sizes.
\<close>

definition resumable :: "send_env \<Rightarrow> string \<Rightarrow> config_message \<Rightarrow> folder_transfer_state \<Rightarrow> bool" where
  "resumable env base cfg st \<longleftrightarrow>
     chunk_size cfg \<noteq> 0 \<and> (ft_files st = [] \<or> ready_to_send cfg st \<and> sources_ok (sd_disk env) base (ft_files st))"

definition sound_source :: "send_env \<Rightarrow> string \<Rightarrow> zstd_decode \<Rightarrow> bool" where
  "sound_source env base decode \<longleftrightarrow>
     base_path (sd_path env) (sd_source env) = Inr base \<and>
     (\<forall>n. inverts (fe_encode (sd_folder env n)) decode) \<and>
     (\<forall>name files. file_name (sd_path env) = Some name \<longrightarrow>
        list_files (sd_path env) (sd_source env) name = Inr files \<longrightarrow>
        sources_ok (sd_disk env) base files \<and> length files \<le> 2 ^ 32)"

lemma sources_sizes:
  assumes "sources_ok disk base files" "f \<in> set files"
  shows "fm_size f \<le> MAX_TRANSFER_FILE_SIZE"
proof -
  obtain i where i: "i < length files" "files ! i = f" using assms(2) by (auto simp: in_set_conv_nth)
  have "\<exists>data. disk (join base (fm_path (files ! i))) = Some data \<and> length data \<le> 2 ^ 40 \<and>
      fm_size (files ! i) = word_of_nat (length data)"
    using assms(1) i(1) by (simp add: sources_ok_def)
  then obtain data :: bytes where "length data \<le> 2 ^ 40" "fm_size f = word_of_nat (length data)"
    unfolding i(2) by (elim exE conjE)
  then show ?thesis using unat_of_length [of "length data"] by (simp add: word_le_nat_alt MAX_TRANSFER_nat)
qed

lemma ready_new:
  assumes "sources_ok disk base files" "length files \<le> 2 ^ 32" "chunk_size cfg \<noteq> 0"
  shows "ready_to_send cfg (folder_state_new tid name files cfg)"
  using assms sources_sizes [OF assms(1)]
  by (auto simp: ready_to_send_def folder_ok_new only_current_def)
     (auto simp: folder_state_new_def get_completed_chunks_def)

text \<open>What \<open>prepare\<close> starts an attempt with.\<close>

lemma prepare_resumable:
  assumes "prepare path src s = (Inr rp, s0)" "sound_source env base decode"
    and "path = sd_path env" "src = sd_source env" "resumable env base (fo_config s) (fo_state s)"
  shows "ready_to_send (fo_config s) (fo_state s0) \<and> sources_ok (sd_disk env) base (ft_files (fo_state s0)) \<and>
    (ft_files (fo_state s) \<noteq> [] \<longrightarrow> fo_state s0 = fo_state s) \<and>
    (ft_files (fo_state s) = [] \<longrightarrow> ft_transfer_id (fo_state s0) = fo_transfer_id s)"
proof (cases "ft_files (fo_state s) = []")
  case False
  with assms show ?thesis by (simp add: prepare_def resumable_def)
next
  case True
  then obtain name files where f: "file_name path = Some name" "list_files path src name = Inr files"
      and s0: "fo_state s0 = folder_state_new (fo_transfer_id s) name files (fo_config s)"
    using assms(1) by (auto simp: prepare_def split: option.splits sum.splits)
  have ok: "sources_ok (sd_disk env) base files" "length files \<le> 2 ^ 32"
    using assms(2) f by (auto simp: sound_source_def assms(3,4))
  have files: "ft_files (fo_state s0) = files" "ft_transfer_id (fo_state s0) = fo_transfer_id s"
    by (simp_all add: s0 folder_state_new_def)
  have "chunk_size (fo_config s) \<noteq> 0" using assms(5) by (simp add: resumable_def)
  from ready_new [OF ok this, of "fo_transfer_id s" name] True ok(1) files s0 show ?thesis by simp
qed

lemma prepare_fails: "prepare path src s = (Inl e, s0) \<Longrightarrow> s0 = s"
  by (auto simp: prepare_def split: if_splits option.splits sum.splits)

text \<open>One attempt from the record \<open>st\<close> to \<open>st'\<close>.\<close>

definition grows :: "uuid \<Rightarrow> folder_transfer_state \<Rightarrow> folder_transfer_state \<Rightarrow> bool" where
  "grows tid st st' \<longleftrightarrow> (ft_files st \<noteq> [] \<longrightarrow> advances st st') \<and>
     ((ft_files st \<noteq> [] \<longrightarrow> ft_transfer_id st = tid) \<longrightarrow> ft_files st' \<noteq> [] \<longrightarrow> ft_transfer_id st' = tid)"

lemma grows_refl [simp]: "grows tid st st"
  by (simp add: grows_def)

lemma grows_trans: "grows tid a b \<Longrightarrow> grows tid b c \<Longrightarrow> grows tid a c"
  unfolding grows_def by (metis advances_def advances_trans)

lemma send_attempt_outcome:
  assumes run: "send_attempt env tid w = (res, w1)"
    and src: "sound_source env base decode" and st: "resumable env base (session_config w) (sw_state w)"
  shows "session_config w1 = session_config w \<and> sw_files w1 = sw_files w \<and> sw_dials w1 = sw_dials w \<and>
    resumable env base (session_config w) (sw_state w1) \<and> grows tid (sw_state w) (sw_state w1) \<and>
    (res = Inr () \<longrightarrow> ft_files (sw_state w1) \<noteq> [] \<and>
       set (ft_completed_files (sw_state w1)) \<supseteq> {..<length (ft_files (sw_state w1))})"
proof -
  let ?s = "attempt_start tid w" and ?fenv = "sd_folder env (sw_dials w)"
  obtain s' where fs: "folder_send ?fenv (sd_disk env) (sd_path env) (sd_source env) ?s = (res, s')"
      and w1: "w1 = w\<lparr> sw_session := (sw_session w)\<lparr> pe_connection := fo_connection s' \<rparr>, sw_state := fo_state s',
                 sw_progress := fo_progress s', sw_now := fo_now s' \<rparr>"
    using run by (auto simp: send_attempt_def split: prod.splits)
  have s: "fo_config ?s = session_config w" "fo_state ?s = sw_state w" "fo_transfer_id ?s = tid"
    by (simp_all add: attempt_start_def folder_session_new_def)
  let ?s1 = "?s\<lparr> fo_transfer_start := Some (fo_now ?s), fo_total_compressed_bytes := 0 \<rparr>"
  have base: "base_path (sd_path env) (sd_source env) = Inr base" and inv: "inverts (fe_encode ?fenv) decode"
    using src by (auto simp: sound_source_def)
  have "resumable env base (session_config w) (fo_state s') \<and> grows tid (sw_state w) (fo_state s') \<and>
    (res = Inr () \<longrightarrow> ft_files (fo_state s') \<noteq> [] \<and>
       set (ft_completed_files (fo_state s')) \<supseteq> {..<length (ft_files (fo_state s'))})"
  proof (cases "prepare (sd_path env) (sd_source env) ?s1")
    case (Pair r0 s0)
    show ?thesis
    proof (cases r0)
      case (Inl e)
      with Pair have "s0 = ?s1" by (simp add: prepare_fails)
      with fs Pair Inl have "res = Inl e" "s' = ?s1" by (auto simp: folder_send_def andthen_apply)
      with st s show ?thesis by simp
    next
      case (Inr rp)
      note prep = Pair [unfolded Inr]
      have p: "ready_to_send (session_config w) (fo_state s0)" "sources_ok (sd_disk env) base (ft_files (fo_state s0))"
          "ft_files (sw_state w) \<noteq> [] \<Longrightarrow> fo_state s0 = sw_state w"
          "ft_files (sw_state w) = [] \<Longrightarrow> ft_transfer_id (fo_state s0) = tid"
        using prepare_resumable [OF prep src refl refl] st s by simp_all
      have ready: "ready_to_send (session_config w) (fo_state s') \<and> ft_files (fo_state s') = ft_files (fo_state s0)"
        using folder_send_ready [OF fs prep base _ inv p(2)] p(1) s by simp
      have ad: "advances (fo_state s0) (fo_state s')" by (rule folder_send_advances [OF fs prep base])
      have "ft_files (fo_state s0) \<noteq> []" using prepare_Inr [OF prep] by simp
      moreover have "set (ft_completed_files (fo_state s')) \<supseteq> {..<length (ft_files (fo_state s'))}" if "res = Inr ()"
        using folder_send_Inr [OF fs [unfolded that] prep base] ready by auto
      moreover have "chunk_size (session_config w) \<noteq> 0" using st by (simp add: resumable_def)
      moreover have "grows tid (sw_state w) (fo_state s')"
      proof (cases "ft_files (sw_state w) = []")
        case True
        with p(4) ad show ?thesis by (simp add: grows_def advances_def)
      next
        case False
        with p(3) ad show ?thesis by (auto simp: grows_def advances_def)
      qed
      ultimately show ?thesis
        using ready p(2) by (simp add: resumable_def)
    qed
  qed
  then show ?thesis by (simp add: w1 session_config_def)
qed

section \<open>The loop\<close>

lemma save_state_frame [simp]:
  "sw_session (save_state env sp w) = sw_session w" "sw_state (save_state env sp w) = sw_state w"
  "sw_dials (save_state env sp w) = sw_dials w" "session_config (save_state env sp w) = session_config w"
  by (simp_all add: save_state_def session_config_def split: option.split)

lemma remove_state_frame [simp]:
  "sw_session (remove_state sp w) = sw_session w" "sw_state (remove_state sp w) = sw_state w"
  "sw_dials (remove_state sp w) = sw_dials w" "session_config (remove_state sp w) = session_config w"
  "remove_state (Some p) w = w\<lparr> sw_files := (sw_files w)(p := None) \<rparr>"
  by (simp_all add: remove_state_def session_config_def split: option.split)

lemma reconnect_config_same: "hr_config (pe_handshake (snd (reconnect env n s))) = hr_config (pe_handshake s)"
proof -
  obtain res s' where r: "reconnect env n s = (res, s')" by fastforce
  from reconnect_cases [OF r] client_vouches(3) show ?thesis by (fastforce simp: r)
qed

lemma sleep_and_reconnect_frame [simp]:
  "sw_state (sleep_and_reconnect env d w) = sw_state w" "sw_dials (sleep_and_reconnect env d w) = Suc (sw_dials w)"
  "sw_files (sleep_and_reconnect env d w) = sw_files w"
  "session_config (sleep_and_reconnect env d w) = session_config w"
  by (simp_all add: sleep_and_reconnect_def session_config_def reconnect_config_same)

lemma saved: "sd_to_json env (sw_state w) = Inr json \<Longrightarrow> sw_files (save_state env (Some p) w) p = Some json"
  by (simp add: save_state_def save_to_file_def)

definition finished :: "send_env \<Rightarrow> string option \<Rightarrow> stop + transfer_summary \<Rightarrow> send_world \<Rightarrow> bool" where
  "finished env sp res w' \<longleftrightarrow>
     (case res of
        Inr sm \<Rightarrow> sm = summary_of_state (sw_state w') \<and> ft_files (sw_state w') \<noteq> [] \<and>
          {..<length (ft_files (sw_state w'))} \<subseteq> set (ft_completed_files (sw_state w')) \<and>
          (\<forall>p. sp = Some p \<longrightarrow> sw_files w' p = None)
      | Inl (Err e) \<Rightarrow> \<forall>p json. sp = Some p \<longrightarrow> sd_to_json env (sw_state w') = Inr json \<longrightarrow> sw_files w' p = Some json
      | _ \<Rightarrow> True)"

lemma send_path_loop_outcome:
  assumes "send_path_loop fuel env cfg sp tid a w = Some (res, w')"
    and "sound_source env base decode" "resumable env base (session_config w) (sw_state w)"
  shows "session_config w' = session_config w \<and> resumable env base (session_config w) (sw_state w') \<and>
    grows tid (sw_state w) (sw_state w') \<and> finished env sp res w'"
  using assms(1,3)
proof (induction fuel arbitrary: a w)
  case 0
  then show ?case by simp
next
  case (Suc fuel)
  obtain r1 w1 where at: "send_attempt env tid w = (r1, w1)" by fastforce
  note one = send_attempt_outcome [OF at assms(2) Suc.prems(2)]
  consider (ok) "r1 = Inr ()" | (stops) e where "r1 = Inl (Err e)" "\<not> (is_recoverable e \<and> should_retry cfg a)"
    | (again) e where "r1 = Inl (Err e)" "is_recoverable e" "should_retry cfg a"
    | (other) "r1 = Inl Block \<or> r1 = Inl Panic"
    by (metis old.sum.exhaust old.unit.exhaust stop.exhaust)
  then show ?case
  proof cases
    case ok
    with Suc.prems(1) at have "res = Inr (summary_of_state (sw_state w1))" "w' = remove_state sp w1" by auto
    with one ok show ?thesis by (auto simp: finished_def)
  next
    case stops
    with Suc.prems(1) at have "(\<exists>e'. res = Inl (Err e')) \<and> w' = save_state env sp w1" by (auto split: if_splits)
    with one show ?thesis by (auto simp: finished_def saved)
  next
    case again
    let ?w2 = "sleep_and_reconnect env (backoff_delay cfg a) (save_state env sp w1)"
    have "send_path_loop fuel env cfg sp tid (a + 1) ?w2 = Some (res, w')" using Suc.prems(1) at again by simp
    from Suc.IH [OF this] one show ?thesis using grows_trans by auto
  next
    case other
    with Suc.prems(1) at have "w' = w1" "\<exists>x. res = Inl x \<and> x \<in> {Block, Panic}" by auto
    with one show ?thesis by (auto simp: finished_def)
  qed
qed

definition state_text_ok :: "send_env \<Rightarrow> bool" where
  "state_text_ok env \<longleftrightarrow> (\<forall>st json. sd_to_json env st = Inr json \<longrightarrow> sd_of_json env json = Inr st)"

lemma initial_saved:
  assumes "state_text_ok env" "sd_to_json env st = Inr json" "sw_files w p = Some json"
  shows "initial_state env (Some p) new_id w = st"
  using assms by (simp add: initial_state_def load_from_file_def state_text_ok_def)

lemma send_path_eq:
  assumes "sd_source env \<noteq> None" "st = initial_state env sp (fst ids) w"
  shows "send_path fuel env cfg sp ids w =
    send_path_loop fuel env cfg sp (if ft_files st = [] then snd ids else ft_transfer_id st) 0 (w\<lparr> sw_state := st \<rparr>)"
  using assms(1) unfolding assms(2) send_path_def Let_def by (rule if_not_P)

lemma send_path_outcome:
  assumes run: "send_path fuel env cfg sp ids w = Some (res, w')"
    and libs: "sound_source env base decode" "state_text_ok env" "sd_source env \<noteq> None"
    and st: "st = initial_state env sp (fst ids) w" "resumable env base (session_config w) st"
  shows "resumable env base (session_config w) (sw_state w') \<and>
    (ft_files st \<noteq> [] \<longrightarrow> advances st (sw_state w')) \<and>
    (case res of
       Inr sm \<Rightarrow> sum_files sm = map fm_path (ft_files (sw_state w')) \<and> ft_files (sw_state w') \<noteq> [] \<and>
         {..<length (ft_files (sw_state w'))} \<subseteq> set (ft_completed_files (sw_state w')) \<and>
         (\<forall>p. sp = Some p \<longrightarrow> sw_files w' p = None)
     | Inl (Err e) \<Rightarrow> \<forall>p json. sp = Some p \<longrightarrow> sd_to_json env (sw_state w') = Inr json \<longrightarrow>
         (\<forall>ids' w2. sw_files w2 = sw_files w' \<longrightarrow> initial_state env sp (fst ids') w2 = sw_state w') \<and>
         (ft_files (sw_state w') \<noteq> [] \<longrightarrow>
            ft_transfer_id (sw_state w') = (if ft_files st = [] then snd ids else ft_transfer_id st))
     | _ \<Rightarrow> True)"
proof -
  let ?tid = "if ft_files st = [] then snd ids else ft_transfer_id st"
  have cfg: "session_config (w\<lparr> sw_state := st \<rparr>) = session_config w" by (simp add: session_config_def)
  have loop: "send_path_loop fuel env cfg sp ?tid 0 (w\<lparr> sw_state := st \<rparr>) = Some (res, w')"
    using run unfolding send_path_eq [OF libs(3) st(1)] .
  note out = send_path_loop_outcome [OF loop libs(1), unfolded cfg]
  have g: "grows ?tid st (sw_state w')" and fin: "finished env sp res w'"
      and r: "resumable env base (session_config w) (sw_state w')"
    using out st(2) by simp_all
  have tid: "ft_files (sw_state w') \<noteq> [] \<Longrightarrow> ft_transfer_id (sw_state w') = ?tid" using g by (simp add: grows_def)
  have again: "initial_state env sp (fst ids') w2 = sw_state w'"
    if "res = Inl (Err e)" "sp = Some p" "sd_to_json env (sw_state w') = Inr json" "sw_files w2 = sw_files w'"
    for e p json ids' and w2 :: send_world
    using initial_saved [OF libs(2) that(3), of w2 p] fin that by (simp add: finished_def)
  show ?thesis
  proof (cases res)
    case (Inr sm)
    with fin r g show ?thesis by (simp add: finished_def grows_def summary_of_state_def)
  next
    case (Inl x)
    show ?thesis
    proof (cases x)
      case (Err e)
      with Inl r g tid again show ?thesis by (auto simp: grows_def)
    qed (use Inl r g in \<open>simp_all add: grows_def\<close>)
  qed
qed

text \<open>
  C9: \<open>send_path\<close> that starts from an empty record or one it can resume from, over any
  number of attempts, broken connections and failed reconnections, never loses what was delivered:
  the record it ends with keeps the list of files, the transfer's identity and every delivered
  chunk and file. When it succeeds, every file was completed, the summary lists them and the saved
  record is gone. When it gives up, the saved record is the one it ended with, and a later
  \<open>send_path\<close> of the same path starts from exactly this record, under the same identity.
\<close>

theorem send_path_resumes:
  assumes run: "send_path fuel env cfg sp ids w = Some (res, w')"
    and libs: "sound_source env base decode" "state_text_ok env" "sd_source env \<noteq> None"
    and st: "st = initial_state env sp (fst ids) w" "resumable env base (session_config w) st"
  shows "resumable env base (session_config w) (sw_state w') \<and>
    (ft_files st \<noteq> [] \<longrightarrow> advances st (sw_state w')) \<and>
    (case res of
       Inr sm \<Rightarrow> sum_files sm = map fm_path (ft_files (sw_state w')) \<and> ft_files (sw_state w') \<noteq> [] \<and>
         {..<length (ft_files (sw_state w'))} \<subseteq> set (ft_completed_files (sw_state w')) \<and>
         (\<forall>p. sp = Some p \<longrightarrow> sw_files w' p = None)
     | Inl (Err e) \<Rightarrow> \<forall>p json. sp = Some p \<longrightarrow> sd_to_json env (sw_state w') = Inr json \<longrightarrow>
         (\<forall>ids' w2. sw_files w2 = sw_files w' \<longrightarrow> initial_state env sp (fst ids') w2 = sw_state w') \<and>
         (ft_files (sw_state w') \<noteq> [] \<longrightarrow>
            ft_transfer_id (sw_state w') = (if ft_files st = [] then snd ids else ft_transfer_id st))
     | _ \<Rightarrow> True)"
  using send_path_outcome [OF run libs st] .

section \<open>It stops, and it recovers\<close>

lemma send_attempt_dials: "sw_dials (snd (send_attempt env tid w)) = sw_dials w"
  by (simp add: send_attempt_def split: prod.split)

lemma send_path_loop_stops:
  assumes "rc_max_attempts cfg \<noteq> 0" "i < unat (rc_max_attempts cfg)" "unat (rc_max_attempts cfg) \<le> fuel + i"
  shows "\<exists>res w'. send_path_loop fuel env cfg sp tid (word_of_nat i) w = Some (res, w') \<and>
    sw_dials w' + i < sw_dials w + unat (rc_max_attempts cfg)"
  using assms(2,3)
proof (induction fuel arbitrary: i w)
  case 0
  then show ?case by simp
next
  case (Suc fuel)
  obtain r1 w1 where at: "send_attempt env tid w = (r1, w1)" by fastforce
  have d: "sw_dials w1 = sw_dials w" using send_attempt_dials [of env tid w] at by simp
  show ?case
  proof (cases "\<exists>e. r1 = Inl (Err e) \<and> is_recoverable e \<and> should_retry cfg (word_of_nat i)")
    case False
    with at d Suc.prems(1) show ?thesis
      by (cases r1; cases "projl r1") auto
  next
    case True
    then obtain e where e: "r1 = Inl (Err e)" "is_recoverable e" "should_retry cfg (word_of_nat i)" by blast
    let ?w2 = "sleep_and_reconnect env (backoff_delay cfg (word_of_nat i)) (save_state env sp w1)"
    have "i < 2 ^ 32 - 1" using Suc.prems(1) unsigned_less [of "rc_max_attempts cfg", where 'a = nat] by simp
    then have more: "Suc i < unat (rc_max_attempts cfg)" using e(3) should_retry_nat [of i cfg] assms(1) by simp
    have "unat (rc_max_attempts cfg) \<le> fuel + Suc i" using Suc.prems(2) by simp
    from Suc.IH [OF more this, of ?w2] obtain res w' where
        "send_path_loop fuel env cfg sp tid (word_of_nat (Suc i)) ?w2 = Some (res, w')"
        "sw_dials w' + Suc i < sw_dials ?w2 + unat (rc_max_attempts cfg)" by blast
    then show ?thesis using at e d by (simp add: add.commute)
  qed
qed


text \<open>The world at the start of attempt \<open>i\<close>, when all before it failed in a way that is retried.\<close>

primrec attempt_world :: "send_env \<Rightarrow> reconnect_config \<Rightarrow> string option \<Rightarrow> uuid \<Rightarrow> send_world \<Rightarrow> nat \<Rightarrow> send_world" where
  "attempt_world env cfg sp tid w 0 = w"
| "attempt_world env cfg sp tid w (Suc i) =
     sleep_and_reconnect env (backoff_delay cfg (word_of_nat i))
       (save_state env sp (snd (send_attempt env tid (attempt_world env cfg sp tid w i))))"

lemma send_path_loop_attempts:
  assumes "\<forall>i < j. \<exists>e. fst (send_attempt env tid (attempt_world env cfg sp tid w i)) = Inl (Err e) \<and> is_recoverable e"
    and "rc_max_attempts cfg = 0 \<or> j < unat (rc_max_attempts cfg)" "j \<le> fuel"
  shows "send_path_loop fuel env cfg sp tid 0 w =
    send_path_loop (fuel - j) env cfg sp tid (word_of_nat j) (attempt_world env cfg sp tid w j)"
  using assms
proof (induction j)
  case 0
  then show ?case by simp
next
  case (Suc j)
  let ?w = "attempt_world env cfg sp tid w j"
  obtain e w1 where at: "send_attempt env tid ?w = (Inl (Err e), w1)" "is_recoverable e"
    using Suc.prems(1) by (metis lessI prod.collapse)
  have "should_retry cfg (word_of_nat j)"
    using Suc.prems(2) should_retry_nat [of j cfg] unsigned_less [of "rc_max_attempts cfg", where 'a = nat]
    by (auto simp: should_retry_def)
  moreover have "fuel - j = Suc (fuel - Suc j)" using Suc.prems(3) by simp
  moreover have "send_path_loop fuel env cfg sp tid 0 w = send_path_loop (fuel - j) env cfg sp tid (word_of_nat j) ?w"
    using Suc by (intro Suc.IH) auto
  ultimately show ?case using at by (simp add: add.commute)
qed

text \<open>
  C12: attempts that end in a recoverable error are made up for: as soon as one attempt
  within the limit, or any attempt when there is none, gets through, \<open>send_path\<close> succeeds with what
  that attempt delivered, however many connections broke or could not be re-established before.
\<close>

theorem send_path_recovers:
  assumes "sd_source env \<noteq> None" "st = initial_state env sp (fst ids) w"
    and "tid = (if ft_files st = [] then snd ids else ft_transfer_id st)"
    and "world = attempt_world env cfg sp tid (w\<lparr> sw_state := st \<rparr>)"
    and "\<forall>i < j. \<exists>e. fst (send_attempt env tid (world i)) = Inl (Err e) \<and> is_recoverable e"
    and "rc_max_attempts cfg = 0 \<or> j < unat (rc_max_attempts cfg)" "j < fuel"
    and "send_attempt env tid (world j) = (Inr (), w1)"
  shows "send_path fuel env cfg sp ids w = Some (Inr (summary_of_state (sw_state w1)), remove_state sp w1)"
proof -
  have "fuel - j = Suc (fuel - Suc j)" using assms(7) by simp
  with send_path_loop_attempts [of j env tid cfg sp "w\<lparr> sw_state := st \<rparr>" fuel] assms(4-8)
  have "send_path_loop fuel env cfg sp tid 0 (w\<lparr> sw_state := st \<rparr>) =
      Some (Inr (summary_of_state (sw_state w1)), remove_state sp w1)"
    by simp
  then show ?thesis unfolding send_path_eq [OF assms(1,2)] assms(3) .
qed

section \<open>A file sent in one attempt\<close>

definition demo_send_env :: send_env where
  "demo_send_env = \<lparr> sd_net = demo_dial_env, sd_folder = (\<lambda>n. demo_fenv), sd_disk = [''d/a'' \<mapsto> [5]], sd_path = ''d/a'',
     sd_source = Some (FileNode [5] 0), sd_to_json = (\<lambda>st. Inl []), sd_of_json = (\<lambda>s. Inl []) \<rparr>"

definition demo_world :: send_world where
  "demo_world = \<lparr> sw_session = \<lparr> pe_endpoint = SocketAddr (V4 0) 1, pe_connection = demo_conn (frame_of [1] @ frame_of [2]),
       pe_identity = \<lparr> id_cert_der = [], id_key_der = [], id_fingerprint = 3 \<rparr>, pe_session_id = Uuid 1, pe_device_id = Uuid 4,
       pe_handshake = \<lparr> hr_peer_device_id = Uuid 7, hr_peer_fingerprint = 8, hr_config = demo_config \<rparr>,
       pe_initiator_target = None \<rparr>,
     sw_state = folder_state_new (Uuid 7) [] [] demo_config, sw_files = Map.empty, sw_progress = None, sw_now = 0, sw_dials = 0 \<rparr>"

lemma demo_fresh: "initial_state demo_send_env None (Uuid 7) demo_world = folder_state_new (Uuid 7) [] [] demo_config"
  by (simp add: initial_state_def fresh_state_def session_config_def demo_world_def)

lemma demo_attempt: "\<exists>w1. send_attempt demo_send_env (Uuid 7) demo_world = (Inr (), w1)"
proof -
  have "attempt_start (Uuid 7) demo_world = demo_sender"
    by (simp add: attempt_start_def demo_world_def demo_sender_def session_config_def)
  with demo_send_run show ?thesis by (auto simp: send_attempt_def demo_send_env_def)
qed

lemma demo_send_path:
  "\<exists>w1. send_path 5 demo_send_env reconnect_default None (Uuid 7, Uuid 7) demo_world =
     Some (Inr (summary_of_state (sw_state w1)), w1)"
proof -
  obtain w1 where "send_attempt demo_send_env (Uuid 7) demo_world = (Inr (), w1)" using demo_attempt by blast
  moreover have "demo_world\<lparr> sw_state := folder_state_new (Uuid 7) [] [] demo_config \<rparr> = demo_world"
    by (simp add: demo_world_def)
  moreover have "ft_files (folder_state_new (Uuid 7) [] [] demo_config) = []" by (simp add: folder_state_new_def)
  moreover have "sd_source demo_send_env \<noteq> None" by (simp add: demo_send_env_def)
  ultimately show ?thesis
    by (simp add: send_path_def demo_fresh numeral_eq_Suc remove_state_def)
qed

lemma demo_sound: "sound_source demo_send_env ''d'' (\<lambda>x. Inl [])"
proof -
  have a: "join ''d'' ''a'' = ''d/a''" by code_simp
  have "file_name ''d/a'' = Some ''a''" by code_simp
  moreover have "sources_ok [''d/a'' \<mapsto> [5]] ''d'' files \<and> length files \<le> 2 ^ 32"
    if "list_files ''d/a'' (Some (FileNode [5] 0)) ''a'' = Inr files" for files
    using that a by (auto simp: list_files_def metadata_of_def sources_ok_def)
  ultimately show ?thesis
    using demo_base by (simp add: sound_source_def demo_send_env_def demo_fenv_def inverts_def)
qed

lemma demo_resumable:
  "resumable demo_send_env ''d'' (session_config demo_world) (folder_state_new (Uuid 7) [] [] demo_config)"
  by (simp add: resumable_def session_config_def demo_world_def demo_config_def config_default_def folder_state_new_def
      DEFAULT_CHUNK_SIZE_def)

theorem send_path_resumes_witness:
  "\<exists>sm w'. send_path 5 demo_send_env reconnect_default None (Uuid 7, Uuid 7) demo_world = Some (Inr sm, w') \<and>
     {..<length (ft_files (sw_state w'))} \<subseteq> set (ft_completed_files (sw_state w'))"
proof -
  obtain sm w' where run: "send_path 5 demo_send_env reconnect_default None (Uuid 7, Uuid 7) demo_world = Some (Inr sm, w')"
    using demo_send_path by blast
  have "state_text_ok demo_send_env" "sd_source demo_send_env \<noteq> None" by (simp_all add: state_text_ok_def demo_send_env_def)
  from send_path_resumes [OF run demo_sound this, of "folder_state_new (Uuid 7) [] [] demo_config"]
    demo_fresh demo_resumable run
  show ?thesis by auto
qed


theorem send_path_recovers_witness:
  "\<exists>w1. send_path 5 demo_send_env reconnect_default None (Uuid 7, Uuid 7) demo_world =
     Some (Inr (summary_of_state (sw_state w1)), remove_state None w1)"
proof -
  let ?st = "folder_state_new (Uuid 7) [] [] demo_config"
  let ?world = "attempt_world demo_send_env reconnect_default None (Uuid 7) (demo_world\<lparr> sw_state := ?st \<rparr>)"
  obtain w1 where w1: "send_attempt demo_send_env (Uuid 7) demo_world = (Inr (), w1)" using demo_attempt by blast
  have "?world 0 = demo_world" by (simp add: demo_world_def)
  with w1 send_path_recovers [of demo_send_env ?st None "(Uuid 7, Uuid 7)" demo_world "Uuid 7" ?world reconnect_default 0 5 w1]
    demo_fresh
  show ?thesis by (auto simp: demo_send_env_def folder_state_new_def reconnect_default_def)
qed

end
