(* ===== verification/Discovery.thy ===== *)
theory Discovery
  imports Identity
begin

text \<open>
  Discovery on the local network: the UDP beacons of \<open>p2p-core/src/network/udp.rs\<close>, the table of
  peers of \<open>p2p-core/src/discovery.rs\<close> that the receiving and the clean-up task share, and
  \<open>discover_one_peer\<close> of \<open>session.rs\<close>. The tasks take turns on the lock of the table, so a run is a
  sequence of their turns. The clock and what the socket does are parameters, as is the MessagePack
  form of a beacon and the order in which a \<open>HashMap\<close> lists its values.
\<close>

section \<open>The service\<close>

definition MAX_PACKET_SIZE :: nat where "MAX_PACKET_SIZE = 1500"
definition DEFAULT_DISCOVERY_PORT :: u16 where "DEFAULT_DISCOVERY_PORT = 14566"

record discovery_service =
  ds_device_id :: uuid
  ds_device_name :: string
  ds_transfer_port :: u16
  ds_cert_fingerprint :: fingerprint
  ds_broadcast_addr :: socket_addr

record beacon_codec =
  bk_to_vec :: "discovery_beacon \<Rightarrow> string + bytes"
  bk_from_slice :: "bytes \<Rightarrow> string + discovery_beacon"

record udp_env =
  ud_bind :: "socket_addr \<Rightarrow> io_error option"
  ud_set_broadcast :: "io_error option"

definition discovery_service_new ::
  "udp_env \<Rightarrow> uuid \<Rightarrow> string \<Rightarrow> u16 \<Rightarrow> fingerprint \<Rightarrow> discovery_service result" where
  "discovery_service_new u new_id name port fp =
     (case ud_bind u (SocketAddr (V4 0) DEFAULT_DISCOVERY_PORT) of
        Some e \<Rightarrow> Inl (Network e)
      | None \<Rightarrow>
          (case ud_set_broadcast u of
             Some e \<Rightarrow> Inl (Network e)
           | None \<Rightarrow>
               Inr \<lparr> ds_device_id = new_id, ds_device_name = name, ds_transfer_port = port,
                     ds_cert_fingerprint = fp,
                     ds_broadcast_addr = SocketAddr (V4 (- 1)) DEFAULT_DISCOVERY_PORT \<rparr>))"

definition create_beacon :: "discovery_service \<Rightarrow> discovery_beacon" where
  "create_beacon s =
     \<lparr> db_version = PROTOCOL_VERSION, db_device_id = ds_device_id s, db_device_name = ds_device_name s,
       db_port = ds_transfer_port s, db_cert_fingerprint = ds_cert_fingerprint s \<rparr>"

text \<open>The result and the datagram handed to the socket, if it came to that.\<close>

definition broadcast_beacon ::
  "beacon_codec \<Rightarrow> (bytes \<Rightarrow> io_error option) \<Rightarrow> discovery_service \<Rightarrow> unit result \<times> (socket_addr \<times> bytes) option" where
  "broadcast_beacon bk send_to s =
     (case bk_to_vec bk (create_beacon s) of
        Inl e \<Rightarrow> (Inl (Serialization e), None)
      | Inr data \<Rightarrow>
          (if MAX_PACKET_SIZE < length data
           then (Inl (Protocol (''Beacon too large: '' @ show_nat (length data) @ '' bytes'')), None)
           else (case send_to data of
                   Some e \<Rightarrow> (Inl (Network e), None)
                 | None \<Rightarrow> (Inr (), Some (ds_broadcast_addr s, data)))))"

text \<open>The receive buffer cuts a longer datagram off.\<close>

definition recv_beacon ::
  "beacon_codec \<Rightarrow> io_error + bytes \<times> socket_addr \<Rightarrow> (discovery_beacon \<times> socket_addr) result" where
  "recv_beacon bk received =
     (case received of
        Inl e \<Rightarrow> Inl (Network e)
      | Inr (datagram, src_addr) \<Rightarrow>
          (case bk_from_slice bk (take MAX_PACKET_SIZE datagram) of
             Inl e \<Rightarrow> Inl (Protocol (''Invalid beacon: '' @ e))
           | Inr beacon \<Rightarrow>
               (if db_version beacon \<noteq> PROTOCOL_VERSION
                then Inl (VersionMismatch (db_version beacon) PROTOCOL_VERSION)
                else Inr (beacon, src_addr))))"

section \<open>Peers\<close>

record lan_peer =
  lp_device_id :: uuid
  lp_device_name :: string
  lp_address :: ip_addr
  lp_port :: u16
  lp_cert_fingerprint :: fingerprint
  lp_last_seen :: rat

text \<open>A clock that went back past the last sighting makes the peer dead.\<close>

definition is_alive :: "rat \<Rightarrow> rat \<Rightarrow> lan_peer \<Rightarrow> bool" where
  "is_alive now ttl p \<longleftrightarrow> (if lp_last_seen p \<le> now then now - lp_last_seen p < ttl else False)"

definition update_last_seen :: "rat \<Rightarrow> lan_peer \<Rightarrow> lan_peer" where
  "update_last_seen now p = p\<lparr> lp_last_seen := now \<rparr>"

definition lan_socket_addr :: "lan_peer \<Rightarrow> socket_addr" where
  "lan_socket_addr p = SocketAddr (lp_address p) (lp_port p)"

definition lan_peer_from :: "rat \<Rightarrow> discovery_beacon \<Rightarrow> ip_addr \<Rightarrow> lan_peer" where
  "lan_peer_from now b address =
     \<lparr> lp_device_id = db_device_id b, lp_device_name = db_device_name b, lp_address = address,
       lp_port = db_port b, lp_cert_fingerprint = db_cert_fingerprint b, lp_last_seen = now \<rparr>"

section \<open>The manager\<close>

record discovery_manager =
  dm_service :: discovery_service
  dm_peers :: "uuid \<rightharpoonup> lan_peer"
  dm_peer_ttl :: rat

definition discovery_manager_new ::
  "udp_env \<Rightarrow> uuid \<Rightarrow> string \<Rightarrow> u16 \<Rightarrow> fingerprint \<Rightarrow> rat \<Rightarrow> discovery_manager result" where
  "discovery_manager_new u new_id name port fp ttl =
     rbind (discovery_service_new u new_id name port fp)
       (\<lambda>s. Inr \<lparr> dm_service = s, dm_peers = Map.empty, dm_peer_ttl = ttl \<rparr>)"

text \<open>
  One turn of the receiving task. The peer information is built when the beacon is \<open>heard\<close>, before
  the lock is taken; an entry that exists is refreshed at the time the lock is held.
\<close>

definition receiver_turn ::
  "beacon_codec \<Rightarrow> rat \<Rightarrow> rat \<Rightarrow> io_error + bytes \<times> socket_addr \<Rightarrow> discovery_manager \<Rightarrow> discovery_manager" where
  "receiver_turn bk heard now received m =
     (case recv_beacon bk received of
        Inl e \<Rightarrow> m
      | Inr (beacon, src_addr) \<Rightarrow>
          (if db_device_id beacon = ds_device_id (dm_service m) then m
           else let peer_info = lan_peer_from heard beacon (sa_ip src_addr) in
             (case dm_peers m (db_device_id beacon) of
                Some existing \<Rightarrow>
                  m\<lparr> dm_peers := (dm_peers m)(db_device_id beacon \<mapsto> update_last_seen now existing) \<rparr>
              | None \<Rightarrow> m\<lparr> dm_peers := (dm_peers m)(db_device_id beacon \<mapsto> peer_info) \<rparr>)))"

text \<open>One turn of the clean-up task: \<open>retain\<close>.\<close>

definition cleanup_turn :: "rat \<Rightarrow> discovery_manager \<Rightarrow> discovery_manager" where
  "cleanup_turn now m =
     m\<lparr> dm_peers := (\<lambda>k. case dm_peers m k of
          None \<Rightarrow> None
        | Some p \<Rightarrow> (if is_alive now (dm_peer_ttl m) p then Some p else None)) \<rparr>"

datatype lan_turn =
    Heard (heard_at: rat) (turn_at: rat) (heard_what: "io_error + bytes \<times> socket_addr")
  | Cleanup (turn_at: rat)

fun lan_step :: "beacon_codec \<Rightarrow> lan_turn \<Rightarrow> discovery_manager \<Rightarrow> discovery_manager" where
  "lan_step bk (Heard heard now received) m = receiver_turn bk heard now received m"
| "lan_step bk (Cleanup now) m = cleanup_turn now m"

text \<open>What the two tasks that \<open>start\<close> spawns have done after the given turns.\<close>

definition lan_run :: "beacon_codec \<Rightarrow> lan_turn list \<Rightarrow> discovery_manager \<Rightarrow> discovery_manager" where
  "lan_run bk turns m = fold (lan_step bk) turns m"

definition get_peers :: "uuid list \<Rightarrow> discovery_manager \<Rightarrow> lan_peer list" where
  "get_peers order m = List.map_filter (dm_peers m) order"

definition get_peer :: "uuid \<Rightarrow> discovery_manager \<Rightarrow> lan_peer option" where
  "get_peer device_id m = dm_peers m device_id"

definition peer_count :: "uuid list \<Rightarrow> discovery_manager \<Rightarrow> nat" where
  "peer_count order m = length (get_peers order m)"

definition str_contains :: "string \<Rightarrow> string \<Rightarrow> bool" where
  "str_contains hay needle \<longleftrightarrow> (\<exists>n \<in> {0..length hay}. take (length needle) (drop n hay) = needle)"

text \<open>The standard \<open>to_lowercase\<close> is a parameter.\<close>

definition find_peer_by_name ::
  "(string \<Rightarrow> string) \<Rightarrow> uuid list \<Rightarrow> string \<Rightarrow> discovery_manager \<Rightarrow> lan_peer option" where
  "find_peer_by_name to_lowercase order name m =
     List.find (\<lambda>p. str_contains (to_lowercase (lp_device_name p)) (to_lowercase name)) (get_peers order m)"

text \<open>
  \<open>discover_one_peer\<close> of \<open>session.rs\<close>: what the tasks did in the three seconds it sleeps, and the
  first peer the table lists.
\<close>

definition discover_one_peer ::
  "udp_env \<Rightarrow> beacon_codec \<Rightarrow> (uuid \<Rightarrow> string) \<Rightarrow> uuid \<Rightarrow> u16 \<Rightarrow> identity \<Rightarrow> uuid \<Rightarrow> lan_turn list \<Rightarrow> uuid list \<Rightarrow>
     (socket_addr \<times> fingerprint) result" where
  "discover_one_peer u bk uuid_text new_id port ident device_id turns order =
     rbind (discovery_manager_new u new_id (''p2p-'' @ take 8 (uuid_text device_id)) port (id_fingerprint ident) 10)
       (\<lambda>manager.
         (case get_peers order (lan_run bk turns manager) of
            [] \<Rightarrow> Inl (Protocol ''No peers discovered. Make sure a peer is running in server mode.'')
          | peer # _ \<Rightarrow> Inr (lan_socket_addr peer, lp_cert_fingerprint peer)))"

section \<open>What the table holds\<close>

text \<open>An accepted beacon of device \<open>d\<close>.\<close>

fun heard_from :: "beacon_codec \<Rightarrow> uuid \<Rightarrow> lan_turn \<Rightarrow> bool" where
  "heard_from bk d (Heard heard now received) =
     (case recv_beacon bk received of Inl e \<Rightarrow> False | Inr (b, a) \<Rightarrow> db_device_id b = d)"
| "heard_from bk d (Cleanup now) = False"

text \<open>The peer information a turn may enter.\<close>

fun announced :: "beacon_codec \<Rightarrow> lan_turn \<Rightarrow> lan_peer option" where
  "announced bk (Heard heard now received) =
     (case recv_beacon bk received of Inl e \<Rightarrow> None | Inr (b, a) \<Rightarrow> Some (lan_peer_from heard b (sa_ip a)))"
| "announced bk (Cleanup now) = None"

text \<open>The clock does not go back, and a beacon is heard before its turn at the lock.\<close>

fun timely :: "lan_turn list \<Rightarrow> bool" where
  "timely turns =
     (sorted (map turn_at turns) \<and>
      (\<forall>t \<in> set turns. case t of Heard heard now received \<Rightarrow> heard \<le> now | Cleanup now \<Rightarrow> True))"

definition same_announcement :: "lan_peer \<Rightarrow> lan_peer \<Rightarrow> bool" where
  "same_announcement p q \<longleftrightarrow> p\<lparr> lp_last_seen := 0 \<rparr> = q\<lparr> lp_last_seen := 0 \<rparr>"

lemma same_announcement_refl [simp]: "same_announcement p p"
  by (simp add: same_announcement_def)

lemma same_announcement_update [simp]:
  "same_announcement (update_last_seen now p) q = same_announcement p q"
  by (simp add: same_announcement_def update_last_seen_def)

lemma lp_update_last_seen [simp]:
  "lp_last_seen (update_last_seen now p) = now"
  "lp_device_id (update_last_seen now p) = lp_device_id p"
  by (simp_all add: update_last_seen_def)

lemma lan_peer_from_simps [simp]:
  "lp_last_seen (lan_peer_from now b a) = now"
  "lp_device_id (lan_peer_from now b a) = db_device_id b"
  by (simp_all add: lan_peer_from_def)

lemma lan_step_frame [simp]:
  "dm_service (lan_step bk t m) = dm_service m"
  "dm_peer_ttl (lan_step bk t m) = dm_peer_ttl m"
  by (cases t; simp add: receiver_turn_def cleanup_turn_def Let_def split: sum.splits option.splits prod.splits)+

lemma lan_run_Nil [simp]: "lan_run bk [] m = m"
  by (simp add: lan_run_def)

lemma lan_run_snoc [simp]: "lan_run bk (turns @ [t]) m = lan_step bk t (lan_run bk turns m)"
  by (simp add: lan_run_def)

lemma lan_run_frame [simp]:
  "dm_service (lan_run bk turns m) = dm_service m"
  "dm_peer_ttl (lan_run bk turns m) = dm_peer_ttl m"
  by (induction turns rule: rev_induct) simp_all

text \<open>A turn changes the entry of one device: it refreshes, enters or drops it.\<close>

lemma lan_step_peers:
  assumes "dm_peers (lan_step bk t m) d = Some p"
  shows "(dm_peers m d = Some p \<and> (case t of Heard h n r \<Rightarrow> \<not> heard_from bk d t \<or> d = ds_device_id (dm_service m)
             | Cleanup now \<Rightarrow> is_alive now (dm_peer_ttl m) p))
       \<or> (heard_from bk d t \<and> d \<noteq> ds_device_id (dm_service m) \<and>
           ((\<exists>q. dm_peers m d = Some q \<and> p = update_last_seen (turn_at t) q)
            \<or> dm_peers m d = None \<and> announced bk t = Some p \<and> lp_last_seen p = heard_at t))"
  using assms
  by (cases t) (auto simp: receiver_turn_def cleanup_turn_def Let_def split: sum.splits option.splits prod.splits if_splits)

lemma lan_step_heard:
  assumes "heard_from bk d t" "d \<noteq> ds_device_id (dm_service m)"
  shows "\<exists>p. dm_peers (lan_step bk t m) d = Some p \<and> (lp_last_seen p = turn_at t \<or> lp_last_seen p = heard_at t)"
  using assms
  by (cases t) (auto simp: receiver_turn_def Let_def split: sum.splits option.splits prod.splits if_splits)

lemma lan_step_keeps:
  assumes "dm_peers m d = Some p" and "case t of Heard h n r \<Rightarrow> True | Cleanup now \<Rightarrow> is_alive now (dm_peer_ttl m) p"
  shows "\<exists>q. dm_peers (lan_step bk t m) d = Some q \<and> same_announcement q p \<and>
             (lp_last_seen q = lp_last_seen p \<or> heard_from bk d t \<and> lp_last_seen q = turn_at t)"
  using assms
  by (cases t) (auto simp: receiver_turn_def cleanup_turn_def Let_def split: sum.splits option.splits prod.splits if_splits)

text \<open>Every entry is what an accepted beacon of its device announced, and its time is that of such a beacon.\<close>

lemma lan_run_entries:
  assumes "dm_peers m = Map.empty" "timely turns" "dm_peers (lan_run bk turns m) d = Some p"
  shows "d \<noteq> ds_device_id (dm_service m) \<and> lp_device_id p = d
     \<and> (\<exists>t \<in> set turns. \<exists>q. announced bk t = Some q \<and> same_announcement p q)
     \<and> (\<exists>t \<in> set turns. heard_from bk d t \<and> lp_last_seen p \<le> turn_at t)"
  using assms(2,3)
proof (induction turns arbitrary: p rule: rev_induct)
  case Nil
  then show ?case using assms(1) by simp
next
  case (snoc t turns)
  have tm: "timely turns" using snoc.prems(1) by (auto simp: sorted_append)
  have ht: "heard_from bk d t \<Longrightarrow> heard_at t \<le> turn_at t"
    using snoc.prems(1) by (cases t) auto
  consider (kept) "dm_peers (lan_run bk turns m) d = Some p"
    | (fresh) q where "heard_from bk d t" "dm_peers (lan_run bk turns m) d = Some q" "p = update_last_seen (turn_at t) q"
    | (entered) "heard_from bk d t" "d \<noteq> ds_device_id (dm_service m)" "announced bk t = Some p" "lp_last_seen p = heard_at t"
    using lan_step_peers [of bk t "lan_run bk turns m" d p] snoc.prems(2) by auto
  then show ?case
  proof cases
    case kept
    then show ?thesis using snoc.IH [OF tm kept] by auto
  next
    case fresh
    then show ?thesis using snoc.IH [OF tm fresh(2)] by auto
  next
    case entered
    have "lp_device_id p = d"
      using entered(1,3) by (cases t) (auto split: sum.splits)
    then show ?thesis using entered ht by auto
  qed
qed

text \<open>A device heard recently enough is not dropped.\<close>

lemma lan_run_stays:
  assumes "dm_peers m = Map.empty" and "d \<noteq> ds_device_id (dm_service m)"
    and "timely turns" "t \<in> set turns" "heard_from bk d t"
    and "\<forall>u \<in> set turns. turn_at u - heard_at t < dm_peer_ttl m"
  shows "\<exists>p. dm_peers (lan_run bk turns m) d = Some p \<and> heard_at t \<le> lp_last_seen p"
  using assms(3,4,6)
proof (induction turns rule: rev_induct)
  case Nil
  then show ?case by simp
next
  case (snoc u turns)
  let ?m = "lan_run bk turns m"
  have tm: "timely turns" and last: "\<forall>v \<in> set turns. turn_at v \<le> turn_at u"
    using snoc.prems(1) by (auto simp: sorted_append)
  have ht: "heard_at t \<le> turn_at t"
    using snoc.prems(1,2) assms(5) by (cases t) auto
  show ?case
  proof (cases "t \<in> set turns")
    case True
    then obtain p where p: "dm_peers ?m d = Some p" "heard_at t \<le> lp_last_seen p"
      using snoc.IH [OF tm True] snoc.prems(3) by auto
    have seen: "lp_last_seen p \<le> turn_at u"
      using lan_run_entries [OF assms(1) tm p(1)] last by force
    have "turn_at u - heard_at t < dm_peer_ttl m" using snoc.prems(3) by simp
    then have "case u of Heard h n r \<Rightarrow> True | Cleanup now \<Rightarrow> is_alive now (dm_peer_ttl ?m) p"
      using p(2) seen by (cases u) (auto simp: is_alive_def)
    then obtain q where "dm_peers (lan_step bk u ?m) d = Some q"
        "lp_last_seen q = lp_last_seen p \<or> lp_last_seen q = turn_at u"
      using lan_step_keeps [OF p(1)] by blast
    then show ?thesis using p(2) seen by auto
  next
    case False
    then have "t = u" using snoc.prems(2) by simp
    then obtain p where
      "dm_peers (lan_step bk u ?m) d = Some p" "lp_last_seen p = turn_at t \<or> lp_last_seen p = heard_at t"
      using lan_step_heard [of bk d u ?m] assms(2,5) by auto
    then show ?thesis using ht by auto
  qed
qed

text \<open>
  An entry that is there is only refreshed: the address, port and fingerprint stay those of the
  beacon that entered it, whatever later beacons of the device say, until it is dropped.
\<close>

lemma announcement_sticks:
  assumes "\<forall>n \<le> length turns. dm_peers (lan_run bk (take n turns) m) d \<noteq> None"
    and "dm_peers m d = Some p" "dm_peers (lan_run bk turns m) d = Some q"
  shows "same_announcement q p"
  using assms(1,3)
proof (induction turns arbitrary: q rule: rev_induct)
  case Nil
  then show ?case using assms(2) by simp
next
  case (snoc t turns)
  have before: "\<forall>n \<le> length turns. dm_peers (lan_run bk (take n turns) m) d \<noteq> None"
  proof (intro allI impI)
    fix n assume n: "n \<le> length turns"
    then have "take n (turns @ [t]) = take n turns" by simp
    then show "dm_peers (lan_run bk (take n turns) m) d \<noteq> None" using snoc.prems(1) n by (metis le_SucI length_append_singleton)
  qed
  then obtain r where r: "dm_peers (lan_run bk turns m) d = Some r" by force
  have "same_announcement q r"
    using lan_step_peers [of bk t "lan_run bk turns m" d q] snoc.prems(2) r by auto
  with snoc.IH [OF before r] show ?case by (simp add: same_announcement_def)
qed

lemma discovery_manager_new_Inr:
  "discovery_manager_new u new_id name port fp ttl = Inr m \<Longrightarrow>
     dm_peers m = Map.empty \<and> ds_device_id (dm_service m) = new_id \<and> dm_peer_ttl m = ttl \<and>
     ds_device_name (dm_service m) = name"
  by (auto simp: discovery_manager_new_def discovery_service_new_def split: option.splits)

text \<open>
  C24: the table of the local network after any turns of its tasks. Right after a clean-up it
  lists every other device an accepted beacon of which was heard within the time to live and none
  that has been silent longer; this device itself never; and each entry is, in its address, port,
  name and fingerprint, what one accepted beacon of that device announced.
\<close>

theorem lan_table_current:
  assumes "discovery_manager_new u own name port fp ttl = Inr m"
    and "timely (turns @ [Cleanup now])"
    and "table = dm_peers (lan_run bk (turns @ [Cleanup now]) m)"
  shows "(\<forall>d t. d \<noteq> own \<and> t \<in> set turns \<and> heard_from bk d t \<and> now - heard_at t < ttl \<longrightarrow> table d \<noteq> None)
       \<and> (\<forall>d p. table d = Some p \<longrightarrow>
            d \<noteq> own \<and> lp_device_id p = d \<and>
            (\<exists>t \<in> set turns. heard_from bk d t \<and> now - turn_at t < ttl) \<and>
            (\<exists>t \<in> set turns. \<exists>q. announced bk t = Some q \<and> same_announcement p q))"
proof (intro conjI allI impI)
  note m = discovery_manager_new_Inr [OF assms(1)]
  have tm: "timely turns" and before: "\<forall>t \<in> set turns. turn_at t \<le> now"
    using assms(2) by (auto simp: sorted_append)
  fix d t
  assume "d \<noteq> own \<and> t \<in> set turns \<and> heard_from bk d t \<and> now - heard_at t < ttl"
  then have d: "d \<noteq> own" and t: "t \<in> set turns" "heard_from bk d t" and recent: "now - heard_at t < ttl"
    by blast+
  have "\<forall>v \<in> set (turns @ [Cleanup now]). turn_at v - heard_at t < dm_peer_ttl m"
    using before recent m by fastforce
  then show "table d \<noteq> None"
    using lan_run_stays [OF _ _ assms(2), of m d t bk] m d t assms(3) by auto
next
  note m = discovery_manager_new_Inr [OF assms(1)]
  have tm: "timely turns" using assms(2) by (auto simp: sorted_append)
  fix d p
  assume "table d = Some p"
  then have p: "dm_peers (lan_run bk turns m) d = Some p" "is_alive now ttl p"
    using m by (auto simp: assms(3) cleanup_turn_def split: option.splits if_splits)
  note e = lan_run_entries [OF _ tm p(1)]
  show "d \<noteq> own" "lp_device_id p = d" using e m by auto
  show "\<exists>t \<in> set turns. heard_from bk d t \<and> now - turn_at t < ttl"
    using e m p(2) by (force simp: is_alive_def split: if_splits)
  show "\<exists>t \<in> set turns. \<exists>q. announced bk t = Some q \<and> same_announcement p q"
    using e m by auto
qed

definition demo_beacon :: discovery_beacon where
  "demo_beacon = \<lparr> db_version = 3, db_device_id = Uuid 2, db_device_name = ''b'', db_port = 14567, db_cert_fingerprint = 7 \<rparr>"

definition demo_beacons :: beacon_codec where
  "demo_beacons = \<lparr> bk_to_vec = (\<lambda>b. Inr [1]), bk_from_slice = (\<lambda>d. if d = [1] then Inr demo_beacon else Inl ''?'') \<rparr>"

definition demo_udp :: udp_env where
  "demo_udp = \<lparr> ud_bind = (\<lambda>a. None), ud_set_broadcast = None \<rparr>"

definition demo_manager :: discovery_manager where
  "demo_manager = \<lparr> dm_service = \<lparr> ds_device_id = Uuid 1, ds_device_name = ''a'', ds_transfer_port = 14567,
      ds_cert_fingerprint = 5, ds_broadcast_addr = SocketAddr (V4 (- 1)) 14566 \<rparr>,
     dm_peers = Map.empty, dm_peer_ttl = 10 \<rparr>"

definition demo_turns :: "lan_turn list" where
  "demo_turns = [Heard 1 2 (Inr ([1], SocketAddr (V4 9) 40000)), Cleanup 5, Heard 6 6 (Inr ([2], SocketAddr (V4 9) 40000))]"

theorem lan_table_current_witness:
  "dm_peers (lan_run demo_beacons (demo_turns @ [Cleanup 10]) demo_manager) (Uuid 2) \<noteq> None
   \<and> dm_peers (lan_run demo_beacons (demo_turns @ [Cleanup 13]) demo_manager) (Uuid 2) = None"
proof -
  have m: "discovery_manager_new demo_udp (Uuid 1) ''a'' 14567 5 10 = Inr demo_manager"
    by (simp add: discovery_manager_new_def discovery_service_new_def demo_udp_def demo_manager_def
        DEFAULT_DISCOVERY_PORT_def)
  have t10: "timely (demo_turns @ [Cleanup 10])" and t13: "timely (demo_turns @ [Cleanup 13])"
    by (simp_all add: demo_turns_def)
  have h: "heard_from demo_beacons (Uuid 2) (Heard 1 2 (Inr ([1], SocketAddr (V4 9) 40000)))"
    by (simp add: recv_beacon_def demo_beacons_def demo_beacon_def MAX_PACKET_SIZE_def PROTOCOL_VERSION_def)
  have h2: "\<not> heard_from demo_beacons (Uuid 2) (Heard 6 6 (Inr ([2], SocketAddr (V4 9) 40000)))"
    by (simp add: recv_beacon_def demo_beacons_def MAX_PACKET_SIZE_def)
  have mem: "Heard 1 2 (Inr ([1], SocketAddr (V4 9) 40000)) \<in> set demo_turns"
    by (simp add: demo_turns_def)
  have "dm_peers (lan_run demo_beacons (demo_turns @ [Cleanup 10]) demo_manager) (Uuid 2) \<noteq> None"
    using conjunct1 [OF lan_table_current [OF m t10 refl, of demo_beacons],
        rule_format, of "Uuid 2" "Heard 1 2 (Inr ([1], SocketAddr (V4 9) 40000))"] h mem
    by simp
  moreover have "dm_peers (lan_run demo_beacons (demo_turns @ [Cleanup 13]) demo_manager) (Uuid 2) = None"
  proof (rule ccontr)
    assume "\<not> ?thesis"
    then obtain t where "t \<in> set demo_turns" "heard_from demo_beacons (Uuid 2) t" "13 - turn_at t < 10"
      using lan_table_current [OF m t13 refl, of demo_beacons] by blast
    then show False using h2 by (auto simp: demo_turns_def)
  qed
  ultimately show ?thesis by blast
qed

section \<open>Finding one peer\<close>

text \<open>What one device broadcasts, another accepts.\<close>

lemma broadcast_is_received:
  assumes "\<forall>b p. bk_to_vec bk b = Inr p \<longrightarrow> bk_from_slice bk p = Inr b"
    and "broadcast_beacon bk send_to s = (Inr (), Some (to, data))"
  shows "to = ds_broadcast_addr s" "recv_beacon bk (Inr (data, src)) = Inr (create_beacon s, src)"
  using assms
  by (auto simp: broadcast_beacon_def recv_beacon_def create_beacon_def split: sum.splits if_splits option.splits)

lemma get_peers_ConsD: "get_peers order m = p # ps \<Longrightarrow> \<exists>d. dm_peers m d = Some p"
proof -
  assume "get_peers order m = p # ps"
  then have "p \<in> set (get_peers order m)" by simp
  then show "\<exists>d. dm_peers m d = Some p" by (force simp: get_peers_def List.map_filter_def)
qed

text \<open>
  The address and fingerprint \<open>discover_one_peer\<close> returns are those of one accepted beacon of another
  device, at the address the datagram came from.
\<close>

lemma discover_one_peer_announced:
  assumes "discover_one_peer u bk uuid_text own port ident device_id turns order = Inr (addr, fp)"
    and "timely turns"
  shows "\<exists>heard now received b src.
           Heard heard now received \<in> set turns \<and> recv_beacon bk received = Inr (b, src) \<and>
           db_device_id b \<noteq> own \<and> addr = SocketAddr (sa_ip src) (db_port b) \<and> fp = db_cert_fingerprint b"
proof -
  obtain m p ps where m: "discovery_manager_new u own (''p2p-'' @ take 8 (uuid_text device_id)) port (id_fingerprint ident) 10 = Inr m"
      and g: "get_peers order (lan_run bk turns m) = p # ps"
      and r: "addr = lan_socket_addr p" "fp = lp_cert_fingerprint p"
    using assms(1) unfolding discover_one_peer_def rbind_Inr_iff
    by (elim exE conjE) (simp split: list.splits)
  obtain d where d: "dm_peers (lan_run bk turns m) d = Some p" using get_peers_ConsD [OF g] by blast
  note mm = discovery_manager_new_Inr [OF m]
  have "d \<noteq> own" "lp_device_id p = d" and "\<exists>t \<in> set turns. \<exists>q. announced bk t = Some q \<and> same_announcement p q"
    using lan_run_entries [OF _ assms(2) d] mm by auto
  then obtain t q where t: "t \<in> set turns" "announced bk t = Some q" "same_announcement p q" by blast
  obtain heard now received b src where
      h: "t = Heard heard now received" "recv_beacon bk received = Inr (b, src)" "q = lan_peer_from heard b (sa_ip src)"
    using t(2) by (cases t) (auto split: sum.splits)
  have "lp_device_id p = db_device_id b" "lp_address p = sa_ip src" "lp_port p = db_port b"
      "lp_cert_fingerprint p = db_cert_fingerprint b"
    using t(3) h(3) by (cases p; simp add: same_announcement_def lan_peer_from_def)+
  then show ?thesis
    using t(1) h(1,2) r \<open>d \<noteq> own\<close> \<open>lp_device_id p = d\<close>
    unfolding lan_socket_addr_def by metis
qed

end
