(* ===== verification/User_Input.thy ===== *)
theory User_Input
  imports Wire_Protocol Bandwidth
begin

text \<open>
  What users type: bandwidth limits (\<open>parse_bandwidth\<close> of \<open>p2p-core/src/bandwidth.rs\<close>), addresses with
  an optional port (\<open>with_default_port\<close> of \<open>p2p-core/src/lib.rs\<close>) and the answer to the prompt of
  the receiving command (\<open>p2p-cli/src/receive.rs\<close>). Text is ASCII here: of \<open>trim\<close> and
  \<open>to_lowercase\<close> the ASCII part is written out. A floating-point number is what \<open>f64\<close> can hold, an
  exact value, an infinity or not a number; reading one from text, with its rounding, is a parameter,
  and so are the standard parsers and the text form of socket addresses.
\<close>

section \<open>Text\<close>

definition is_space :: "char \<Rightarrow> bool" where
  "is_space c \<longleftrightarrow> (of_char c :: nat) \<in> {9..13} \<or> c = CHR '' ''"

definition trim_start :: "string \<Rightarrow> string" where
  "trim_start s = dropWhile is_space s"

definition trim :: "string \<Rightarrow> string" where
  "trim s = rev (trim_start (rev (trim_start s)))"

definition lower :: "char \<Rightarrow> char" where
  "lower c = (let n = of_char c :: nat in if 65 \<le> n \<and> n \<le> 90 then char_of (n + 32) else c)"

definition to_lower :: "string \<Rightarrow> string" where
  "to_lower s = map lower s"

definition ends_with :: "string \<Rightarrow> string \<Rightarrow> bool" where
  "ends_with suffix s \<longleftrightarrow> length suffix \<le> length s \<and> drop (length s - length suffix) s = suffix"

text \<open>\<open>trim_end_matches\<close> takes the suffix off as often as it is there.\<close>

function trim_end_matches :: "string \<Rightarrow> string \<Rightarrow> string" where
  "trim_end_matches suffix s =
     (if suffix \<noteq> [] \<and> ends_with suffix s
      then trim_end_matches suffix (take (length s - length suffix) s) else s)"
  by auto
termination
proof (relation "measure (length \<circ> snd)")
  fix suffix s assume "suffix \<noteq> [] \<and> ends_with suffix s"
  then have "0 < length suffix" "length suffix \<le> length s" by (auto simp: ends_with_def)
  then have "length s - length suffix < length s" by linarith
  then show "((suffix, take (length s - length suffix) s), suffix, s) \<in> measure (length \<circ> snd)" by simp
qed simp

declare trim_end_matches.simps [simp del]

definition digit_val :: "char \<Rightarrow> nat option" where
  "digit_val c = (let n = of_char c :: nat in if 48 \<le> n \<and> n \<le> 57 then Some (n - 48) else None)"

fun digits :: "nat \<Rightarrow> string \<Rightarrow> nat option" where
  "digits acc [] = Some acc"
| "digits acc (c # cs) = (case digit_val c of None \<Rightarrow> None | Some d \<Rightarrow> digits (10 * acc + d) cs)"

text \<open>\<open>str::parse\<close> of an unsigned integer of at most \<open>limit\<close>: one leading plus is allowed.\<close>

definition parse_unsigned :: "nat \<Rightarrow> string \<Rightarrow> nat option" where
  "parse_unsigned limit s =
     (let ds = (case s of c # cs \<Rightarrow> if c = CHR ''+'' then cs else s | [] \<Rightarrow> [])
      in if ds = [] then None
         else case digits 0 ds of None \<Rightarrow> None | Some n \<Rightarrow> if n \<le> limit then Some n else None)"

section \<open>Bandwidth limits\<close>

definition U64_MAX :: nat where "U64_MAX = 2 ^ 64 - 1"

datatype f64 = Finite rat | PosInf | NegInf | NaN

definition below_zero :: "f64 \<Rightarrow> bool" where
  "below_zero x = (case x of Finite r \<Rightarrow> r < 0 | PosInf \<Rightarrow> False | NegInf \<Rightarrow> True | NaN \<Rightarrow> False)"

text \<open>
  The product with a multiplier and the cast to \<open>u64\<close>: the multipliers are powers of two, so the
  product is exact, unless it leaves the range of \<open>f64\<close>, and there the cast gives the largest value
  anyway; the cast truncates, saturates at both ends, and turns a NaN into zero.
\<close>

definition scaled_to_u64 :: "f64 \<Rightarrow> u64 \<Rightarrow> u64" where
  "scaled_to_u64 x multiplier =
     (case x of
        Finite r \<Rightarrow>
          (let v = r * of_nat (unat multiplier)
           in if v < 0 then 0 else if 2 ^ 64 \<le> v then - 1 else word_of_int \<lfloor>v\<rfloor>)
      | PosInf \<Rightarrow> - 1 | NegInf \<Rightarrow> 0 | NaN \<Rightarrow> 0)"

definition bandwidth_unit :: "string \<Rightarrow> (string \<times> u64) option" where
  "bandwidth_unit s =
     (if ends_with ''gb'' s \<or> ends_with ''g'' s
      then Some (trim_end_matches ''g'' (trim_end_matches ''gb'' s), 1024 * 1024 * 1024)
      else if ends_with ''mb'' s \<or> ends_with ''m'' s
      then Some (trim_end_matches ''m'' (trim_end_matches ''mb'' s), 1024 * 1024)
      else if ends_with ''kb'' s \<or> ends_with ''k'' s
      then Some (trim_end_matches ''k'' (trim_end_matches ''kb'' s), 1024)
      else None)"

definition parse_bandwidth :: "(string \<Rightarrow> f64 option) \<Rightarrow> string \<Rightarrow> string + u64" where
  "parse_bandwidth parse_f64 text =
     (let s = to_lower (trim text) in
      if s = ''unlimited'' \<or> s = ''0'' then Inr 0
      else case parse_unsigned U64_MAX s of
        Some n \<Rightarrow> Inr (word_of_nat n)
      | None \<Rightarrow>
          (case bandwidth_unit s of
             None \<Rightarrow> Inl (''Invalid bandwidth format: '' @ s @
                        ''. Use K, M, or G suffix (e.g., '' @ [CHR 0x27] @ ''10M'' @ [CHR 0x27] @ '', '' @
                        [CHR 0x27] @ ''1G'' @ [CHR 0x27] @ '')'')
           | Some (num_str, multiplier) \<Rightarrow>
               (case parse_f64 num_str of
                  None \<Rightarrow> Inl (''Invalid number in bandwidth: '' @ s)
                | Some num \<Rightarrow>
                    (if below_zero num then Inl ''Bandwidth cannot be negative''
                     else Inr (scaled_to_u64 num multiplier)))))"

section \<open>Addresses with an optional port\<close>

record addr_text =
  at_parse_sa :: "string \<Rightarrow> socket_addr option"
  at_parse_ip :: "string \<Rightarrow> ip_addr option"
  at_show_sa :: "socket_addr \<Rightarrow> string"

text \<open>\<open>strip_prefix('[')\<close> and \<open>strip_suffix(']')\<close>.\<close>

definition strip_brackets :: "string \<Rightarrow> string option" where
  "strip_brackets s =
     (case s of
        c # cs \<Rightarrow> if c = CHR ''['' \<and> cs \<noteq> [] \<and> last cs = CHR '']'' then Some (butlast cs) else None
      | [] \<Rightarrow> None)"

text \<open>\<open>rsplit_once(':')\<close>: what is before and after the last colon.\<close>

fun rsplit_colon :: "string \<Rightarrow> (string \<times> string) option" where
  "rsplit_colon [] = None"
| "rsplit_colon (c # cs) =
     (case rsplit_colon cs of
        Some (a, b) \<Rightarrow> Some (c # a, b)
      | None \<Rightarrow> if c = CHR '':'' then Some ([], cs) else None)"

definition host_with_port :: "string \<Rightarrow> bool" where
  "host_with_port s =
     (case rsplit_colon s of
        Some (host, port) \<Rightarrow> host \<noteq> [] \<and> CHR '':'' \<notin> set host \<and> parse_unsigned 65535 port \<noteq> None
      | None \<Rightarrow> False)"

definition with_default_port :: "addr_text \<Rightarrow> string \<Rightarrow> u16 \<Rightarrow> string" where
  "with_default_port tx host_port default_port =
     (if at_parse_sa tx host_port \<noteq> None then host_port
      else case at_parse_ip tx host_port of
        Some ip \<Rightarrow> at_show_sa tx (SocketAddr ip default_port)
      | None \<Rightarrow>
          (case Option.bind (strip_brackets host_port) (at_parse_ip tx) of
             Some ip \<Rightarrow> at_show_sa tx (SocketAddr ip default_port)
           | None \<Rightarrow>
               (if host_with_port host_port then host_port
                else host_port @ '':'' @ show_nat (unat default_port))))"

section \<open>The prompt of the receiving command\<close>

definition eq_ignore_case :: "string \<Rightarrow> string \<Rightarrow> bool" where
  "eq_ignore_case a b \<longleftrightarrow> to_lower a = to_lower b"

text \<open>Only a line that says yes accepts; the end of the input and an error reject.\<close>

definition accept_or_prompt :: "bool \<Rightarrow> io_error + string \<Rightarrow> bool" where
  "accept_or_prompt auto_accept answer =
     (if auto_accept then True
      else case answer of
        Inr line \<Rightarrow> eq_ignore_case (trim line) ''y'' \<or> eq_ignore_case (trim line) ''yes''
      | Inl e \<Rightarrow> False)"

section \<open>Decimal text is read back\<close>

lemma digits_append:
  "digits a (xs @ ys) = (case digits a xs of None \<Rightarrow> None | Some b \<Rightarrow> digits b ys)"
  by (induction xs arbitrary: a) (auto split: option.splits)

lemma digit_val_char: "d < 10 \<Longrightarrow> digit_val (char_of (48 + d)) = Some d"
  by (simp add: digit_val_def of_char_of take_bit_eq_mod)

lemma digits_show_nat: "digits 0 (show_nat n) = Some n"
proof (induction n rule: show_nat.induct)
  case (1 n)
  then show ?case
  proof (cases "n < 10")
    case True
    then show ?thesis by (subst show_nat.simps) (simp add: digit_val_char)
  next
    case False
    with 1 show ?thesis by (subst show_nat.simps) (simp add: digits_append digit_val_char)
  qed
qed

text \<open>The characters of decimal text: no sign, no letter, no space, no colon.\<close>

definition is_digit :: "char \<Rightarrow> bool" where
  "is_digit c \<longleftrightarrow> (of_char c :: nat) \<in> {48..57}"

lemma show_nat_digits: "c \<in> set (show_nat n) \<Longrightarrow> is_digit c"
proof (induction n rule: show_nat.induct)
  case (1 n)
  then show ?case
    by (subst (asm) (2) show_nat.simps) (auto simp: is_digit_def of_char_of take_bit_eq_mod split: if_splits)
qed

lemma is_digit_facts:
  assumes "is_digit c"
  shows "\<not> is_space c" "lower c = c" "c \<noteq> CHR ''+''" "c \<noteq> CHR '':''" "c \<noteq> CHR ''g''" "c \<noteq> CHR ''m''" "c \<noteq> CHR ''k''" "c \<noteq> CHR ''b''"
  using assms by (auto simp: is_digit_def is_space_def lower_def Let_def)

lemma parse_unsigned_show: "n \<le> limit \<Longrightarrow> parse_unsigned limit (show_nat n) = Some n"
proof -
  assume n: "n \<le> limit"
  obtain c cs where c: "show_nat n = c # cs" using show_nat_nonempty by (meson neq_Nil_conv)
  then have "c \<noteq> CHR ''+''" using show_nat_digits [of c n] is_digit_facts(3) by simp
  with c n digits_show_nat [of n] show ?thesis by (simp add: parse_unsigned_def)
qed

lemma trim_id:
  assumes "\<forall>c \<in> set s. \<not> is_space c"
  shows "trim s = s"
proof -
  have "dropWhile is_space t = t" if "\<forall>c \<in> set t. \<not> is_space c" for t
    using that by (cases t) auto
  from this [of s] this [of "rev s"] assms show ?thesis by (simp add: trim_def trim_start_def)
qed

lemma to_lower_id: "\<forall>c \<in> set s. lower c = c \<Longrightarrow> to_lower s = s"
  by (simp add: to_lower_def map_idI)

text \<open>A limit given as a plain number of bytes is taken as it is.\<close>

lemma parse_bandwidth_plain:
  assumes "n < 2 ^ 64"
  shows "parse_bandwidth pf (show_nat n) = Inr (word_of_nat n)"
proof -
  have s: "to_lower (trim (show_nat n)) = show_nat n"
    using show_nat_digits is_digit_facts(1,2) by (simp add: trim_id to_lower_id)
  have "show_nat n = ''0'' \<Longrightarrow> n = 0"
    using digits_show_nat [of n] by (simp add: digit_val_def)
  moreover have "show_nat n \<noteq> ''unlimited''"
  proof
    assume "show_nat n = ''unlimited''"
    then have "is_digit (CHR ''u'')" using show_nat_digits [of "CHR ''u''" n] by simp
    then show False by (simp add: is_digit_def)
  qed
  moreover have "parse_unsigned U64_MAX (show_nat n) = Some n"
    using assms by (intro parse_unsigned_show) (simp add: U64_MAX_def)
  ultimately show ?thesis by (auto simp: parse_bandwidth_def Let_def s)
qed

section \<open>The default port\<close>

lemma rsplit_colon_app:
  "CHR '':'' \<notin> set b \<Longrightarrow> rsplit_colon (a @ CHR '':'' # b) = Some (a, b)"
proof (induction a)
  case Nil
  have "rsplit_colon b = None" using Nil by (induction b) auto
  then show ?case by simp
next
  case (Cons c a)
  then show ?case by simp
qed

text \<open>
  A host name without a colon gets the default port once: a second default does not touch it. The
  text of a socket address stays as it is.
\<close>

lemma with_default_port_idem:
  assumes "\<forall>sa. at_parse_sa tx (at_show_sa tx sa) = Some sa"
    and "h \<noteq> []" "CHR '':'' \<notin> set h"
    and "at_parse_ip tx (h @ '':'' @ show_nat (unat p)) = None"
    and "strip_brackets h = None"
  shows "with_default_port tx (with_default_port tx h p) q = with_default_port tx h p"
proof -
  have sa: "with_default_port tx (at_show_sa tx x) q = at_show_sa tx x" for x
    using assms(1) by (simp add: with_default_port_def)
  have port: "parse_unsigned 65535 (show_nat (unat p)) = Some (unat p)"
  proof (rule parse_unsigned_show)
    have "unat p < 2 ^ 16" by (rule order_less_le_trans [OF unsigned_less]) simp
    then show "unat p \<le> 65535" by simp
  qed
  have "CHR '':'' \<notin> set (show_nat (unat p))"
    using show_nat_digits is_digit_facts(4) by blast
  then have hp: "host_with_port (h @ '':'' @ show_nat (unat p))"
    using assms(2,3) port by (simp add: host_with_port_def rsplit_colon_app)
  have sb: "strip_brackets (h @ '':'' @ show_nat (unat p)) = None"
  proof -
    have "last (show_nat (unat p)) \<in> set (show_nat (unat p))" using show_nat_nonempty by simp
    then have "is_digit (last (show_nat (unat p)))" by (rule show_nat_digits)
    then have "last (show_nat (unat p)) \<noteq> CHR '']''" by (auto simp: is_digit_def)
    then show ?thesis
      using assms(2) show_nat_nonempty [of "unat p"] by (cases h) (auto simp: strip_brackets_def)
  qed
  have "with_default_port tx (h @ '':'' @ show_nat (unat p)) q = h @ '':'' @ show_nat (unat p)"
    using assms(4) hp sb by (simp add: with_default_port_def)
  moreover have "at_parse_sa tx h \<noteq> None \<and> with_default_port tx h p = h \<or>
      (\<exists>x. with_default_port tx h p = at_show_sa tx x) \<or>
      with_default_port tx h p = h @ '':'' @ show_nat (unat p)"
  proof -
    have "rsplit_colon h = None" using assms(3) by (induction h) auto
    then have "\<not> host_with_port h" by (simp add: host_with_port_def)
    then show ?thesis using assms(5) by (auto simp: with_default_port_def split: option.splits)
  qed
  moreover have "with_default_port tx h q = h" if "at_parse_sa tx h \<noteq> None"
    using that by (simp add: with_default_port_def)
  ultimately show ?thesis using sa by metis
qed

text \<open>
  A positive limit below one byte per second, and a number that is none, are read as zero, which
  means no limit at all.
\<close>

lemma tiny_limit_is_unlimited:
  assumes "pf ''0.0001'' = Some (Finite (1 / 10000))" "pf ''nan'' = Some NaN"
  shows "parse_bandwidth pf ''0.0001K'' = Inr 0" "parse_bandwidth pf ''nanK'' = Inr 0"
proof -
  have t: "trim_end_matches ''k'' (trim_end_matches ''kb'' ''0.0001k'') = ''0.0001''"
      "trim_end_matches ''k'' (trim_end_matches ''kb'' ''nank'') = ''nan''"
    by (simp_all add: trim_end_matches.simps ends_with_def)
  have l: "to_lower (trim ''0.0001K'') = ''0.0001k''" "to_lower (trim ''nanK'') = ''nank''"
    by code_simp+
  have u: "bandwidth_unit ''0.0001k'' = Some (''0.0001'', 1024)" "bandwidth_unit ''nank'' = Some (''nan'', 1024)"
    using t by (simp_all add: bandwidth_unit_def ends_with_def)
  have n: "parse_unsigned U64_MAX ''0.0001k'' = None" "parse_unsigned U64_MAX ''nank'' = None"
    by (simp_all add: parse_unsigned_def digit_val_def)
  have "\<lfloor>64 / 625 :: rat\<rfloor> = 0" by (simp add: floor_eq_iff)
  then show "parse_bandwidth pf ''0.0001K'' = Inr 0" "parse_bandwidth pf ''nanK'' = Inr 0"
    using assms by (simp_all add: parse_bandwidth_def l u n scaled_to_u64_def below_zero_def)
qed

end
