(* ===== verification/Cli_Session.thy ===== *)
theory Cli_Session
  imports Session_Send Discovery User_Input
begin

text \<open>
  How every command of \<open>p2p-cli\<close> comes by its session: the session flags of \<open>cli.rs\<close>,
  \<open>establish_session\<close> and \<open>establish\<close> of \<open>rendezvous.rs\<close>, and the path helpers of \<open>util.rs\<close>. An
  \<open>anyhow\<close> error is a text, an error of the core crate or of the system, or one of these with a
  context; a panic is \<open>None\<close>. Name resolution, \<open>hex::decode\<close> and canonical paths are parameters.
\<close>

definition DEFAULT_TRANSFER_PORT :: u16 where "DEFAULT_TRANSFER_PORT = 14567"
definition DEFAULT_RENDEZVOUS_PORT :: u16 where "DEFAULT_RENDEZVOUS_PORT = 14570"

definition DEFAULT_STUN_SERVERS :: "string \<times> string" where
  "DEFAULT_STUN_SERVERS = (''stun.l.google.com:19302'', ''stun1.l.google.com:19302'')"

datatype cli_error = Plain string | FromCore error | FromIo io_error | Context string cli_error

type_synonym 'a outcome = "(cli_error + 'a) option"

section \<open>The flags\<close>

record session_params =
  sp_role :: "string option"
  sp_peer :: "string option"
  sp_peer_fingerprint :: "string option"
  sp_port :: u16
  sp_discover :: bool
  sp_rendezvous :: "string option"
  sp_code :: "string option"
  sp_force_relay :: bool

definition get_role :: "session_params \<Rightarrow> string \<Rightarrow> string" where
  "get_role ps def = unwrap_or (sp_role ps) def"

definition is_client :: "session_params \<Rightarrow> string \<Rightarrow> bool" where
  "is_client ps def \<longleftrightarrow> get_role ps def = ''client''"

definition is_server :: "session_params \<Rightarrow> string \<Rightarrow> bool" where
  "is_server ps def \<longleftrightarrow> get_role ps def = ''server''"

text \<open>\<open>copy_from_slice\<close> panics when the decoder does not give 32 bytes.\<close>

definition parsed_fingerprint ::
  "(string \<Rightarrow> string + bytes) \<Rightarrow> session_params \<Rightarrow> fingerprint option outcome" where
  "parsed_fingerprint hex_decode ps =
     (case sp_peer_fingerprint ps of
        None \<Rightarrow> Some (Inr None)
      | Some hex_str \<Rightarrow>
          (if length hex_str \<noteq> 64
           then Some (Inl (Plain (''--peer-fingerprint must be 64 hex chars, got '' @ show_nat (length hex_str) @ '' chars'')))
           else case hex_decode hex_str of
             Inl e \<Rightarrow> Some (Inl (Plain (''--peer-fingerprint hex decode: '' @ e)))
           | Inr bs \<Rightarrow> (if length bs \<noteq> 32 then None else Some (Inr (Some (be_word bs))))))"

definition is_rendezvous_mode :: "session_params \<Rightarrow> bool" where
  "is_rendezvous_mode ps \<longleftrightarrow> sp_rendezvous ps \<noteq> None"

section \<open>Establishing the session\<close>

record cli_env =
  ce_net :: session_env
  ce_traversal :: "nat \<Rightarrow> traversal_env"
  ce_addr_text :: addr_text
  ce_lookup_host :: "string \<Rightarrow> io_error + socket_addr list"
  ce_hex_decode :: "string \<Rightarrow> string + bytes"
  ce_udp :: udp_env
  ce_beacons :: beacon_codec
  ce_uuid_text :: "uuid \<Rightarrow> string"
  ce_lan :: "nat \<Rightarrow> uuid \<times> lan_turn list \<times> uuid list"

definition resolve_rendezvous :: "cli_env \<Rightarrow> string \<Rightarrow> cli_error + socket_addr" where
  "resolve_rendezvous env host_port =
     (let with_port = with_default_port (ce_addr_text env) host_port DEFAULT_RENDEZVOUS_PORT in
      case ce_lookup_host env with_port of
        Inl e \<Rightarrow> Inl (FromIo e)
      | Inr [] \<Rightarrow> Inl (Plain (''could not resolve rendezvous address '' @ [CHR 0x27] @ with_port @ [CHR 0x27]))
      | Inr (a # _) \<Rightarrow> Inr a)"

text \<open>The \<open>n\<close>-th network operation of the command; the identifiers of the session are drawn by the caller.\<close>

definition establish ::
  "cli_env \<Rightarrow> nat \<Rightarrow> session_params \<Rightarrow> identity \<Rightarrow> uuid \<Rightarrow> config_message \<Rightarrow> uuid \<Rightarrow> p2p_session outcome" where
  "establish env n ps ident device_id cfg session_id =
     (case sp_rendezvous ps of
        None \<Rightarrow> Some (Inl (Plain ''internal: rendezvous mode requested without --rendezvous''))
      | Some rendezvous_host \<Rightarrow>
          (case sp_code ps of
             None \<Rightarrow> Some (Inl (Plain ''--code is required when --rendezvous is set''))
           | Some code \<Rightarrow>
               (case resolve_rendezvous env rendezvous_host of
                  Inl e \<Rightarrow> Some (Inl (Context (''resolving --rendezvous '' @ [CHR 0x27] @ rendezvous_host @ [CHR 0x27]) e))
                | Inr addr \<Rightarrow>
                    map_option (map_sum FromCore id)
                      (from_rendezvous (ce_net env) (ce_traversal env n)
                         \<lparr> rv_rendezvous = addr, rv_code = code, rv_identity = ident, rv_device_id = device_id,
                           rv_stun_servers = DEFAULT_STUN_SERVERS, rv_force_relay = sp_force_relay ps \<rparr>
                         cfg session_id))))"

text \<open>Where a client dials, and whom it expects there.\<close>

definition peer_target :: "cli_env \<Rightarrow> nat \<Rightarrow> session_params \<Rightarrow> identity \<Rightarrow> uuid \<Rightarrow> (socket_addr \<times> fingerprint) outcome" where
  "peer_target env n ps ident device_id =
     (case sp_peer ps of
        Some addr_str \<Rightarrow>
          (case parse_peer_addr (at_parse_sa (ce_addr_text env)) (at_parse_ip (ce_addr_text env)) addr_str (sp_port ps) of
             Inl e \<Rightarrow> Some (Inl (FromCore e))
           | Inr parsed \<Rightarrow>
               (case parsed_fingerprint (ce_hex_decode env) ps of
                  None \<Rightarrow> None
                | Some (Inl e) \<Rightarrow> Some (Inl e)
                | Some (Inr None) \<Rightarrow> Some (Inl (Plain ''--peer-fingerprint is required for direct connections''))
                | Some (Inr (Some fp)) \<Rightarrow> Some (Inr (parsed, fp))))
      | None \<Rightarrow>
          (if sp_discover ps
           then (case ce_lan env n of (new_id, turns, order) \<Rightarrow>
                   Some (map_sum FromCore id
                     (discover_one_peer (ce_udp env) (ce_beacons env) (ce_uuid_text env) new_id (sp_port ps) ident device_id turns order)))
           else Some (Inl (Plain ''peer address (--peer) or --discover required for client role''))))"

text \<open>The text of the address to listen on always parses.\<close>

definition establish_session ::
  "cli_env \<Rightarrow> nat \<Rightarrow> session_params \<Rightarrow> string \<Rightarrow> identity \<Rightarrow> uuid \<Rightarrow> config_message option \<Rightarrow> uuid \<Rightarrow> p2p_session outcome" where
  "establish_session env n ps role_default ident device_id cfg session_id =
     (if is_rendezvous_mode ps
      then establish env n ps ident device_id (unwrap_or cfg config_default) session_id
      else if get_role ps role_default = ''server''
      then Some (map_sum FromCore id (session_accept (ce_net env) n (SocketAddr (V4 0) (sp_port ps)) ident device_id session_id))
      else case cfg of
        None \<Rightarrow> Some (Inl (Plain ''config required for client role''))
      | Some c \<Rightarrow>
          (case peer_target env n ps ident device_id of
             None \<Rightarrow> None
           | Some (Inl e) \<Rightarrow> Some (Inl e)
           | Some (Inr (peer_addr, peer_fp)) \<Rightarrow>
               Some (map_sum FromCore id (session_connect (ce_net env) n peer_addr peer_fp ident device_id c session_id))))"

section \<open>Paths\<close>

definition derive_base_name :: "(string \<Rightarrow> io_error + string) \<Rightarrow> string \<Rightarrow> cli_error + string" where
  "derive_base_name canonicalize path =
     (case file_name path of
        Some name \<Rightarrow> Inr name
      | None \<Rightarrow>
          (case canonicalize path of
             Inl e \<Rightarrow> Inl (Context (''path has no file name and cannot be canonicalised: '' @ path) (FromIo e))
           | Inr canonical \<Rightarrow> Inr (unwrap_or (file_name canonical) canonical)))"

definition resolve_state_file ::
  "(string \<Rightarrow> io_error option) \<Rightarrow> string option \<Rightarrow> string \<Rightarrow> cli_error + string" where
  "resolve_state_file create_dir state_dir transfer_id =
     (let name = ''transfer_'' @ transfer_id @ ''.json'' in
      case state_dir of
        Some dir \<Rightarrow>
          (case create_dir dir of
             Some e \<Rightarrow> Inl (Context (''failed to create state dir '' @ dir) (FromIo e))
           | None \<Rightarrow> Inr (join dir name))
      | None \<Rightarrow> Inr name)"

section \<open>Whom a command's session is with\<close>

lemma established_life:
  "establish_session env n ps role ident device_id cfg session_id = Some (Inr s) \<Longrightarrow> session_life (ce_net env) s"
  by (auto simp: establish_session_def establish_def split: if_splits option.splits sum.splits prod.splits
      intro: session_life.intros)


definition demo_cli :: cli_env where
  "demo_cli = \<lparr> ce_net = demo_dial_env, ce_traversal = (\<lambda>n. undefined),
     ce_addr_text = \<lparr> at_parse_sa = (\<lambda>s. if s = ''peer'' then Some (SocketAddr (V4 9) 9) else None),
       at_parse_ip = (\<lambda>s. None), at_show_sa = (\<lambda>a. ''peer'') \<rparr>,
     ce_lookup_host = (\<lambda>s. Inr []), ce_hex_decode = (\<lambda>s. Inr (replicate 31 0 @ [8])),
     ce_udp = demo_udp, ce_beacons = demo_beacons, ce_uuid_text = (\<lambda>u. ''''), ce_lan = (\<lambda>n. (Uuid 1, [], [])) \<rparr>"

definition demo_flags :: session_params where
  "demo_flags = \<lparr> sp_role = None, sp_peer = Some ''peer'', sp_peer_fingerprint = Some (replicate 64 CHR ''8''),
     sp_port = 14567, sp_discover = False, sp_rendezvous = None, sp_code = None, sp_force_relay = False \<rparr>"

lemma demo_target:
  "peer_target demo_cli 0 demo_flags ident dev = Some (Inr (SocketAddr (V4 9) 9, 8))"
proof -
  have "be_word (replicate 31 0 @ [8]) = (8 :: fingerprint)" by code_simp
  then show ?thesis
    by (simp add: peer_target_def demo_cli_def demo_flags_def parse_peer_addr_def parsed_fingerprint_def)
qed

lemma demo_cli_established:
  "\<exists>s. establish_session demo_cli 0 demo_flags ''client'' \<lparr> id_cert_der = [0, 0, 0], id_key_der = [], id_fingerprint = 3 \<rparr>
     (Uuid 4) (Some config_default) (Uuid 1) = Some (Inr s)"
  using demo_session
  by (auto simp: establish_session_def is_rendezvous_mode_def get_role_def unwrap_or_def demo_target)
     (auto simp: demo_flags_def demo_cli_def)


end
