(* ===== verification/History.thy ===== *)
theory History
  imports File_Store Wire_Protocol
begin

text \<open>
  \<open>p2p-core/src/history.rs\<close>: the records of past transfers, their queries, and the append to the
  history file under a lock, shared by every process of the machine. The JSON text is a parameter.
  The clock is an argument (0 before 1970). An append is a sequence of steps, so that the steps of
  several processes interleave and a process may die between any two.
\<close>

section \<open>Records\<close>

datatype transfer_direction = Send | Receive

datatype transfer_status = Completed | Interrupted | Failed

record transfer_record =
  tr_transfer_id :: uuid
  tr_start_time :: u64
  tr_end_time :: u64
  tr_direction :: transfer_direction
  tr_peer_address :: string
  tr_files :: "string list"
  tr_bytes_transferred :: u64
  tr_duration_secs :: u64
  tr_status :: transfer_status

type_synonym history = "transfer_record list"

text \<open>The system clock as whole seconds since 1970, none when it shows an earlier time.\<close>

definition now_secs :: "u64 option \<Rightarrow> u64" where
  "now_secs clock = (case clock of None \<Rightarrow> 0 | Some t \<Rightarrow> t)"

definition record_new :: "u64 \<Rightarrow> uuid \<Rightarrow> transfer_direction \<Rightarrow> string \<Rightarrow> transfer_record" where
  "record_new now tid direction peer =
     \<lparr> tr_transfer_id = tid, tr_start_time = now, tr_end_time = now, tr_direction = direction,
       tr_peer_address = peer, tr_files = [], tr_bytes_transferred = 0, tr_duration_secs = 0,
       tr_status = Interrupted \<rparr>"

definition close_record :: "u64 \<Rightarrow> transfer_status \<Rightarrow> transfer_record \<Rightarrow> transfer_record" where
  "close_record now st r =
     r\<lparr> tr_end_time := now, tr_duration_secs := sat_sub now (tr_start_time r), tr_status := st \<rparr>"

definition record_complete :: "u64 \<Rightarrow> string list \<Rightarrow> u64 \<Rightarrow> transfer_record \<Rightarrow> transfer_record" where
  "record_complete now files n r =
     (close_record now Completed r)\<lparr> tr_files := files, tr_bytes_transferred := n \<rparr>"

definition record_interrupt :: "u64 \<Rightarrow> string list \<Rightarrow> u64 \<Rightarrow> transfer_record \<Rightarrow> transfer_record" where
  "record_interrupt now files n r =
     (close_record now Interrupted r)\<lparr> tr_files := files, tr_bytes_transferred := n \<rparr>"

definition record_fail :: "u64 \<Rightarrow> string \<Rightarrow> transfer_record \<Rightarrow> transfer_record" where
  "record_fail now err r =
     (close_record now Failed r)\<lparr> tr_files := tr_files r @ [''Error: '' @ err] \<rparr>"

section \<open>The history\<close>

definition history_new :: history where
  "history_new = []"

definition add_record :: "transfer_record \<Rightarrow> history \<Rightarrow> history" where
  "add_record r h = h @ [r]"

definition filter_by_direction :: "transfer_direction \<Rightarrow> history \<Rightarrow> history" where
  "filter_by_direction dir h = filter (\<lambda>r. tr_direction r = dir) h"

definition filter_by_status :: "transfer_status \<Rightarrow> history \<Rightarrow> history" where
  "filter_by_status st h = filter (\<lambda>r. tr_status r = st) h"

definition get_by_id :: "uuid \<Rightarrow> history \<Rightarrow> transfer_record option" where
  "get_by_id tid h = List.find (\<lambda>r. tr_transfer_id r = tid) h"

text \<open>The stable sort by descending start time, cut to the limit.\<close>

definition recent :: "nat \<Rightarrow> history \<Rightarrow> history" where
  "recent limit h = take limit (sort_key (\<lambda>r. - int (unat (tr_start_time r))) h)"

record json =
  to_json :: "history \<Rightarrow> string + bytes"
  of_json :: "bytes \<Rightarrow> string + history"

definition json_ok :: "json \<Rightarrow> bool" where
  "json_ok j \<longleftrightarrow> (\<forall>h b. to_json j h = Inr b \<longrightarrow> b \<noteq> [] \<and> of_json j b = Inr h)"

definition history_load :: "json \<Rightarrow> string \<Rightarrow> fstate \<Rightarrow> history result" where
  "history_load j path d =
     (case contents path d of
        None \<Rightarrow> Inl (Network (IoError NotFound path))
      | Some b \<Rightarrow>
          (case of_json j b of
             Inl e \<Rightarrow> Inl (Protocol (''Failed to deserialize history: '' @ e))
           | Inr h \<Rightarrow> Inr h))"

definition history_save :: "json \<Rightarrow> string \<Rightarrow> history \<Rightarrow> (fstate, error, unit) proc" where
  "history_save j path h = (\<lambda>d.
     case to_json j h of
       Inl e \<Rightarrow> (Inl (Protocol (''Failed to serialize history: '' @ e)), d)
     | Inr b \<Rightarrow> (Inr (), run (plain_write path b) d))"

definition history_default_path :: "string option \<Rightarrow> string" where
  "history_default_path home =
     (case home of
        Some dir \<Rightarrow> join (join dir ''.p2p-transfer'') ''history.json''
      | None \<Rightarrow> ''transfer_history.json'')"

section \<open>Appending under the lock\<close>

text \<open>What cannot be parsed is renamed aside, never overwritten.\<close>

definition load_or_quarantine :: "json \<Rightarrow> string \<Rightarrow> u64 \<Rightarrow> (fstate, error, history) proc" where
  "load_or_quarantine j path now = (\<lambda>d.
     case contents path d of
       None \<Rightarrow> (Inr [], d)
     | Some buf \<Rightarrow>
         (if buf = [] then (Inr [], d)
          else case of_json j buf of
                 Inr h \<Rightarrow> (Inr h, d)
               | Inl e \<Rightarrow>
                   (Inr [], exec (Rename path (sibling_path path (''.corrupt-'' @ show_nat (unat now)))) d)))"

definition append_record :: "json \<Rightarrow> string \<Rightarrow> u64 \<Rightarrow> transfer_record \<Rightarrow> (fstate, error, unit) proc" where
  "append_record j path now r =
     andthen (load_or_quarantine j path now) (\<lambda>h d.
       case to_json j (add_record r h) of
         Inl e \<Rightarrow> (Inl (Protocol (''Failed to serialize history: '' @ e)), d)
       | Inr b \<Rightarrow> (Inr (), run (atomic_write (sibling_path path ''.tmp'') path b) d))"

text \<open>
  The same as steps of one process among several. \<open>Waiting\<close>: before \<open>lock_exclusive\<close>; \<open>Locked\<close>: the
  lock is held, nothing read; \<open>Loaded h\<close>: the history is in memory; \<open>Writing ops\<close>: the file
  operations still to do; \<open>Done\<close>: returned with success, lock released; \<open>Dead\<close>: returned with an
  error or killed, which releases the lock as well.
\<close>

datatype appender = Waiting | Locked | Loaded history | Writing "fs_op list" | Done | Dead

record machine =
  ma_disk :: fstate
  ma_lock :: "nat option"
  ma_procs :: "nat \<Rightarrow> appender"

definition set_proc :: "nat \<Rightarrow> appender \<Rightarrow> machine \<Rightarrow> machine" where
  "set_proc i a m = m\<lparr> ma_procs := (ma_procs m)(i := a) \<rparr>"

text \<open>\<open>arg i\<close> is the record process \<open>i\<close> appends, \<open>now i\<close> its clock.\<close>

inductive append_step ::
  "json \<Rightarrow> string \<Rightarrow> (nat \<Rightarrow> transfer_record) \<Rightarrow> (nat \<Rightarrow> u64) \<Rightarrow> machine \<Rightarrow> machine \<Rightarrow> bool"
  for j path arg now where
  take_lock: "ma_procs m i = Waiting \<Longrightarrow> ma_lock m = None \<Longrightarrow>
     append_step j path arg now m (set_proc i Locked (m\<lparr> ma_lock := Some i \<rparr>))"
| load: "ma_procs m i = Locked \<Longrightarrow> load_or_quarantine j path (now i) (ma_disk m) = (Inr h, d) \<Longrightarrow>
     append_step j path arg now m (set_proc i (Loaded h) (m\<lparr> ma_disk := d \<rparr>))"
| serialize: "ma_procs m i = Loaded h \<Longrightarrow> to_json j (add_record (arg i) h) = Inr b \<Longrightarrow>
     append_step j path arg now m (set_proc i (Writing (atomic_write (sibling_path path ''.tmp'') path b)) m)"
| file_op: "ma_procs m i = Writing (x # ops) \<Longrightarrow>
     append_step j path arg now m (set_proc i (Writing ops) (m\<lparr> ma_disk := exec x (ma_disk m) \<rparr>))"
| unlock: "ma_procs m i = Writing [] \<Longrightarrow>
     append_step j path arg now m (set_proc i Done (m\<lparr> ma_lock := None \<rparr>))"
| die: "ma_procs m i \<notin> {Done, Dead} \<Longrightarrow>
     append_step j path arg now m
       (set_proc i Dead (m\<lparr> ma_lock := (if ma_lock m = Some i then None else ma_lock m) \<rparr>))"

inductive append_reach ::
  "json \<Rightarrow> string \<Rightarrow> (nat \<Rightarrow> transfer_record) \<Rightarrow> (nat \<Rightarrow> u64) \<Rightarrow> machine \<Rightarrow> machine \<Rightarrow> bool"
  for j path arg now m0 where
  start: "append_reach j path arg now m0 m0"
| next_step: "append_reach j path arg now m0 m \<Longrightarrow> append_step j path arg now m m' \<Longrightarrow>
     append_reach j path arg now m0 m'"

inductive_cases append_stepE: "append_step j path arg now m m'"

section \<open>No record is lost\<close>

text \<open>The history a reader of the file gets; no file and an empty file read as no records.\<close>

definition reads_as :: "json \<Rightarrow> string \<Rightarrow> fstate \<Rightarrow> history \<Rightarrow> bool" where
  "reads_as j path d h \<longleftrightarrow>
     (case contents path d of
        None \<Rightarrow> h = []
      | Some b \<Rightarrow> if b = [] then h = [] else of_json j b = Inr h)"

definition holding :: "appender \<Rightarrow> bool" where
  "holding a \<longleftrightarrow> (case a of Locked \<Rightarrow> True | Loaded h \<Rightarrow> True | Writing ops \<Rightarrow> True | _ \<Rightarrow> False)"

text \<open>What the temporary file holds while \<open>ops\<close> are still to do, and whether the record is in.\<close>

definition write_state :: "json \<Rightarrow> string \<Rightarrow> fstate \<Rightarrow> history \<Rightarrow> transfer_record \<Rightarrow> fs_op list \<Rightarrow> bool" where
  "write_state j path d h r ops \<longleftrightarrow>
     (let tmp = sibling_path path ''.tmp'' in
      \<exists>b. b \<noteq> [] \<and> of_json j b = Inr (h @ [r]) \<and>
        (ops = atomic_write tmp path b \<or>
         ops = [WriteAll tmp b, SyncAll tmp, Rename tmp path] \<and> contents tmp d = Some [] \<or>
         ops = [SyncAll tmp, Rename tmp path] \<and> contents tmp d = Some b \<or>
         ops = [Rename tmp path] \<and> contents tmp d = Some b))"

definition proc_ok ::
  "json \<Rightarrow> string \<Rightarrow> (nat \<Rightarrow> transfer_record) \<Rightarrow> history \<Rightarrow> fstate \<Rightarrow> nat list \<Rightarrow> nat \<Rightarrow> appender \<Rightarrow> bool" where
  "proc_ok j path arg h0 d is i a \<longleftrightarrow>
     (case a of
        Waiting \<Rightarrow> i \<notin> set is
      | Locked \<Rightarrow> i \<notin> set is
      | Loaded h \<Rightarrow> i \<notin> set is \<and> h = h0 @ map arg is
      | Writing ops \<Rightarrow>
          (if ops = [] then i \<in> set is else i \<notin> set is \<and> write_state j path d (h0 @ map arg is) (arg i) ops)
      | Done \<Rightarrow> i \<in> set is
      | Dead \<Rightarrow> True)"

definition append_inv ::
  "json \<Rightarrow> string \<Rightarrow> (nat \<Rightarrow> transfer_record) \<Rightarrow> history \<Rightarrow> nat list \<Rightarrow> machine \<Rightarrow> bool" where
  "append_inv j path arg h0 is m \<longleftrightarrow>
     distinct is \<and> reads_as j path (ma_disk m) (h0 @ map arg is) \<and>
     (\<forall>i. holding (ma_procs m i) \<longleftrightarrow> ma_lock m = Some i) \<and>
     (\<forall>i. proc_ok j path arg h0 (ma_disk m) is i (ma_procs m i))"

lemma tmp_ne [simp]: "sibling_path p ''.tmp'' \<noteq> p"
  by (rule sibling_path_ne) simp

lemma path_ne_tmp [simp]: "p \<noteq> sibling_path p ''.tmp''"
  by (rule sibling_path_ne [symmetric]) simp

lemma not_holding_ok:
  assumes "proc_ok j path arg h0 d is k a" "\<not> holding a" "k \<noteq> i"
  shows "proc_ok j path arg h0 d' is k a" "proc_ok j path arg h0 d' (is @ [i]) k a"
  using assms by (auto simp: proc_ok_def holding_def split: appender.splits)

text \<open>A step of process \<open>i\<close> leaves the others alone: they do not hold the lock.\<close>

lemma append_inv_step:
  assumes inv: "append_inv j path arg h0 is m" and hold: "holding (ma_procs m i)"
    and "reads_as j path d (h0 @ map arg is')" "is' = is \<or> is' = is @ [i] \<and> i \<notin> set is"
    and "holding a = (l = Some i)" "l = Some i \<or> l = None" "proc_ok j path arg h0 d is' i a"
  shows "append_inv j path arg h0 is' (set_proc i a (m\<lparr> ma_disk := d, ma_lock := l \<rparr>))"
proof -
  have lock: "ma_lock m = Some i" using inv hold by (simp add: append_inv_def)
  have others: "\<not> holding (ma_procs m k)" if "k \<noteq> i" for k
    using inv lock that by (auto simp: append_inv_def)
  have "proc_ok j path arg h0 d is' k (ma_procs m k)" if "k \<noteq> i" for k
  proof -
    have "proc_ok j path arg h0 (ma_disk m) is k (ma_procs m k)" using inv by (simp add: append_inv_def)
    from not_holding_ok [OF this others [OF that] that] assms(4) show ?thesis by metis
  qed
  with assms lock others show ?thesis
    by (auto simp: append_inv_def set_proc_def)
qed

lemma set_proc_same:
  "ma_lock m = Some i \<Longrightarrow> set_proc i a (m\<lparr> ma_disk := d, ma_lock := Some i \<rparr>) = set_proc i a (m\<lparr> ma_disk := d \<rparr>)"
  "set_proc i a (m\<lparr> ma_disk := ma_disk m \<rparr>) = set_proc i a m"
  "set_proc i a (m\<lparr> ma_disk := ma_disk m, ma_lock := l \<rparr>) = set_proc i a (m\<lparr> ma_lock := l \<rparr>)"
  "ma_lock m = Some i \<Longrightarrow> set_proc i a (m\<lparr> ma_lock := Some i \<rparr>) = set_proc i a m"
  by (cases m; simp add: set_proc_def)+

lemma append_inv_same:
  assumes "append_inv j path arg h0 is m" "holding (ma_procs m i)"
    and "reads_as j path d (h0 @ map arg is)"
    and "holding a = (l = Some i)" "l = Some i \<or> l = None" "proc_ok j path arg h0 d is i a"
  shows "append_inv j path arg h0 is (set_proc i a (m\<lparr> ma_disk := d, ma_lock := l \<rparr>))"
  by (rule append_inv_step [OF assms(1-3) _ assms(4-6)]) blast

lemma load_readable:
  assumes "reads_as j path d h" "load_or_quarantine j path now d = (Inr h', d')"
  shows "h' = h \<and> d' = d"
  using assms by (auto simp: reads_as_def load_or_quarantine_def split: option.splits if_splits sum.splits)

lemma write_state_step:
  assumes "write_state j path d h r (x # ops)" "ops \<noteq> []"
  shows "write_state j path (exec x d) h r ops \<and> contents path (exec x d) = contents path d"
proof -
  let ?tmp = "sibling_path path ''.tmp''"
  obtain b where b: "b \<noteq> []" "of_json j b = Inr (h @ [r])"
      "x # ops = atomic_write ?tmp path b \<or>
       x # ops = [WriteAll ?tmp b, SyncAll ?tmp, Rename ?tmp path] \<and> contents ?tmp d = Some [] \<or>
       x # ops = [SyncAll ?tmp, Rename ?tmp path] \<and> contents ?tmp d = Some b \<or>
       x # ops = [Rename ?tmp path] \<and> contents ?tmp d = Some b"
    using assms(1) by (auto simp: write_state_def Let_def)
  then have "(ops = [WriteAll ?tmp b, SyncAll ?tmp, Rename ?tmp path] \<and> contents ?tmp (exec x d) = Some [] \<or>
       ops = [SyncAll ?tmp, Rename ?tmp path] \<and> contents ?tmp (exec x d) = Some b \<or>
       ops = [Rename ?tmp path] \<and> contents ?tmp (exec x d) = Some b) \<and>
      contents path (exec x d) = contents path d"
    using assms(2) tmp_ne [of path] by (auto simp: atomic_write_def contents_def)
  with b(1,2) show ?thesis unfolding write_state_def Let_def by blast
qed

lemma write_state_last:
  assumes "write_state j path d h r [x]"
  shows "reads_as j path (exec x d) (h @ [r])"
  using assms tmp_ne [of path]
  by (auto simp: write_state_def Let_def atomic_write_def reads_as_def contents_def)

lemma append_invD:
  assumes "append_inv j path arg h0 is m" "ma_procs m i = a"
  shows "reads_as j path (ma_disk m) (h0 @ map arg is) \<and> proc_ok j path arg h0 (ma_disk m) is i a \<and>
    (holding a \<longrightarrow> ma_lock m = Some i)"
  using assms by (auto simp: append_inv_def)

lemma append_step_inv:
  assumes "append_step j path arg now m m'" "append_inv j path arg h0 is m" "json_ok j"
  shows "\<exists>is'. append_inv j path arg h0 is' m'"
  using assms(1)
proof cases
  case (take_lock i)
  have free: "\<not> holding (ma_procs m k)" for k using assms(2) take_lock by (simp add: append_inv_def)
  have "proc_ok j path arg h0 (ma_disk m) is i Waiting"
    using assms(2) take_lock(2) by (metis append_inv_def)
  then have "i \<notin> set is" by (simp add: proc_ok_def)
  with take_lock assms(2) free have "append_inv j path arg h0 is m'"
    by (auto simp: append_inv_def set_proc_def) (auto simp: holding_def proc_ok_def)
  then show ?thesis by blast
next
  case (load i h d)
  have inv: "reads_as j path (ma_disk m) (h0 @ map arg is)" "i \<notin> set is" "ma_lock m = Some i"
    using append_invD [OF assms(2) load(2)] by (simp_all add: proc_ok_def holding_def)
  from load_readable [OF inv(1) load(3)] have hd: "h = h0 @ map arg is" "d = ma_disk m" by simp_all
  have "append_inv j path arg h0 is (set_proc i (Loaded h) (m\<lparr> ma_disk := d, ma_lock := Some i \<rparr>))"
    using assms(2) load hd inv by (intro append_inv_same [OF assms(2)]) (simp_all add: holding_def proc_ok_def)
  then show ?thesis using load(1) inv(3) by (auto simp: set_proc_same)
next
  case (serialize i h b)
  have inv: "reads_as j path (ma_disk m) (h0 @ map arg is)" "ma_lock m = Some i"
      "i \<notin> set is" "h = h0 @ map arg is"
    using append_invD [OF assms(2) serialize(2)] by (simp_all add: proc_ok_def holding_def)
  have "write_state j path (ma_disk m) (h0 @ map arg is) (arg i) (atomic_write (sibling_path path ''.tmp'') path b)"
    using assms(3) serialize(3) inv(4) by (auto simp: write_state_def Let_def json_ok_def add_record_def)
  then have "append_inv j path arg h0 is
      (set_proc i (Writing (atomic_write (sibling_path path ''.tmp'') path b)) (m\<lparr> ma_disk := ma_disk m, ma_lock := Some i \<rparr>))"
    using assms(2) serialize inv
    by (intro append_inv_same [OF assms(2)]) (simp_all add: holding_def proc_ok_def, simp add: atomic_write_def)
  then show ?thesis using serialize(1) inv(2) by (auto simp: set_proc_same)
next
  case (file_op i x ops)
  have inv: "reads_as j path (ma_disk m) (h0 @ map arg is)" "ma_lock m = Some i" "i \<notin> set is"
      "write_state j path (ma_disk m) (h0 @ map arg is) (arg i) (x # ops)"
    using append_invD [OF assms(2) file_op(2)] by (simp_all add: proc_ok_def holding_def)
  let ?d = "exec x (ma_disk m)"
  have "\<exists>is'. append_inv j path arg h0 is' (set_proc i (Writing ops) (m\<lparr> ma_disk := ?d, ma_lock := Some i \<rparr>))"
  proof (cases "ops = []")
    case True
    with write_state_last inv(4) have "reads_as j path ?d (h0 @ map arg (is @ [i]))" by fastforce
    then have "append_inv j path arg h0 (is @ [i]) (set_proc i (Writing ops) (m\<lparr> ma_disk := ?d, ma_lock := Some i \<rparr>))"
      using assms(2) file_op inv True
      by (intro append_inv_step [OF assms(2)]) (simp_all add: holding_def proc_ok_def)
    then show ?thesis by blast
  next
    case False
    have w: "write_state j path ?d (h0 @ map arg is) (arg i) ops" "contents path ?d = contents path (ma_disk m)"
      using write_state_step [OF inv(4) False] by simp_all
    then have "reads_as j path ?d (h0 @ map arg is)" using inv(1) by (simp add: reads_as_def)
    then have "append_inv j path arg h0 is (set_proc i (Writing ops) (m\<lparr> ma_disk := ?d, ma_lock := Some i \<rparr>))"
      using assms(2) file_op inv False w(1)
      by (intro append_inv_same [OF assms(2)]) (simp_all add: holding_def proc_ok_def)
    then show ?thesis by blast
  qed
  then show ?thesis using file_op(1) inv(2) by (simp add: set_proc_same)
next
  case (unlock i)
  have inv: "reads_as j path (ma_disk m) (h0 @ map arg is)" "ma_lock m = Some i" "i \<in> set is"
    using append_invD [OF assms(2) unlock(2)] by (simp_all add: proc_ok_def holding_def)
  have "append_inv j path arg h0 is (set_proc i Done (m\<lparr> ma_disk := ma_disk m, ma_lock := None \<rparr>))"
    using assms(2) unlock inv by (intro append_inv_same [OF assms(2)]) (simp_all add: holding_def proc_ok_def)
  then show ?thesis using unlock(1) by (auto simp: set_proc_same)
next
  case (die i)
  show ?thesis
  proof (cases "holding (ma_procs m i)")
    case True
    then have lock: "ma_lock m = Some i" "reads_as j path (ma_disk m) (h0 @ map arg is)"
      using assms(2) by (simp_all add: append_inv_def)
    have "append_inv j path arg h0 is (set_proc i Dead (m\<lparr> ma_disk := ma_disk m, ma_lock := None \<rparr>))"
      using assms(2) True lock by (intro append_inv_same [OF assms(2)]) (simp_all add: holding_def proc_ok_def)
    then show ?thesis using die(1) lock(1) by (auto simp: set_proc_same)
  next
    case False
    then have "ma_lock m \<noteq> Some i" using assms(2) by (simp add: append_inv_def)
    with assms(2) False die(1) have "append_inv j path arg h0 is m'"
      by (auto simp: append_inv_def set_proc_def holding_def proc_ok_def)
    then show ?thesis by blast
  qed
qed

lemma append_reach_inv:
  "append_reach j path arg now m0 m \<Longrightarrow> json_ok j \<Longrightarrow> append_inv j path arg h0 [] m0 \<Longrightarrow>
     \<exists>is. append_inv j path arg h0 is m"
  by (induction rule: append_reach.induct) (blast dest: append_step_inv)+

lemma append_inv_start:
  assumes "reads_as j path (ma_disk m0) h0" "ma_lock m0 = None" "\<forall>i. ma_procs m0 i = Waiting"
  shows "append_inv j path arg h0 [] m0"
  using assms by (simp add: append_inv_def holding_def proc_ok_def)

text \<open>
  C7: however the appends of any number of processes interleave, and whichever
  of them die on the way, the history file always reads as the old records followed by new ones of
  distinct processes, among them every process whose append returned with success and none that has
  not started; and at most one process is between taking and releasing the lock.
\<close>

theorem history_no_lost_update:
  assumes "json_ok j" "reads_as j path (ma_disk m0) h0" "ma_lock m0 = None" "\<forall>i. ma_procs m0 i = Waiting"
    and "append_reach j path arg now m0 m"
  shows "\<exists>is. distinct is \<and> reads_as j path (ma_disk m) (h0 @ map arg is) \<and>
     (\<forall>i. ma_procs m i = Done \<longrightarrow> i \<in> set is) \<and> (\<forall>i \<in> set is. ma_procs m i \<noteq> Waiting) \<and>
     (\<forall>i k. holding (ma_procs m i) \<and> holding (ma_procs m k) \<longrightarrow> i = k)"
proof -
  obtain "is" where inv: "append_inv j path arg h0 is m"
    using append_reach_inv [OF assms(5,1) append_inv_start [OF assms(2-4)]] by blast
  have "proc_ok j path arg h0 (ma_disk m) is i (ma_procs m i)" for i
    using inv by (simp add: append_inv_def)
  then have "(ma_procs m i = Done \<longrightarrow> i \<in> set is) \<and> (i \<in> set is \<longrightarrow> ma_procs m i \<noteq> Waiting)" for i
    by (force simp: proc_ok_def split: appender.splits)
  then show ?thesis
    using inv by (intro exI [of _ "is"]) (auto simp: append_inv_def)
qed

text \<open>
  C37: a call that appends alone adds exactly its record, and if the machine
  crashes before it returns, after any of its file operations, the file reads as before or with the
  record added, whatever the crash did to files that were not synced.
\<close>

theorem history_survives_crash:
  assumes "json_ok j" "reads_as j path d h" "settled path d" "to_json j (h @ [r]) = Inr b"
  shows "append_record j path now r d = (Inr (), run (atomic_write (sibling_path path ''.tmp'') path b) d) \<and>
    reads_as j path (snd (append_record j path now r d)) (h @ [r]) \<and>
    (crash (run (take k (atomic_write (sibling_path path ''.tmp'') path b)) d) d' \<longrightarrow>
       settled path d' \<and> (reads_as j path d' h \<or> reads_as j path d' (h @ [r])))"
proof -
  have b: "b \<noteq> []" "of_json j b = Inr (h @ [r])" using assms(1,4) by (auto simp: json_ok_def)
  obtain h' where l: "load_or_quarantine j path now d = (Inr h', d)" "h' = h"
    using assms(2) by (auto simp: reads_as_def load_or_quarantine_def split: option.splits if_splits)
  have app: "append_record j path now r d = (Inr (), run (atomic_write (sibling_path path ''.tmp'') path b) d)"
    using l assms(4) by (simp add: append_record_def andthen_apply add_record_def)
  have new: "reads_as j path d2 (h @ [r])" if "contents path d2 = Some b" for d2
    using that b by (simp add: reads_as_def)
  have old: "reads_as j path d2 h" if "contents path d2 = contents path d" for d2
    using that assms(2) by (simp add: reads_as_def)
  show ?thesis
    using app sibling_store.saved [OF assms(3), of b] sibling_store.crashed [OF assms(3), of k b d'] new old by auto
qed

text \<open>A codec for two histories, the empty one and that of one record.\<close>

definition demo_record :: transfer_record where
  "demo_record = record_new 9 (Uuid 1) Send ''peer''"

definition demo_json :: json where
  "demo_json = \<lparr> to_json = (\<lambda>h. if h = [] then Inr [0] else if h = [demo_record] then Inr [1] else Inl ''no''),
     of_json = (\<lambda>b. if b = [0] then Inr [] else if b = [1] then Inr [demo_record] else Inl ''no'') \<rparr>"

lemma demo_json_ok: "json_ok demo_json"
  by (auto simp: json_ok_def demo_json_def split: if_splits)

theorem history_survives_crash_witness:
  "\<exists>d'. d' ''h'' = None \<and> d' ''h.tmp'' = Some (Stored [7] True) \<and>
     (reads_as demo_json ''h'' d' [] \<or> reads_as demo_json ''h'' d' [demo_record])"
proof -
  let ?d' = "[''h.tmp'' \<mapsto> Stored [7] True]"
  have pre: "reads_as demo_json ''h'' Map.empty []" "settled ''h'' Map.empty"
    "to_json demo_json ([] @ [demo_record]) = Inr [1]"
    by (simp_all add: reads_as_def contents_def settled_def demo_json_def)
  have "crash (run (take 1 (atomic_write (sibling_path ''h'' ''.tmp'') ''h'' [1])) Map.empty) ?d'"
    by (simp add: atomic_write_def crash_def sibling_path_def)
  with history_survives_crash [OF demo_json_ok pre, of 0 1 ?d'] show ?thesis
    by (intro exI [of _ ?d']) simp
qed

theorem history_no_lost_update_witness:
  "\<exists>(m :: machine) (is :: nat list). ma_procs m 1 = Locked \<and> ma_procs m 0 = Dead \<and> distinct is \<and>
     reads_as demo_json ''h'' (ma_disk m) ([] @ map (\<lambda>_. demo_record) is)"
proof -
  let ?m0 = "\<lparr> ma_disk = Map.empty, ma_lock = None, ma_procs = (\<lambda>_. Waiting) \<rparr>"
  let ?m1 = "set_proc 0 Locked (?m0\<lparr> ma_lock := Some 0 \<rparr>)"
  let ?m2 = "set_proc 0 Dead (?m1\<lparr> ma_lock := (if ma_lock ?m1 = Some 0 then None else ma_lock ?m1) \<rparr>)"
  let ?m3 = "set_proc 1 Locked (?m2\<lparr> ma_lock := Some 1 \<rparr>)"
  let ?reach = "append_reach demo_json ''h'' (\<lambda>_. demo_record) (\<lambda>_. 0) ?m0"
  have 1: "?reach ?m1"
    by (rule next_step [OF start]) (rule take_lock, simp_all)
  have 2: "?reach ?m2"
    by (rule next_step [OF 1]) (rule die, simp add: set_proc_def)
  have 3: "?reach ?m3"
    by (rule next_step [OF 2]) (rule take_lock, simp_all add: set_proc_def)
  have "\<exists>m. ?reach m \<and> ma_procs m 1 = Locked \<and> ma_procs m 0 = Dead"
    by (rule exI [of _ ?m3], rule conjI [OF 3]) (simp add: set_proc_def)
  then obtain m where m: "?reach m" "ma_procs m 1 = Locked" "ma_procs m 0 = Dead" by blast
  have "reads_as demo_json ''h'' (ma_disk ?m0) []" "ma_lock ?m0 = None" "\<forall>i. ma_procs ?m0 i = Waiting"
    by (simp_all add: reads_as_def contents_def)
  from history_no_lost_update [OF demo_json_ok this m(1)]
  show ?thesis using m(2,3) by (elim exE conjE) (intro exI conjI, assumption+)
qed

end
