(* ===== verification/Cli_Receive.thy ===== *)
theory Cli_Receive
  imports Cli_Session History
begin

text \<open>
  The receiving command, \<open>p2p-cli/src/receive.rs\<close>: it takes one transfer after the other, records each
  in the history file, and after the peer has gone takes the session up again, by accepting the next
  peer or by pairing once more. What the peers send, the answers to the prompt, the clock and the new
  identifiers are parameters, numbered by the turn of the loop.
\<close>

record receive_env =
  rl_cli :: cli_env
  rl_receiver :: "nat \<Rightarrow> receiver_env"
  rl_answer :: "nat \<Rightarrow> transfer_info \<Rightarrow> io_error + string"
  rl_dir_error :: "nat \<Rightarrow> io_error option"
  rl_streams :: "nat \<Rightarrow> (error + bytes) list"
  rl_new_id :: "nat \<Rightarrow> uuid"
  rl_record_id :: "nat \<Rightarrow> uuid"
  rl_device_id :: "nat \<Rightarrow> uuid"
  rl_session_id :: "nat \<Rightarrow> uuid"
  rl_clock :: "nat \<Rightarrow> u64 \<times> u64 \<times> u64"
  rl_now :: "nat \<Rightarrow> rat"
  rl_json :: json
  rl_history_path :: string

record receive_world =
  rw_session :: p2p_session
  rw_disk :: disk
  rw_dirs :: "string list"
  rw_store :: fstate
  rw_turn :: nat

section \<open>One transfer\<close>

datatype receive_outcome = TransferDone | PeerGone | Fatal cli_error | Stops stop

definition accept_policy :: "receive_env \<Rightarrow> nat \<Rightarrow> bool \<Rightarrow> transfer_info \<Rightarrow> accept_decision" where
  "accept_policy env n auto_accept info =
     (if accept_or_prompt auto_accept (rl_answer env n info) then Accept else Reject)"

text \<open>Appending to the history; when it fails a warning is all there is.\<close>

definition record_transfer :: "receive_env \<Rightarrow> nat \<Rightarrow> transfer_record \<Rightarrow> receive_world \<Rightarrow> receive_world" where
  "record_transfer env n r w =
     w\<lparr> rw_store := snd (append_record (rl_json env) (rl_history_path env) (snd (snd (rl_clock env n))) r (rw_store w)) \<rparr>"

definition run_receive :: "receive_env \<Rightarrow> nat \<Rightarrow> string \<Rightarrow> bool \<Rightarrow> receive_world \<Rightarrow> (stop + transfer_summary) \<times> receive_world" where
  "run_receive env n output auto_accept w =
     (case receive_to ((rl_receiver env n)\<lparr> fv_accept := accept_policy env n auto_accept \<rparr>) output (rl_dir_error env n)
             (rl_new_id env n) (rw_disk w) (rl_streams env n) (Some (progress_new 0)) (rl_now env n) (rw_session w) of
        (res, r) \<Rightarrow>
          (res, w\<lparr> rw_session := (rw_session w)\<lparr> pe_connection := fi_connection r \<rparr>,
                   rw_disk := fi_disk r, rw_dirs := rw_dirs w @ fi_dirs r \<rparr>))"

definition is_disconnect :: "error \<Rightarrow> bool" where
  "is_disconnect e = (case e of Disconnected \<Rightarrow> True | Quic s \<Rightarrow> True | _ \<Rightarrow> False)"

definition receive_one ::
  "receive_env \<Rightarrow> nat \<Rightarrow> string \<Rightarrow> bool \<Rightarrow> string \<Rightarrow> receive_world \<Rightarrow> receive_outcome \<times> receive_world" where
  "receive_one env n output auto_accept peer_addr w =
     (let (start, stop, _) = rl_clock env n;
          rec = record_new start (rl_record_id env n) Receive peer_addr
      in case run_receive env n output auto_accept w of
           (Inr summary, w') \<Rightarrow>
             (let rec' = (if sum_files summary = [] then record_interrupt stop [] 0 rec
                          else record_complete stop (sum_files summary) (sum_bytes summary) rec)
              in (TransferDone, record_transfer env n rec' w'))
         | (Inl (Err e), w') \<Rightarrow>
             (if is_disconnect e then (PeerGone, w')
              else (Fatal (FromCore e), record_transfer env n (record_fail stop (display e) rec) w'))
         | (Inl stopped, w') \<Rightarrow> (Stops stopped, w'))"

section \<open>After a disconnection\<close>

definition recover_after_disconnect ::
  "receive_env \<Rightarrow> nat \<Rightarrow> session_params \<Rightarrow> identity \<Rightarrow> receive_world \<Rightarrow> unit outcome \<times> receive_world" where
  "recover_after_disconnect env n ps ident w =
     (if is_rendezvous_mode ps
      then case establish_session (rl_cli env) n ps ''server'' ident (rl_device_id env n) (Some config_default) (rl_session_id env n) of
             None \<Rightarrow> (None, w)
           | Some (Inl e) \<Rightarrow> (Some (Inl e), w)
           | Some (Inr s) \<Rightarrow> (Some (Inr ()), w\<lparr> rw_session := s \<rparr>)
      else case reaccept (ce_net (rl_cli env)) n (rw_session w) of
             (Inl e, s) \<Rightarrow> (Some (Inl (FromCore e)), w\<lparr> rw_session := s \<rparr>)
           | (Inr u, s) \<Rightarrow> (Some (Inr ()), w\<lparr> rw_session := s \<rparr>))"

section \<open>The loop\<close>

text \<open>
  \<open>StillRunning\<close>: the fuel is spent, the loop goes on; \<open>Returned\<close>: the command ends with this error,
  the only way it does; \<open>Stopped\<close>: it waits for ever, or has panicked.
\<close>

datatype loop_end = StillRunning | Returned cli_error | Stopped stop

definition peer_text :: "receive_env \<Rightarrow> receive_world \<Rightarrow> string" where
  "peer_text env w = at_show_sa (ce_addr_text (rl_cli env)) (cn_peer_addr (pe_connection (rw_session w)))"

definition next_turn :: "receive_world \<Rightarrow> receive_world" where
  "next_turn w = w\<lparr> rw_turn := Suc (rw_turn w) \<rparr>"

fun receive_turns ::
  "nat \<Rightarrow> receive_env \<Rightarrow> string \<Rightarrow> bool \<Rightarrow> session_params \<Rightarrow> identity \<Rightarrow> string \<Rightarrow> receive_world \<Rightarrow> loop_end \<times> receive_world" where
  "receive_turns 0 env output auto_accept ps ident peer_addr w = (StillRunning, w)"
| "receive_turns (Suc fuel) env output auto_accept ps ident peer_addr w =
     (case receive_one env (rw_turn w) output auto_accept peer_addr w of
        (TransferDone, w') \<Rightarrow> receive_turns fuel env output auto_accept ps ident peer_addr (next_turn w')
      | (PeerGone, w') \<Rightarrow>
          (case recover_after_disconnect env (rw_turn w) ps ident w' of
             (None, w'') \<Rightarrow> (Stopped Panic, w'')
           | (Some (Inl e), w'') \<Rightarrow> (Returned e, w'')
           | (Some (Inr u), w'') \<Rightarrow>
               receive_turns fuel env output auto_accept ps ident (peer_text env w'') (next_turn w''))
      | (Fatal e, w') \<Rightarrow> (Returned e, w')
      | (Stops stopped, w') \<Rightarrow> (Stopped stopped, w'))"

definition receive_loop_from ::
  "nat \<Rightarrow> receive_env \<Rightarrow> string \<Rightarrow> bool \<Rightarrow> session_params \<Rightarrow> identity \<Rightarrow> receive_world \<Rightarrow> loop_end \<times> receive_world" where
  "receive_loop_from fuel env output auto_accept ps ident w =
     receive_turns fuel env output auto_accept ps ident (peer_text env w) w"

text \<open>
  The whole command: the output directory, the identity, the first session, the loop. The identity
  files are \<open>fs\<close>; the loop starts with the second turn.
\<close>

definition handle_receive ::
  "nat \<Rightarrow> receive_env \<Rightarrow> string \<Rightarrow> bool \<Rightarrow> session_params \<Rightarrow> string option \<Rightarrow> texts \<Rightarrow> disk \<Rightarrow> fstate \<Rightarrow> loop_end \<times> receive_world option" where
  "handle_receive fuel env output auto_accept ps identity_dir fs disk store =
     (case rl_dir_error env 0 of
        Some e \<Rightarrow> (Returned (FromIo e), None)
      | None \<Rightarrow>
     (case load_or_generate (sn_libs (ce_net (rl_cli env))) identity_dir fs of
        None \<Rightarrow> (Stopped Panic, None)
      | Some (Inl e, fs') \<Rightarrow> (Returned (FromCore e), None)
      | Some (Inr ident, fs') \<Rightarrow>
     (case establish_session (rl_cli env) 0 ps ''server'' ident (rl_device_id env 0) (Some config_default) (rl_session_id env 0) of
        None \<Rightarrow> (Stopped Panic, None)
      | Some (Inl e) \<Rightarrow> (Returned e, None)
      | Some (Inr s) \<Rightarrow>
          map_prod id Some (receive_loop_from fuel env output auto_accept ps ident
            \<lparr> rw_session = s, rw_disk = disk, rw_dirs = [output], rw_store = store, rw_turn = 1 \<rparr>))))"

section \<open>What the command does\<close>

text \<open>An append leaves the history with the record, or as it was when it has no text form.\<close>

lemma append_record_reads:
  assumes "json_ok j" "reads_as j path d h"
  shows "reads_as j path (snd (append_record j path now r d))
    (if \<exists>b. to_json j (h @ [r]) = Inr b then h @ [r] else h)"
proof -
  obtain h' d' where l: "load_or_quarantine j path now d = (Inr h', d')"
    using assms(2) by (auto simp: reads_as_def load_or_quarantine_def split: option.splits if_splits sum.splits)
  from load_readable [OF assms(2) this] have "h' = h" "d' = d" by simp_all
  show ?thesis
  proof (cases "to_json j (h @ [r])")
    case (Inl e)
    with l have "snd (append_record j path now r d) = d"
      by (simp add: append_record_def andthen_apply add_record_def \<open>h' = h\<close> \<open>d' = d\<close>)
    with Inl assms(2) show ?thesis by simp
  next
    case (Inr b)
    with l have "snd (append_record j path now r d) = run (atomic_write (sibling_path path ''.tmp'') path b) d"
      by (simp add: append_record_def andthen_apply add_record_def \<open>h' = h\<close> \<open>d' = d\<close>)
    with assms(1) Inr show ?thesis
      by (simp add: run_atomic_write contents_def reads_as_def json_ok_def)
  qed
qed

lemma keeps_disk_control: "keeps fi_disk (control_in p)"
  by (simp add: keeps_def control_in_def split: prod.splits sum.splits)

lemma rejecting_keeps:
  assumes "\<forall>info. fv_accept env info = Reject"
  shows "keeps fi_disk (receive_folder env out)"
  unfolding receive_folder_def
  by (intro keeps_andthen keeps_disk_control)
     (auto split: message.splits sum.splits simp: assms intro!: keeps_andthen keeps_disk_control)

text \<open>One transfer, whatever the policy: nothing outside the output directory, and nothing at all if it never accepts.\<close>

lemma receive_to_within:
  assumes run: "receive_to renv output err tid disk streams bar now s = (res, r)"
  shows "(\<forall>p. fi_disk r p \<noteq> disk p \<longrightarrow> inside output p \<and> (\<exists>info. fv_accept renv info \<noteq> Reject)) \<and>
    (\<forall>d \<in> set (fi_dirs r). inside_or_at output d)"
proof -
  let ?r0 = "folder_receiver_new (pe_connection s) (hr_config (pe_handshake s)) tid disk streams bar now"
  have base: "fi_disk ?r0 = disk" "fi_dirs ?r0 = []" by (simp_all add: folder_receiver_new_def)
  have "touches output ?r0 r \<and> ((\<forall>info. fv_accept renv info = Reject) \<longrightarrow> fi_disk r = disk)"
  proof (cases err)
    case (Some e)
    with run have "r = ?r0" by (simp add: receive_to_def Let_def)
    then show ?thesis by (simp add: touches_refl base)
  next
    case None
    with run have step: "receive_folder renv output (create_dir_all output ?r0) = (res, r)"
      by (simp add: receive_to_def Let_def)
    have "touches output ?r0 (create_dir_all output ?r0)"
      by (simp add: touches_def create_dir_all_def inside_or_at_def)
    moreover have "touches output (create_dir_all output ?r0) r"
      using confined_receive_folder [of "output" renv] step by (simp add: confined_def)
    moreover have "fi_disk r = disk" if "\<forall>info. fv_accept renv info = Reject"
      using keepsD [OF rejecting_keeps [OF that] step] by (simp add: create_dir_all_def base)
    ultimately show ?thesis by (blast intro: touches_trans)
  qed
  then show ?thesis unfolding touches_def base by auto
qed

text \<open>What one transfer may do to the world, apart from the history.\<close>

definition within_output :: "string \<Rightarrow> bool \<Rightarrow> receive_world \<Rightarrow> receive_world \<Rightarrow> bool" where
  "within_output output accepting w w' \<longleftrightarrow>
     (\<forall>p. rw_disk w' p \<noteq> rw_disk w p \<longrightarrow> inside output p \<and> accepting) \<and>
     (\<exists>ds. rw_dirs w' = rw_dirs w @ ds \<and> (\<forall>d \<in> set ds. inside_or_at output d))"

lemma within_output_refl: "rw_disk w' = rw_disk w \<Longrightarrow> rw_dirs w' = rw_dirs w \<Longrightarrow> within_output output a w w'"
  by (simp add: within_output_def)

lemma within_output_trans: "within_output output a w w' \<Longrightarrow> within_output output a w' w'' \<Longrightarrow> within_output output a w w''"
  unfolding within_output_def by (metis Un_iff append.assoc set_append)

lemma within_output_simps [simp]:
  "within_output output a w (next_turn w') = within_output output a w w'"
  "within_output output a (next_turn w) w' = within_output output a w w'"
  "within_output output a w (record_transfer env n r w') = within_output output a w w'"
  "within_output output a w (w'\<lparr> rw_session := s \<rparr>) = within_output output a w w'"
  by (simp_all add: within_output_def next_turn_def record_transfer_def)

text \<open>Whether the command can accept anything at all: by its flag, or by an answer to its prompt.\<close>

definition can_accept :: "receive_env \<Rightarrow> bool \<Rightarrow> bool" where
  "can_accept env auto_accept \<longleftrightarrow> (\<exists>n info. accept_or_prompt auto_accept (rl_answer env n info))"

lemma run_receive_within:
  assumes "run_receive env n output auto_accept w = (res, w')"
  shows "within_output output (can_accept env auto_accept) w w' \<and> rw_store w' = rw_store w \<and> rw_turn w' = rw_turn w"
proof -
  let ?renv = "(rl_receiver env n)\<lparr> fv_accept := accept_policy env n auto_accept \<rparr>"
  obtain r where run: "receive_to ?renv output (rl_dir_error env n) (rl_new_id env n) (rw_disk w) (rl_streams env n)
        (Some (progress_new 0)) (rl_now env n) (rw_session w) = (res, r)"
      and w': "w' = w\<lparr> rw_session := (rw_session w)\<lparr> pe_connection := fi_connection r \<rparr>,
                   rw_disk := fi_disk r, rw_dirs := rw_dirs w @ fi_dirs r \<rparr>"
    using assms by (auto simp: run_receive_def split: prod.splits)
  have "(\<exists>info. fv_accept ?renv info \<noteq> Reject) \<Longrightarrow> can_accept env auto_accept"
    by (auto simp: can_accept_def accept_policy_def split: if_splits)
  with receive_to_within [OF run] show ?thesis unfolding w' within_output_def by auto
qed

text \<open>
  What the history gained: records of receptions, of which only the last may be a failure, and that
  one ends the command.
\<close>

definition history_gained :: "receive_env \<Rightarrow> receive_world \<Rightarrow> loop_end \<Rightarrow> receive_world \<Rightarrow> bool" where
  "history_gained env w fin w' \<longleftrightarrow>
     (\<forall>h. reads_as (rl_json env) (rl_history_path env) (rw_store w) h \<longrightarrow>
        (\<exists>done failed. reads_as (rl_json env) (rl_history_path env) (rw_store w') (h @ done @ failed) \<and>
           (\<forall>r \<in> set done. tr_direction r = Receive \<and> (tr_status r = Completed \<and> tr_files r \<noteq> [] \<or> tr_status r = Interrupted)) \<and>
           (failed = [] \<or> (\<exists>r e. failed = [r] \<and> tr_direction r = Receive \<and> tr_status r = Failed \<and>
              fin = Returned (FromCore e) \<and> \<not> is_disconnect e))))"

lemma record_transfer_reads:
  assumes "json_ok (rl_json env)" "reads_as (rl_json env) (rl_history_path env) (rw_store w) h" "rw_store w1 = rw_store w"
  shows "\<exists>new. (new = [r] \<or> new = []) \<and>
    reads_as (rl_json env) (rl_history_path env) (rw_store (record_transfer env n r w1)) (h @ new)"
proof (cases "\<exists>b. to_json (rl_json env) (h @ [r]) = Inr b")
  case True
  with append_record_reads [OF assms(1,2), of "snd (snd (rl_clock env n))" r] assms(3) show ?thesis
    by (intro exI [of _ "[r]"]) (simp add: record_transfer_def)
next
  case False
  with append_record_reads [OF assms(1,2), of "snd (snd (rl_clock env n))" r] assms(3) show ?thesis
    by (intro exI [of _ "[]"]) (simp add: record_transfer_def)
qed

lemma gained_none: "rw_store w' = rw_store w \<Longrightarrow> history_gained env w fin w'"
  unfolding history_gained_def by (metis append_Nil2 empty_iff list.set(1))

text \<open>Records whose text form could not be made are missing.\<close>

lemma gained_more:
  assumes "json_ok (rl_json env)" "rw_store w1 = rw_store w" "tr_direction r = Receive"
    and "tr_status r = Completed \<and> tr_files r \<noteq> [] \<or> tr_status r = Interrupted"
    and "history_gained env (record_transfer env n r w1) fin w'"
  shows "history_gained env w fin w'"
  unfolding history_gained_def
proof (intro allI impI)
  fix h assume "reads_as (rl_json env) (rl_history_path env) (rw_store w) h"
  then obtain new where new: "new = [r] \<or> new = []"
      "reads_as (rl_json env) (rl_history_path env) (rw_store (record_transfer env n r w1)) (h @ new)"
    using record_transfer_reads [OF assms(1) _ assms(2)] by blast
  then obtain ok failed where
      "reads_as (rl_json env) (rl_history_path env) (rw_store w') ((h @ new) @ ok @ failed)"
      "\<forall>r \<in> set ok. tr_direction r = Receive \<and> (tr_status r = Completed \<and> tr_files r \<noteq> [] \<or> tr_status r = Interrupted)"
      "failed = [] \<or> (\<exists>r e. failed = [r] \<and> tr_direction r = Receive \<and> tr_status r = Failed \<and>
          fin = Returned (FromCore e) \<and> \<not> is_disconnect e)"
    using assms(5) unfolding history_gained_def by blast
  then show "\<exists>ok failed. reads_as (rl_json env) (rl_history_path env) (rw_store w') (h @ ok @ failed) \<and>
      (\<forall>r \<in> set ok. tr_direction r = Receive \<and> (tr_status r = Completed \<and> tr_files r \<noteq> [] \<or> tr_status r = Interrupted)) \<and>
      (failed = [] \<or> (\<exists>r e. failed = [r] \<and> tr_direction r = Receive \<and> tr_status r = Failed \<and>
         fin = Returned (FromCore e) \<and> \<not> is_disconnect e))"
    using assms(3,4) new(1) by (intro exI [of _ "new @ ok"] exI [of _ failed]) auto
qed

lemma gained_failure:
  assumes "json_ok (rl_json env)" "rw_store w1 = rw_store w" "tr_direction r = Receive" "tr_status r = Failed"
    and "\<not> is_disconnect e"
  shows "history_gained env w (Returned (FromCore e)) (record_transfer env n r w1)"
  unfolding history_gained_def
proof (intro allI impI)
  fix h assume "reads_as (rl_json env) (rl_history_path env) (rw_store w) h"
  then obtain new where "new = [r] \<or> new = []"
      "reads_as (rl_json env) (rl_history_path env) (rw_store (record_transfer env n r w1)) (h @ new)"
    using record_transfer_reads [OF assms(1) _ assms(2)] by blast
  then show "\<exists>ok failed. reads_as (rl_json env) (rl_history_path env) (rw_store (record_transfer env n r w1)) (h @ ok @ failed) \<and>
      (\<forall>r \<in> set ok. tr_direction r = Receive \<and> (tr_status r = Completed \<and> tr_files r \<noteq> [] \<or> tr_status r = Interrupted)) \<and>
      (failed = [] \<or> (\<exists>r e'. failed = [r] \<and> tr_direction r = Receive \<and> tr_status r = Failed \<and>
         Returned (FromCore e) = Returned (FromCore e') \<and> \<not> is_disconnect e'))"
    using assms(3-5) by (intro exI [of _ "[]"] exI [of _ new]) auto
qed

lemma record_simps [simp]:
  "tr_direction (record_interrupt t fs n r) = tr_direction r" "tr_status (record_interrupt t fs n r) = Interrupted"
  "tr_direction (record_complete t fs n r) = tr_direction r" "tr_status (record_complete t fs n r) = Completed"
  "tr_files (record_complete t fs n r) = fs"
  "tr_direction (record_fail t e r) = tr_direction r" "tr_status (record_fail t e r) = Failed"
  "tr_direction (record_new t i d p) = d"
  by (simp_all add: record_interrupt_def record_complete_def record_fail_def record_new_def close_record_def)

definition life :: "receive_env \<Rightarrow> receive_world \<Rightarrow> bool" where
  "life env w \<longleftrightarrow> session_life (ce_net (rl_cli env)) (rw_session w)"

lemma life_simps [simp]:
  "life env (next_turn w) = life env w" "life env (record_transfer env n r w) = life env w"
  by (simp_all add: life_def next_turn_def record_transfer_def)

lemma run_receive_life:
  assumes "run_receive env n output auto_accept w = (res, w')" "life env w"
  shows "life env w'"
  using assms unfolding run_receive_def life_def
  by (auto split: prod.splits intro: sl_receive)

lemma recover_world:
  assumes "recover_after_disconnect env n ps ident w = (res, w')" "life env w"
  shows "life env w' \<and> rw_disk w' = rw_disk w \<and> rw_dirs w' = rw_dirs w \<and> rw_store w' = rw_store w \<and> rw_turn w' = rw_turn w"
  using assms unfolding recover_after_disconnect_def life_def
  by (auto split: if_splits option.splits sum.splits prod.splits intro: established_life sl_reaccept)

text \<open>One transfer: what it does to the world, and which record it leaves.\<close>

lemma receive_one_world:
  assumes "receive_one env n output auto_accept peer w = (out, w')" "life env w" "json_ok (rl_json env)"
  shows "life env w' \<and> within_output output (can_accept env auto_accept) w w' \<and>
    (case out of
       TransferDone \<Rightarrow> (\<exists>r w1. w' = record_transfer env n r w1 \<and> rw_store w1 = rw_store w \<and> tr_direction r = Receive \<and>
           (tr_status r = Completed \<and> tr_files r \<noteq> [] \<or> tr_status r = Interrupted))
     | PeerGone \<Rightarrow> rw_store w' = rw_store w
     | Fatal e \<Rightarrow> history_gained env w (Returned e) w'
     | Stops st \<Rightarrow> rw_store w' = rw_store w)"
proof -
  obtain t0 t1 t2 where clock: "rl_clock env n = (t0, t1, t2)" by (metis prod.collapse)
  obtain res w1 where run: "run_receive env n output auto_accept w = (res, w1)" by fastforce
  note facts = run_receive_within [OF run] run_receive_life [OF run assms(2)]
  let ?rec = "record_new t0 (rl_record_id env n) Receive peer"
  show ?thesis
  proof (cases res)
    case (Inr summary)
    let ?r = "if sum_files summary = [] then record_interrupt t1 [] 0 ?rec
              else record_complete t1 (sum_files summary) (sum_bytes summary) ?rec"
    have "out = TransferDone" "w' = record_transfer env n ?r w1"
      using assms(1) run Inr clock by (simp_all add: receive_one_def Let_def)
    moreover have "tr_direction ?r = Receive" "tr_status ?r = Completed \<and> tr_files ?r \<noteq> [] \<or> tr_status ?r = Interrupted"
      by simp_all
    ultimately have "\<exists>r w1. w' = record_transfer env n r w1 \<and> rw_store w1 = rw_store w \<and> tr_direction r = Receive \<and>
           (tr_status r = Completed \<and> tr_files r \<noteq> [] \<or> tr_status r = Interrupted)"
      using facts by blast
    then show ?thesis using facts \<open>out = TransferDone\<close> \<open>w' = record_transfer env n ?r w1\<close> by simp
  next
    case (Inl st)
    show ?thesis
    proof (cases st)
      case (Err e)
      show ?thesis
      proof (cases "is_disconnect e")
        case True
        with assms(1) run Inl Err clock facts show ?thesis by (auto simp: receive_one_def Let_def)
      next
        case False
        then have "out = Fatal (FromCore e)" "w' = record_transfer env n (record_fail t1 (display e) ?rec) w1"
          using assms(1) run Inl Err clock by (simp_all add: receive_one_def Let_def)
        then show ?thesis
          using facts gained_failure [OF assms(3), of w1 w "record_fail t1 (display e) ?rec" e n] False by simp
      qed
    qed (use assms(1) run Inl clock facts in \<open>auto simp: receive_one_def Let_def\<close>)
  qed
qed

lemma receive_turns_world:
  assumes "receive_turns fuel env output auto_accept ps ident peer w = (fin, w')" "life env w" "json_ok (rl_json env)"
  shows "life env w' \<and> within_output output (can_accept env auto_accept) w w' \<and> history_gained env w fin w'"
  using assms(1,2)
proof (induction fuel arbitrary: w peer)
  case 0
  then show ?case by (simp add: within_output_refl gained_none)
next
  case (Suc fuel)
  obtain out w1 where one: "receive_one env (rw_turn w) output auto_accept peer w = (out, w1)" by fastforce
  note facts = receive_one_world [OF one Suc.prems(2) assms(3)]
  show ?case
  proof (cases out)
    case TransferDone
    with Suc.prems(1) one have rest: "receive_turns fuel env output auto_accept ps ident peer (next_turn w1) = (fin, w')" by simp
    have lf: "life env (next_turn w1)" using facts by simp
    obtain r w2 where r: "w1 = record_transfer env (rw_turn w) r w2" "rw_store w2 = rw_store w" "tr_direction r = Receive"
        "tr_status r = Completed \<and> tr_files r \<noteq> [] \<or> tr_status r = Interrupted"
      using facts TransferDone by auto
    note ih = Suc.IH [OF rest lf]
    have "history_gained env w1 fin w'"
      using ih by (simp add: history_gained_def next_turn_def)
    then have "history_gained env w fin w'"
      using gained_more [OF assms(3) r(2-4)] r(1) by blast
    with ih facts show ?thesis by (auto intro: within_output_trans)
  next
    case PeerGone
    obtain rec w2 where rec: "recover_after_disconnect env (rw_turn w) ps ident w1 = (rec, w2)" by fastforce
    note w2 = recover_world [OF rec conjunct1 [OF facts]]
    have within: "within_output output (can_accept env auto_accept) w w2"
      using facts w2 by (simp add: within_output_def)
    have store: "rw_store w2 = rw_store w" using facts w2 PeerGone by simp
    show ?thesis
    proof (cases "\<exists>u. rec = Some (Inr u)")
      case True
      then have rest: "receive_turns fuel env output auto_accept ps ident (peer_text env w2) (next_turn w2) = (fin, w')"
        using Suc.prems(1) one PeerGone rec by auto
      have "life env (next_turn w2)" using w2 by simp
      note ih = Suc.IH [OF rest this]
      have "history_gained env w fin w'"
        using ih store by (simp add: history_gained_def next_turn_def)
      with ih within show ?thesis by (auto intro: within_output_trans)
    next
      case False
      then have "w' = w2"
        using Suc.prems(1) one PeerGone rec by (auto split: option.splits sum.splits)
      with w2 within store show ?thesis by (simp add: gained_none)
    qed
  next
    case (Fatal e)
    with Suc.prems(1) one facts show ?thesis by auto
  next
    case (Stops st)
    with Suc.prems(1) one facts show ?thesis by (auto intro: gained_none)
  qed
qed


definition demo_receive_env :: receive_env where
  "demo_receive_env =
     \<lparr> rl_cli = demo_cli\<lparr> ce_net := demo_dial_env\<lparr> sn_rmp := demo_rmp \<lparr> hp_device_id = Uuid 4, hp_fingerprint = 2 \<rparr>
           \<lparr> hp_device_id = Uuid 7, hp_fingerprint = 8 \<rparr> config_default \<rparr> \<rparr>,
       rl_receiver = (\<lambda>n. demo_renv Reject), rl_answer = (\<lambda>n i. Inr ''no''),
       rl_dir_error = (\<lambda>n. if n = 0 then None else Some (IoError PermissionDenied ''denied'')),
       rl_streams = (\<lambda>n. []), rl_new_id = (\<lambda>n. Uuid 1), rl_record_id = (\<lambda>n. Uuid 1), rl_device_id = (\<lambda>n. Uuid 4),
       rl_session_id = (\<lambda>n. Uuid 1), rl_clock = (\<lambda>n. (1, 2, 3)), rl_now = (\<lambda>n. 0), rl_json = demo_json,
       rl_history_path = ''h'' \<rparr>"

lemma demo_receive_session:
  "\<exists>s. establish_session (rl_cli demo_receive_env) 0 (demo_flags\<lparr> sp_role := Some ''client'' \<rparr>) ''server''
     \<lparr> id_cert_der = [7, 1], id_key_der = [7], id_fingerprint = 2 \<rparr> (Uuid 4) (Some config_default) (Uuid 1) = Some (Inr s)"
proof -
  let ?p = "\<lparr> hp_device_id = Uuid 4, hp_fingerprint = 2 \<rparr>" and ?q = "\<lparr> hp_device_id = Uuid 7, hp_fingerprint = 8 \<rparr>"
  obtain c' where "client_handshake (demo_rmp ?p ?q config_default) ?p config_default
      (demo_connection 8 (SocketAddr (V4 9) 9) PROTOCOL_MAGIC (frame_of [2] @ frame_of [4])) =
    (Inr \<lparr> hr_peer_device_id = Uuid 7, hr_peer_fingerprint = 8, hr_config = config_default \<rparr>, c')"
    using demo_client_run [of ?q "Uuid 7" 8 ?p config_default "SocketAddr (V4 9) 9" PROTOCOL_MAGIC] by auto
  moreover have "endpoint_connect demo_identity_libs (Established (demo_quinn 8 (SocketAddr (V4 9) 9) (frame_of [2] @ frame_of [4]))) 8 =
      Inr (demo_connection 8 (SocketAddr (V4 9) 9) PROTOCOL_MAGIC (frame_of [2] @ frame_of [4]))"
    using demo_dialled [of 8] by simp
  moreover have "be_word (replicate 31 0 @ [8]) = (8 :: fingerprint)" by code_simp
  ultimately show ?thesis
    by (simp add: establish_session_def is_rendezvous_mode_def get_role_def unwrap_or_def demo_receive_env_def demo_cli_def
        demo_flags_def peer_target_def parse_peer_addr_def parsed_fingerprint_def session_connect_def demo_dial_env_def
        endpoint_bind_def endpoint_from_socket_def demo_binding_def handshake_party_new_def opened_def)
qed


section \<open>When the peer goes\<close>

text \<open>
  Pairing again does not depend on which end the lost session had; accepting again does: a receiver
  that dialled its peer ends with an error as soon as the peer has gone, even after its transfers.
\<close>

lemma dialled_receiver_ends:
  assumes "receive_one env (rw_turn w) output auto_accept peer w = (PeerGone, w1)"
    and "sp_rendezvous ps = None" "pe_initiator_target (rw_session w) \<noteq> None"
  shows "fst (receive_turns (Suc fuel) env output auto_accept ps ident peer w) =
    Returned (FromCore (Protocol ''reaccept() is only valid for responder sessions''))"
proof -
  have "pe_initiator_target (rw_session w1) = pe_initiator_target (rw_session w)"
    using assms(1) by (auto simp: receive_one_def run_receive_def Let_def split: prod.splits sum.splits stop.splits if_splits)
  with assms show ?thesis
    by (auto simp: recover_after_disconnect_def is_rendezvous_mode_def reaccept_def)
qed

text \<open>A transfer cut off by a disconnection leaves no record.\<close>

lemma cut_off_unrecorded:
  assumes "receive_one env n output auto_accept peer w = (PeerGone, w1)"
  shows "rw_store w1 = rw_store w"
proof -
  obtain res w2 where run: "run_receive env n output auto_accept w = (res, w2)" by fastforce
  with assms have "w1 = w2"
    by (auto simp: receive_one_def Let_def split: prod.splits sum.splits stop.splits if_splits)
  with run_receive_within [OF run] show ?thesis by simp
qed

end
