(* ===== verification/Gui_App.thy ===== *)
theory Gui_App
  imports Cli_Receive
begin

text \<open>
  The graphical interface: the state of \<open>p2p-gui/src/state.rs\<close>, the messages of \<open>message.rs\<close>, and
  \<open>handle_message\<close> of \<open>operations.rs\<close>, which changes the state and names the task to start. The
  running tasks and their results make an event system, in which the views offer a message only when
  its button is enabled. A session is known by a number, text is ASCII, the console is the list of its
  lines without their time. What the tasks do is in Gui_Tasks.
\<close>

section \<open>State\<close>

datatype tab = ConnectionTab | SendTab | ReceiveTab | SettingsTab | HistoryTab

datatype connection_mode = Listen | Connect | Rendezvous

datatype console_icon = InfoIcon | SuccessIcon | WarningIcon | ErrorIcon

record connection_state =
  cs_mode :: connection_mode
  cs_peer_address :: string
  cs_peer_fingerprint :: string
  cs_port :: string
  cs_device_id :: "uuid option"
  cs_use_discovery :: bool
  cs_rendezvous_address :: string
  cs_code :: string
  cs_status_message :: string
  cs_is_active :: bool

record send_tab =
  st_selected_path :: "string option"
  st_path_input :: string

record receive_tab =
  rt_output_dir :: string
  rt_output_input :: string
  rt_auto_accept :: bool

record app_settings =
  as_compression_enabled :: bool
  as_compression_level :: "32 word"
  as_adaptive_compression :: bool
  as_chunk_size_kb :: u32
  as_bandwidth_limit :: u64
  as_max_retries :: u32
  as_bandwidth_input :: string

definition settings_default :: app_settings where
  "settings_default =
     \<lparr> as_compression_enabled = True, as_compression_level = 3, as_adaptive_compression = True,
       as_chunk_size_kb = DEFAULT_CHUNK_SIZE div 1024, as_bandwidth_limit = 0, as_max_retries = 5,
       as_bandwidth_input = ''unlimited'' \<rparr>"

definition to_config_message :: "app_settings \<Rightarrow> config_message" where
  "to_config_message a =
     \<lparr> compression_enabled = as_compression_enabled a, compression_level = as_compression_level a,
       adaptive_compression = as_adaptive_compression a, chunk_size = as_chunk_size_kb a * 1024,
       bandwidth_limit = as_bandwidth_limit a \<rparr>"

record transfer_progress =
  gp_name :: string
  gp_total_bytes :: u64
  gp_transferred_bytes :: u64
  gp_speed_bps :: f64
  gp_is_sending :: bool

type_synonym session_ref = nat

record app_state =
  ap_current_tab :: tab
  ap_connection :: connection_state
  ap_send :: send_tab
  ap_receive :: receive_tab
  ap_settings :: app_settings
  ap_history :: history
  ap_session :: "session_ref option"
  ap_progress :: "transfer_progress option"
  ap_console :: "(console_icon \<times> string) list"
  ap_cancel_listener :: bool
  ap_current_transfer :: "transfer_record option"

definition app_new :: "uuid \<Rightarrow> app_state" where
  "app_new device_id =
     \<lparr> ap_current_tab = ConnectionTab,
       ap_connection = \<lparr> cs_mode = Listen, cs_peer_address = [], cs_peer_fingerprint = [], cs_port = ''14567'',
         cs_device_id = Some device_id, cs_use_discovery = False, cs_rendezvous_address = [], cs_code = [],
         cs_status_message = ''Idle'', cs_is_active = False \<rparr>,
       ap_send = \<lparr> st_selected_path = None, st_path_input = [] \<rparr>,
       ap_receive = \<lparr> rt_output_dir = ''./received'', rt_output_input = ''./received'', rt_auto_accept = False \<rparr>,
       ap_settings = settings_default, ap_history = history_new, ap_session = None, ap_progress = None,
       ap_console = [(InfoIcon, ''Application started'')], ap_cancel_listener = False, ap_current_transfer = None \<rparr>"

definition add_console_message :: "string \<Rightarrow> console_icon \<Rightarrow> app_state \<Rightarrow> app_state" where
  "add_console_message txt icon s = s\<lparr> ap_console := ap_console s @ [(icon, txt)] \<rparr>"

section \<open>Messages and tasks\<close>

datatype gui_message =
    TabSelected tab
  | ModeSelected connection_mode
  | PeerAddressChanged string
  | PeerFingerprintChanged string
  | PortChanged string
  | DiscoveryToggled bool
  | RendezvousAddressChanged string
  | CodeChanged string
  | GenerateCode
  | StartConnection
  | StopConnection
  | ConnectionEstablished string
  | ConnectionEstablishedWithSession session_ref string
  | ConnectionFailed string
  | PathInputChanged string
  | BrowseFile
  | BrowseFolder
  | PathSelected "string option"
  | StartSend
  | SendComplete string u64
  | SendFailed string
  | OutputDirChanged string
  | BrowseOutputDir
  | OpenOutputDir
  | OutputDirSelected "string option"
  | AutoAcceptToggled bool
  | CompressionToggled bool
  | CompressionLevelChanged "32 word"
  | ChunkSizeChanged u32
  | BandwidthLimitChanged string
  | MaxRetriesChanged u32
  | ConsoleAction

text \<open>What \<open>Command::perform\<close> is given: the task with the values it has taken along.\<close>

datatype gui_task =
    PickPath
  | PickOutputDir
  | ListenTask u16 uuid config_message string bool
  | PairTask string string uuid config_message
  | ConnectTask string u16 bool string uuid config_message
  | SendTask session_ref string config_message u32

text \<open>What a handler draws from outside: random numbers, new identifiers, the clock, the file system.\<close>

record gui_env =
  gv_rng :: "nat list"
  gv_transfer_id :: uuid
  gv_clock :: u64
  gv_exists :: "string \<Rightarrow> bool"
  gv_parse_f64 :: "string \<Rightarrow> f64 option"

definition on_connection :: "(connection_state \<Rightarrow> connection_state) \<Rightarrow> app_state \<Rightarrow> app_state" where
  "on_connection f s = s\<lparr> ap_connection := f (ap_connection s) \<rparr>"

definition on_send_tab :: "(send_tab \<Rightarrow> send_tab) \<Rightarrow> app_state \<Rightarrow> app_state" where
  "on_send_tab f s = s\<lparr> ap_send := f (ap_send s) \<rparr>"

definition on_receive_tab :: "(receive_tab \<Rightarrow> receive_tab) \<Rightarrow> app_state \<Rightarrow> app_state" where
  "on_receive_tab f s = s\<lparr> ap_receive := f (ap_receive s) \<rparr>"

definition on_settings :: "(app_settings \<Rightarrow> app_settings) \<Rightarrow> app_state \<Rightarrow> app_state" where
  "on_settings f s = s\<lparr> ap_settings := f (ap_settings s) \<rparr>"

definition set_status :: "string \<Rightarrow> bool \<Rightarrow> app_state \<Rightarrow> app_state" where
  "set_status txt active = on_connection (\<lambda>c. c\<lparr> cs_status_message := txt, cs_is_active := active \<rparr>)"

section \<open>The handlers\<close>

text \<open>\<open>None\<close> is the panic of an \<open>unwrap\<close>.\<close>

definition port_of :: "app_state \<Rightarrow> u16" where
  "port_of s = (case parse_unsigned 65535 (cs_port (ap_connection s)) of Some n \<Rightarrow> word_of_nat n | None \<Rightarrow> 14567)"

definition start_listen :: "app_state \<Rightarrow> (app_state \<times> gui_task option) option" where
  "start_listen s =
     (let port = port_of s;
          s1 = add_console_message (''Starting listener on port '' @ show_nat (unat port)) InfoIcon (set_status ''Listening'' True s)
      in case cs_device_id (ap_connection s1) of
           None \<Rightarrow> None
         | Some device_id \<Rightarrow>
             Some (s1\<lparr> ap_cancel_listener := False \<rparr>,
               Some (ListenTask port device_id (to_config_message (ap_settings s1)) (rt_output_dir (ap_receive s1))
                 (rt_auto_accept (ap_receive s1)))))"

definition start_rendezvous :: "app_state \<Rightarrow> (app_state \<times> gui_task option) option" where
  "start_rendezvous s =
     (let rendezvous = trim (cs_rendezvous_address (ap_connection s));
          code = trim (cs_code (ap_connection s))
      in if rendezvous = [] \<or> code = []
         then Some (add_console_message ''Enter both a rendezvous server and a code before pairing'' ErrorIcon
                     (set_status ''Idle'' False s), None)
         else
           let s1 = add_console_message (''Pairing through '' @ rendezvous @ '' with code '' @ [CHR 0x27] @ code @ [CHR 0x27] @
                      '' (this may take a moment)...'') InfoIcon (set_status ''Pairing...'' True s)
           in case cs_device_id (ap_connection s1) of
                None \<Rightarrow> None
              | Some device_id \<Rightarrow>
                  Some (s1, Some (PairTask rendezvous code device_id (to_config_message (ap_settings s1)))))"

definition start_connect :: "app_state \<Rightarrow> (app_state \<times> gui_task option) option" where
  "start_connect s =
     (let address = cs_peer_address (ap_connection s);
          port = port_of s;
          use_discovery = cs_use_discovery (ap_connection s);
          peer_fp_hex = trim (cs_peer_fingerprint (ap_connection s));
          note = (if use_discovery then ''Connecting using peer discovery...''
                  else if address \<noteq> [] then ''Connecting to '' @ address @ '':'' @ show_nat (unat port) @ ''...''
                  else ''Connecting to peer...'');
          s1 = add_console_message note InfoIcon (set_status ''Connecting...'' True s)
      in case cs_device_id (ap_connection s1) of
           None \<Rightarrow> None
         | Some device_id \<Rightarrow>
             Some (s1, Some (ConnectTask address port use_discovery peer_fp_hex device_id (to_config_message (ap_settings s1)))))"

definition handle_start_connection :: "app_state \<Rightarrow> (app_state \<times> gui_task option) option" where
  "handle_start_connection s =
     (case cs_mode (ap_connection s) of
        Listen \<Rightarrow> start_listen s | Rendezvous \<Rightarrow> start_rendezvous s | Connect \<Rightarrow> start_connect s)"

definition path_to_send :: "app_state \<Rightarrow> string option" where
  "path_to_send s =
     (case st_selected_path (ap_send s) of
        Some p \<Rightarrow> Some p
      | None \<Rightarrow> if st_path_input (ap_send s) \<noteq> [] then Some (st_path_input (ap_send s)) else None)"

definition handle_start_send :: "gui_env \<Rightarrow> app_state \<Rightarrow> app_state \<times> gui_task option" where
  "handle_start_send env s =
     (case ap_session s of
        None \<Rightarrow> (add_console_message ''Not connected. Please establish a connection first.'' ErrorIcon s, None)
      | Some session \<Rightarrow>
          (case path_to_send s of
             None \<Rightarrow> (add_console_message ''No path selected'' ErrorIcon s, None)
           | Some path \<Rightarrow>
               (if \<not> gv_exists env path
                then (add_console_message (''Path does not exist: '' @ path) ErrorIcon s, None)
                else
                  ((add_console_message (''Starting send: '' @ path) InfoIcon s)
                     \<lparr> ap_progress := Some \<lparr> gp_name = unwrap_or (file_name path) [], gp_total_bytes = 0,
                         gp_transferred_bytes = 0, gp_speed_bps = Finite 0, gp_is_sending = True \<rparr>,
                       ap_current_transfer := Some (record_new (gv_clock env) (gv_transfer_id env) Send ''peer'') \<rparr>,
                   Some (SendTask session path (to_config_message (ap_settings s)) (as_max_retries (ap_settings s)))))))"

definition close_transfer :: "(transfer_record \<Rightarrow> transfer_record) \<Rightarrow> app_state \<Rightarrow> app_state" where
  "close_transfer f s =
     (case ap_current_transfer s of
        None \<Rightarrow> s
      | Some r \<Rightarrow> s\<lparr> ap_current_transfer := None, ap_history := add_record (f r) (ap_history s) \<rparr>)"

definition send_complete_msg :: "gui_env \<Rightarrow> string \<Rightarrow> u64 \<Rightarrow> app_state \<Rightarrow> app_state" where
  "send_complete_msg env msg n s =
     (let s1 = add_console_message msg SuccessIcon s;
          name = (case ap_progress s1 of Some p \<Rightarrow> gp_name p | None \<Rightarrow> ''unknown'')
      in (close_transfer (record_complete (gv_clock env) [name] n) s1)\<lparr> ap_progress := None \<rparr>)"

definition send_failed_msg :: "gui_env \<Rightarrow> string \<Rightarrow> app_state \<Rightarrow> app_state" where
  "send_failed_msg env msg s =
     close_transfer (record_fail (gv_clock env) msg)
       (add_console_message (''Send failed: '' @ msg) ErrorIcon (s\<lparr> ap_progress := None \<rparr>))"

definition bandwidth_changed :: "gui_env \<Rightarrow> string \<Rightarrow> app_state \<Rightarrow> app_state" where
  "bandwidth_changed env limit =
     on_settings (\<lambda>a. let a1 = a\<lparr> as_bandwidth_input := limit \<rparr> in
       case parse_bandwidth (gv_parse_f64 env) limit of Inr bw \<Rightarrow> a1\<lparr> as_bandwidth_limit := bw \<rparr> | Inl e \<Rightarrow> a1)"

definition path_selected :: "string option \<Rightarrow> app_state \<Rightarrow> app_state" where
  "path_selected path s =
     (case path of
        None \<Rightarrow> s
      | Some p \<Rightarrow> on_send_tab (\<lambda>t. t\<lparr> st_path_input := p, st_selected_path := Some p \<rparr>) s)"

definition output_dir_selected :: "string option \<Rightarrow> app_state \<Rightarrow> app_state" where
  "output_dir_selected dir s =
     (case dir of
        None \<Rightarrow> s
      | Some d \<Rightarrow> on_receive_tab (\<lambda>t. t\<lparr> rt_output_input := d, rt_output_dir := d \<rparr>) s)"

definition open_output_dir :: "gui_env \<Rightarrow> app_state \<Rightarrow> app_state" where
  "open_output_dir env s =
     (let dir = rt_output_dir (ap_receive s) in
      if gv_exists env dir then add_console_message (''Opened directory: '' @ dir) InfoIcon s
      else add_console_message (''Directory does not exist: '' @ dir) ErrorIcon s)"

text \<open>A handler that only changes the state.\<close>

abbreviation only :: "app_state \<Rightarrow> (app_state \<times> gui_task option) option" where
  "only s \<equiv> Some (s, None)"

fun handle_message :: "gui_env \<Rightarrow> gui_message \<Rightarrow> app_state \<Rightarrow> (app_state \<times> gui_task option) option" where
  "handle_message env (TabSelected t) s = only (s\<lparr> ap_current_tab := t \<rparr>)"
| "handle_message env (ModeSelected m) s = only (on_connection (\<lambda>c. c\<lparr> cs_mode := m \<rparr>) s)"
| "handle_message env (PeerAddressChanged a) s = only (on_connection (\<lambda>c. c\<lparr> cs_peer_address := a \<rparr>) s)"
| "handle_message env (PortChanged p) s = only (on_connection (\<lambda>c. c\<lparr> cs_port := p \<rparr>) s)"
| "handle_message env (DiscoveryToggled b) s = only (on_connection (\<lambda>c. c\<lparr> cs_use_discovery := b \<rparr>) s)"
| "handle_message env (PeerFingerprintChanged fp) s = only (on_connection (\<lambda>c. c\<lparr> cs_peer_fingerprint := fp \<rparr>) s)"
| "handle_message env (RendezvousAddressChanged a) s = only (on_connection (\<lambda>c. c\<lparr> cs_rendezvous_address := a \<rparr>) s)"
| "handle_message env (CodeChanged code) s = only (on_connection (\<lambda>c. c\<lparr> cs_code := code \<rparr>) s)"
| "handle_message env GenerateCode s = only (on_connection (\<lambda>c. c\<lparr> cs_code := generate_code (gv_rng env) \<rparr>) s)"
| "handle_message env StartConnection s = handle_start_connection s"
| "handle_message env StopConnection s =
     only (add_console_message ''Connection stopped'' InfoIcon
       (set_status ''Idle'' False (s\<lparr> ap_cancel_listener := True, ap_session := None \<rparr>)))"
| "handle_message env (ConnectionEstablished msg) s =
     only (add_console_message msg SuccessIcon (set_status ''Connected'' True s))"
| "handle_message env (ConnectionEstablishedWithSession session msg) s =
     only (add_console_message msg SuccessIcon (set_status ''Connected'' True (s\<lparr> ap_session := Some session \<rparr>)))"
| "handle_message env (ConnectionFailed msg) s =
     only (add_console_message (''Connection failed: '' @ msg) ErrorIcon (set_status ''Idle'' False s))"
| "handle_message env (PathInputChanged p) s = only (on_send_tab (\<lambda>t. t\<lparr> st_path_input := p \<rparr>) s)"
| "handle_message env BrowseFile s = Some (s, Some PickPath)"
| "handle_message env BrowseFolder s = Some (s, Some PickPath)"
| "handle_message env (PathSelected p) s = only (path_selected p s)"
| "handle_message env StartSend s = Some (handle_start_send env s)"
| "handle_message env (SendComplete msg n) s = only (send_complete_msg env msg n s)"
| "handle_message env (SendFailed msg) s = only (send_failed_msg env msg s)"
| "handle_message env (OutputDirChanged d) s = only (on_receive_tab (\<lambda>t. t\<lparr> rt_output_input := d \<rparr>) s)"
| "handle_message env BrowseOutputDir s = Some (s, Some PickOutputDir)"
| "handle_message env OpenOutputDir s = only (open_output_dir env s)"
| "handle_message env (OutputDirSelected d) s = only (output_dir_selected d s)"
| "handle_message env (AutoAcceptToggled b) s = only (on_receive_tab (\<lambda>t. t\<lparr> rt_auto_accept := b \<rparr>) s)"
| "handle_message env (CompressionToggled b) s = only (on_settings (\<lambda>a. a\<lparr> as_compression_enabled := b \<rparr>) s)"
| "handle_message env (CompressionLevelChanged n) s = only (on_settings (\<lambda>a. a\<lparr> as_compression_level := n \<rparr>) s)"
| "handle_message env (ChunkSizeChanged n) s = only (on_settings (\<lambda>a. a\<lparr> as_chunk_size_kb := n \<rparr>) s)"
| "handle_message env (BandwidthLimitChanged limit) s = only (bandwidth_changed env limit s)"
| "handle_message env (MaxRetriesChanged n) s = only (on_settings (\<lambda>a. a\<lparr> as_max_retries := n \<rparr>) s)"
| "handle_message env ConsoleAction s = only s"

section \<open>The event system\<close>

text \<open>
  The messages the views offer: the button that starts a connection only while none is active, the one
  that stops it only while one is, the one that sends only while no transfer is under way and a path
  is entered. The results of tasks are never offered.
\<close>

definition action_button :: "app_state \<Rightarrow> gui_message" where
  "action_button s = (if cs_is_active (ap_connection s) then StopConnection else StartConnection)"

definition send_button :: "app_state \<Rightarrow> gui_message option" where
  "send_button s = (if ap_progress s \<noteq> None \<or> st_path_input (ap_send s) = [] then None else Some StartSend)"

lemma button_simps [simp]:
  "action_button s = StartConnection \<longleftrightarrow> \<not> cs_is_active (ap_connection s)"
  "action_button s = StopConnection \<longleftrightarrow> cs_is_active (ap_connection s)"
  "send_button s = Some StartSend \<longleftrightarrow> ap_progress s = None \<and> st_path_input (ap_send s) \<noteq> []"
  by (simp_all add: action_button_def send_button_def)

definition offered :: "app_state \<Rightarrow> gui_message \<Rightarrow> bool" where
  "offered s m =
     (case m of
        StartConnection \<Rightarrow> action_button s = StartConnection
      | StopConnection \<Rightarrow> action_button s = StopConnection
      | StartSend \<Rightarrow> send_button s = Some StartSend
      | ConnectionEstablished msg \<Rightarrow> False
      | ConnectionEstablishedWithSession r msg \<Rightarrow> False
      | ConnectionFailed msg \<Rightarrow> False
      | PathSelected p \<Rightarrow> False
      | SendComplete msg n \<Rightarrow> False
      | SendFailed msg \<Rightarrow> False
      | OutputDirSelected d \<Rightarrow> False
      | _ \<Rightarrow> True)"

text \<open>The messages a task may end with.\<close>

definition result_of :: "gui_task \<Rightarrow> gui_message \<Rightarrow> bool" where
  "result_of t m =
     (case t of
        PickPath \<Rightarrow> (case m of PathSelected p \<Rightarrow> True | _ \<Rightarrow> False)
      | PickOutputDir \<Rightarrow> (case m of OutputDirSelected d \<Rightarrow> True | _ \<Rightarrow> False)
      | ListenTask port dev cfg dir auto \<Rightarrow>
          (case m of ConnectionEstablished msg \<Rightarrow> True | ConnectionFailed msg \<Rightarrow> True | _ \<Rightarrow> False)
      | PairTask rz code dev cfg \<Rightarrow>
          (case m of ConnectionEstablishedWithSession r msg \<Rightarrow> True | ConnectionFailed msg \<Rightarrow> True | _ \<Rightarrow> False)
      | ConnectTask addr port disc fp dev cfg \<Rightarrow>
          (case m of ConnectionEstablishedWithSession r msg \<Rightarrow> True | ConnectionFailed msg \<Rightarrow> True | _ \<Rightarrow> False)
      | SendTask r path cfg retries \<Rightarrow>
          (case m of SendComplete msg n \<Rightarrow> True | SendFailed msg \<Rightarrow> True | _ \<Rightarrow> False))"

definition spawn :: "gui_task option \<Rightarrow> gui_task list \<Rightarrow> gui_task list" where
  "spawn t ts = (case t of None \<Rightarrow> ts | Some x \<Rightarrow> x # ts)"

text \<open>\<open>gui_run id ms s ts\<close>: after handling the messages \<open>ms\<close>, latest first, the state is \<open>s\<close> and the tasks \<open>ts\<close> run.\<close>

inductive gui_run :: "uuid \<Rightarrow> gui_message list \<Rightarrow> app_state \<Rightarrow> gui_task list \<Rightarrow> bool" for dev where
  gui_start: "gui_run dev [] (app_new dev) []"
| gui_user: "gui_run dev ms s ts \<Longrightarrow> offered s m \<Longrightarrow> handle_message env m s = Some (s', t) \<Longrightarrow>
     gui_run dev (m # ms) s' (spawn t ts)"
| gui_result: "gui_run dev ms s (as @ t # bs) \<Longrightarrow> result_of t m \<Longrightarrow> handle_message env m s = Some (s', t') \<Longrightarrow>
     gui_run dev (m # ms) s' (spawn t' (as @ bs))"

definition is_send :: "gui_task \<Rightarrow> bool" where
  "is_send t = (case t of SendTask r path cfg retries \<Rightarrow> True | _ \<Rightarrow> False)"

definition ends_send :: "gui_message \<Rightarrow> bool" where
  "ends_send m = (case m of SendComplete msg n \<Rightarrow> True | SendFailed msg \<Rightarrow> True | _ \<Rightarrow> False)"

lemma is_send_simps [simp]:
  "is_send (SendTask r path cfg retries)" "\<not> is_send PickPath" "\<not> is_send PickOutputDir"
  "\<not> is_send (ListenTask port dev cfg dir auto)" "\<not> is_send (PairTask rz code dev cfg)"
  "\<not> is_send (ConnectTask addr port disc fp dev cfg)"
  by (simp_all add: is_send_def)

text \<open>
  Well-formed states: the device has its identifier; the status text says whether a connection is
  active; there is a progress display exactly while a record of the transfer is kept; the records of
  the history are of sends that ended.
\<close>

definition status_ok :: "connection_state \<Rightarrow> bool" where
  "status_ok c \<longleftrightarrow>
     (if cs_is_active c then cs_status_message c \<in> {''Listening'', ''Pairing...'', ''Connecting...'', ''Connected''}
      else cs_status_message c = ''Idle'')"

definition app_ok :: "uuid \<Rightarrow> app_state \<Rightarrow> bool" where
  "app_ok dev s \<longleftrightarrow>
     cs_device_id (ap_connection s) = Some dev \<and> status_ok (ap_connection s) \<and>
     (ap_progress s \<noteq> None \<longleftrightarrow> ap_current_transfer s \<noteq> None) \<and>
     (\<forall>r. ap_current_transfer s = Some r \<longrightarrow> tr_direction r = Send) \<and>
     (\<forall>r \<in> set (ap_history s). tr_direction r = Send \<and> tr_status r \<in> {Completed, Failed})"

lemmas gui_defs = on_connection_def on_send_tab_def on_receive_tab_def on_settings_def set_status_def add_console_message_def
  bandwidth_changed_def path_selected_def output_dir_selected_def open_output_dir_def

lemmas start_defs = start_listen_def start_rendezvous_def start_connect_def

lemma app_new_ok: "app_ok dev (app_new dev)"
  by (simp add: app_ok_def app_new_def status_ok_def history_new_def)

text \<open>The part of the state a handler other than those of transfers leaves alone.\<close>

definition transfer_part :: "app_state \<Rightarrow> transfer_progress option \<times> transfer_record option \<times> history" where
  "transfer_part s = (ap_progress s, ap_current_transfer s, ap_history s)"

lemma start_connection_ok:
  assumes "app_ok dev s"
  shows "\<exists>s' t. handle_start_connection s = Some (s', t) \<and> app_ok dev s' \<and> transfer_part s' = transfer_part s \<and>
    (\<forall>x. t = Some x \<longrightarrow> \<not> is_send x)"
  using assms
  by (cases "cs_mode (ap_connection s)")
     (auto simp: handle_start_connection_def start_defs gui_defs app_ok_def status_ok_def transfer_part_def Let_def)

lemma start_send_cases:
  assumes "handle_start_send env s = (s', t)"
  shows "t = None \<and> transfer_part s' = transfer_part s \<and> ap_connection s' = ap_connection s
    \<or> (\<exists>x r. t = Some x \<and> is_send x \<and> ap_progress s' \<noteq> None \<and> ap_current_transfer s' = Some r \<and> tr_direction r = Send \<and>
        ap_history s' = ap_history s \<and> ap_connection s' = ap_connection s)"
  using assms
  by (auto simp: handle_start_send_def gui_defs transfer_part_def record_new_def split: option.splits if_splits)

lemma ends_send_simps [simp]:
  "ends_send (SendComplete msg n)" "ends_send (SendFailed msg)" "\<not> ends_send StartSend"
  by (simp_all add: ends_send_def)

text \<open>A handler never panics, keeps the state well formed, and says what becomes of the transfer.\<close>

lemma handle_message_ok:
  assumes "app_ok dev s"
  shows "\<exists>s' t. handle_message env m s = Some (s', t) \<and> app_ok dev s' \<and>
    (if ends_send m
     then t = None \<and> ap_progress s' = None \<and>
       length (ap_history s') = length (ap_history s) + (if ap_progress s = None then 0 else 1)
     else ap_history s' = ap_history s \<and>
       (if \<exists>x. t = Some x \<and> is_send x then m = StartSend \<and> ap_progress s' \<noteq> None else ap_progress s' = ap_progress s))"
proof (cases m)
  case StartConnection
  from start_connection_ok [OF assms] obtain s' t where
    "handle_start_connection s = Some (s', t)" "app_ok dev s'" "transfer_part s' = transfer_part s" "\<forall>x. t = Some x \<longrightarrow> \<not> is_send x"
    by blast
  with StartConnection show ?thesis by (auto simp: transfer_part_def ends_send_def)
next
  case StartSend
  obtain s' t where st: "handle_start_send env s = (s', t)" by fastforce
  from start_send_cases [OF st] assms have "app_ok dev s'" by (auto simp: app_ok_def transfer_part_def)
  with start_send_cases [OF st] show ?thesis by (auto simp: StartSend st transfer_part_def)
next
  case (SendComplete msg n)
  with assms show ?thesis
    by (auto simp: send_complete_msg_def close_transfer_def gui_defs app_ok_def add_record_def Let_def split: option.splits)
next
  case (SendFailed msg)
  with assms show ?thesis
    by (auto simp: send_failed_msg_def close_transfer_def gui_defs app_ok_def add_record_def split: option.splits)
qed (use assms in \<open>auto simp: ends_send_def gui_defs app_ok_def status_ok_def Let_def split: option.splits sum.splits\<close>)

definition sends :: "gui_task list \<Rightarrow> nat" where
  "sends ts = length (filter is_send ts)"

lemma sends_simps [simp]:
  "sends [] = 0" "sends (x # ts) = (if is_send x then 1 else 0) + sends ts" "sends (as @ bs) = sends as + sends bs"
  "sends (spawn t ts) = (if \<exists>x. t = Some x \<and> is_send x then 1 else 0) + sends ts"
  by (auto simp: sends_def spawn_def split: option.splits)

lemma result_of_ends: "result_of t m \<Longrightarrow> ends_send m = is_send t \<and> m \<noteq> StartSend"
  by (auto simp: result_of_def ends_send_def is_send_def split: gui_task.splits gui_message.splits)

lemma offered_ends: "offered s m \<Longrightarrow> \<not> ends_send m \<and> (m = StartSend \<longrightarrow> ap_progress s = None)"
  by (auto simp: offered_def ends_send_def split: gui_message.splits)

lemma gui_run_ok:
  assumes "gui_run dev ms s ts"
  shows "app_ok dev s \<and> sends ts = (if ap_progress s = None then 0 else 1) \<and>
    length (ap_history s) = length (filter ends_send ms)"
  using assms
proof induction
  case gui_start
  then show ?case using app_new_ok [of dev] by (simp add: app_new_def history_new_def)
next
  case (gui_user ms s ts m env s' t)
  obtain s1 t1 where h: "handle_message env m s = Some (s1, t1)" "app_ok dev s1"
      "if ends_send m then t1 = None \<and> ap_progress s1 = None \<and>
         length (ap_history s1) = length (ap_history s) + (if ap_progress s = None then 0 else 1)
       else ap_history s1 = ap_history s \<and>
         (if \<exists>x. t1 = Some x \<and> is_send x then m = StartSend \<and> ap_progress s1 \<noteq> None else ap_progress s1 = ap_progress s)"
    using handle_message_ok [of dev s env m] gui_user.IH by blast
  then show ?case using gui_user.hyps(3) gui_user.IH offered_ends [OF gui_user.hyps(2)] by (auto split: if_splits)
next
  case (gui_result ms s as t bs m env s' t')
  obtain s1 t1 where h: "handle_message env m s = Some (s1, t1)" "app_ok dev s1"
      "if ends_send m then t1 = None \<and> ap_progress s1 = None \<and>
         length (ap_history s1) = length (ap_history s) + (if ap_progress s = None then 0 else 1)
       else ap_history s1 = ap_history s \<and>
         (if \<exists>x. t1 = Some x \<and> is_send x then m = StartSend \<and> ap_progress s1 \<noteq> None else ap_progress s1 = ap_progress s)"
    using handle_message_ok [of dev s env m] gui_result.IH by blast
  then show ?case using gui_result.hyps(3) gui_result.IH result_of_ends [OF gui_result.hyps(2)] by (auto split: if_splits)
qed

text \<open>
  C18: whatever the user does and in whatever order the tasks end, no handler panics: from
  every state that can come about every message leads to a state again, and every state is well
  formed. In particular the progress display is there exactly while one send is under way, never
  more than one is, and each send that has ended is in the history exactly once.
\<close>

theorem gui_progress_preservation:
  assumes "gui_run dev ms s ts"
  shows "(\<exists>s' t. handle_message env m s = Some (s', t)) \<and>
    cs_device_id (ap_connection s) = Some dev \<and> status_ok (ap_connection s) \<and>
    length (filter is_send ts) = (if ap_progress s = None then 0 else 1) \<and>
    (ap_current_transfer s = None \<longleftrightarrow> ap_progress s = None) \<and>
    length (ap_history s) = length (filter ends_send ms) \<and>
    (\<forall>r \<in> set (ap_history s). tr_direction r = Send \<and> tr_status r \<in> {Completed, Failed})"
  using gui_run_ok [OF assms] handle_message_ok [of dev s env m]
  by (auto simp: app_ok_def sends_def split: if_splits)

section \<open>Runs\<close>

text \<open>The task the listen button starts at first.\<close>

definition first_listener :: "uuid \<Rightarrow> gui_task" where
  "first_listener dev = ListenTask 14567 dev (to_config_message settings_default) ''./received'' False"

lemma default_port: "parse_unsigned 65535 ''14567'' = Some 14567"
  by (simp add: parse_unsigned_def digit_val_def)

lemma listening_run:
  "\<exists>s. gui_run dev [StartConnection] s [first_listener dev] \<and> s = (app_new dev)
     \<lparr> ap_connection := (ap_connection (app_new dev))\<lparr> cs_status_message := ''Listening'', cs_is_active := True \<rparr>,
       ap_console := ap_console s \<rparr>"
proof -
  have "offered (app_new dev) StartConnection" by (simp add: offered_def app_new_def)
  moreover have "\<exists>s. handle_message env StartConnection (app_new dev) = Some (s, Some (first_listener dev)) \<and> s = (app_new dev)
     \<lparr> ap_connection := (ap_connection (app_new dev))\<lparr> cs_status_message := ''Listening'', cs_is_active := True \<rparr>,
       ap_console := ap_console s \<rparr>" for env
    by (simp add: handle_start_connection_def start_listen_def app_new_def gui_defs port_of_def default_port first_listener_def)
  ultimately show ?thesis using gui_user [OF gui_start, of dev StartConnection] by (fastforce simp: spawn_def)
qed

lemma stopped_run:
  "\<exists>s. gui_run dev [StopConnection, StartConnection] s [first_listener dev] \<and> s = (app_new dev)
     \<lparr> ap_cancel_listener := True, ap_console := ap_console s \<rparr>"
proof -
  obtain s where s: "gui_run dev [StartConnection] s [first_listener dev]" "s = (app_new dev)
     \<lparr> ap_connection := (ap_connection (app_new dev))\<lparr> cs_status_message := ''Listening'', cs_is_active := True \<rparr>,
       ap_console := ap_console s \<rparr>"
    using listening_run [of dev] by blast
  have "offered s StopConnection" by (subst s(2)) (simp add: offered_def)
  moreover have "\<exists>s'. handle_message env StopConnection s = Some (s', None) \<and> s' = (app_new dev)
     \<lparr> ap_cancel_listener := True, ap_console := ap_console s' \<rparr>" for env
    by (subst (1) s(2)) (simp add: gui_defs app_new_def)
  ultimately show ?thesis using gui_user [OF s(1), of StopConnection] by (fastforce simp: spawn_def)
qed

theorem gui_progress_preservation_witness:
  "\<exists>s s' t. gui_run (Uuid 1) [StopConnection, StartConnection] s [first_listener (Uuid 1)] \<and>
     handle_message \<lparr> gv_rng = [], gv_transfer_id = Uuid 2, gv_clock = 0, gv_exists = (\<lambda>p. True), gv_parse_f64 = (\<lambda>t. None) \<rparr>
       StartSend s = Some (s', t)"
proof -
  obtain s where s: "gui_run (Uuid 1) [StopConnection, StartConnection] s [first_listener (Uuid 1)]"
    using stopped_run by blast
  with gui_progress_preservation [OF s] show ?thesis by blast
qed

text \<open>
  A listener that was stopped may still report that it was established; the interface then shows a
  connection that does not exist.
\<close>

lemma stopped_listener_shown_connected:
  "\<exists>s. gui_run dev [ConnectionEstablished ''Listener stopped'', StopConnection, StartConnection] s [] \<and>
     cs_status_message (ap_connection s) = ''Connected'' \<and> cs_is_active (ap_connection s) \<and> ap_session s = None"
proof -
  obtain s where s: "gui_run dev [StopConnection, StartConnection] s [first_listener dev]"
      "s = (app_new dev)\<lparr> ap_cancel_listener := True, ap_console := ap_console s \<rparr>"
    using stopped_run by blast
  have "result_of (first_listener dev) (ConnectionEstablished ''Listener stopped'')"
    by (simp add: result_of_def first_listener_def)
  moreover have "ap_session s = None" by (subst s(2)) (simp add: app_new_def)
  ultimately show ?thesis
    using gui_result [of dev "[StopConnection, StartConnection]" s "[]" "first_listener dev" "[]"
        "ConnectionEstablished ''Listener stopped''"] s(1)
    by (fastforce simp: spawn_def gui_defs)
qed

text \<open>
  Stopping and starting again clears the flag the first listener polls, so that two listeners run,
  neither of them told to stop.
\<close>

lemma two_listeners:
  "\<exists>s. gui_run dev [StartConnection, StopConnection, StartConnection] s [first_listener dev, first_listener dev] \<and>
     \<not> ap_cancel_listener s"
proof -
  obtain s where s: "gui_run dev [StopConnection, StartConnection] s [first_listener dev]"
      "s = (app_new dev)\<lparr> ap_cancel_listener := True, ap_console := ap_console s \<rparr>"
    using stopped_run by blast
  have "offered s StartConnection" by (subst s(2)) (simp add: offered_def app_new_def)
  moreover have "\<exists>s'. handle_message env StartConnection s = Some (s', Some (first_listener dev)) \<and> \<not> ap_cancel_listener s'" for env
    by (subst s(2)) (simp add: handle_start_connection_def start_listen_def app_new_def gui_defs port_of_def default_port
        first_listener_def)
  ultimately show ?thesis using gui_user [OF s(1), of StartConnection] by (fastforce simp: spawn_def)
qed

text \<open>What was browsed for is sent, whatever path is typed afterwards; a typed output directory is never used.\<close>

lemma typed_path_ignored:
  assumes "handle_message env (PathSelected (Some p)) s = Some (s1, t1)" "handle_message env (PathInputChanged q) s1 = Some (s2, t2)"
  shows "path_to_send s2 = Some p"
  using assms by (auto simp: gui_defs path_to_send_def)

lemma typed_output_ignored:
  assumes "handle_message env (OutputDirChanged d) s = Some (s1, t)"
  shows "rt_output_dir (ap_receive s1) = rt_output_dir (ap_receive s)"
  using assms by (auto simp: gui_defs)

text \<open>The progress shown for a transfer never moves: nothing writes it after the transfer has started.\<close>

lemma progress_never_moves:
  "gui_run dev ms s ts \<Longrightarrow> ap_progress s = Some p \<Longrightarrow> gp_transferred_bytes p = 0 \<and> gp_total_bytes p = 0"
proof -
  have step: "ap_progress s' = ap_progress s \<or> ap_progress s' = None \<or>
      (\<exists>p. ap_progress s' = Some p \<and> gp_transferred_bytes p = 0 \<and> gp_total_bytes p = 0)"
    if "handle_message env m s = Some (s', t)" for env m s s' t
    using that
    by (cases m) (auto simp: gui_defs start_defs handle_start_connection_def handle_start_send_def send_complete_msg_def
        send_failed_msg_def close_transfer_def bandwidth_changed_def path_selected_def output_dir_selected_def open_output_dir_def
        Let_def split: connection_mode.splits option.splits if_splits)
  show "gui_run dev ms s ts \<Longrightarrow> ap_progress s = Some p \<Longrightarrow> gp_transferred_bytes p = 0 \<and> gp_total_bytes p = 0"
    by (induction rule: gui_run.induct) (auto simp: app_new_def dest!: step)
qed

end
