(* ===== verification/Cli_Send.thy ===== *)
theory Cli_Send
  imports Cli_Receive
begin

text \<open>
  The sending and the resuming command, \<open>p2p-cli/src/send.rs\<close> and \<open>p2p-cli/src/resume.rs\<close>: the flags
  become the configuration the session negotiates, the transfer runs under \<open>send_path\<close>, and its end is
  recorded; what a failed send saved is where the resuming command goes on. The state files, the
  history file and the files sent are kept apart. Ctrl+C, which drops the transfer where it stands, is
  not modelled; that the fuel is spent is \<open>None\<close>.
\<close>

section \<open>The flags\<close>

record transfer_params =
  tp_compress :: bool
  tp_compress_level :: "32 word"
  tp_adaptive :: bool
  tp_chunk_size :: u32
  tp_max_speed :: u64
  tp_max_reconnect_attempts :: u32

text \<open>The chunk size is given in KiB; the product wraps around.\<close>

definition config_of_flags :: "transfer_params \<Rightarrow> config_message" where
  "config_of_flags t =
     \<lparr> compression_enabled = tp_compress t, compression_level = tp_compress_level t,
       adaptive_compression = tp_adaptive t, chunk_size = tp_chunk_size t * 1024,
       bandwidth_limit = tp_max_speed t \<rparr>"

definition reconnect_config_of :: "u32 \<Rightarrow> reconnect_config" where
  "reconnect_config_of attempts = reconnect_default\<lparr> rc_max_attempts := attempts \<rparr>"

section \<open>The commands\<close>

record send_cmd =
  sm_cli :: cli_env
  sm_send :: send_env
  sm_create_dir :: "string \<Rightarrow> io_error option"
  sm_canonicalize :: "string \<Rightarrow> io_error + string"
  sm_json :: json
  sm_history_path :: string
  sm_clock :: "u64 \<times> u64 \<times> u64"
  sm_device_id :: uuid
  sm_session_id :: uuid
  sm_transfer_id :: uuid
  sm_state_ids :: "uuid \<times> uuid"
  sm_now :: rat

datatype cmd_end = Succeeded | FailedWith cli_error | Stuck stop

type_synonym user_files = "(string \<Rightarrow> string option) \<times> fstate"

definition record_send :: "send_cmd \<Rightarrow> transfer_record \<Rightarrow> fstate \<Rightarrow> fstate" where
  "record_send m r d = snd (append_record (sm_json m) (sm_history_path m) (snd (snd (sm_clock m))) r d)"

text \<open>The body of the sending command, once there is a session.\<close>

definition send_transfer ::
  "nat \<Rightarrow> send_cmd \<Rightarrow> string option \<Rightarrow> u32 \<Rightarrow> string \<Rightarrow> send_world \<Rightarrow> fstate \<Rightarrow> (cmd_end \<times> send_world \<times> fstate) option" where
  "send_transfer fuel m state_dir attempts peer_addr w store =
     (case derive_base_name (sm_canonicalize m) (sd_path (sm_send m)) of
        Inl e \<Rightarrow> Some (FailedWith e, w, store)
      | Inr base_name \<Rightarrow>
     (case resolve_state_file (sm_create_dir m) state_dir (ce_uuid_text (sm_cli m) (sm_transfer_id m)) of
        Inl e \<Rightarrow> Some (FailedWith e, w, store)
      | Inr state_file \<Rightarrow>
          (let (start, stop, _) = sm_clock m;
               rec = record_new start (sm_transfer_id m) Send peer_addr
           in case send_path fuel (sm_send m) (reconnect_config_of attempts) (Some state_file) (sm_state_ids m)
                     (w\<lparr> sw_progress := Some (progress_new 0) \<rparr>) of
                None \<Rightarrow> None
              | Some (Inr summary, w') \<Rightarrow>
                  (let files = (if sum_files summary = [] then [base_name] else sum_files summary);
                       n = (case sw_progress w' of Some p \<Rightarrow> ps_transferred_bytes p | None \<Rightarrow> 0)
                   in Some (Succeeded, w'\<lparr> sw_files := (sw_files w')(state_file := None) \<rparr>,
                        record_send m (record_complete stop files n rec) store))
              | Some (Inl (Err e), w') \<Rightarrow>
                  Some (FailedWith (FromCore e), w', record_send m (record_fail stop (display e) rec) store)
              | Some (Inl stopped, w') \<Rightarrow> Some (Stuck stopped, w', store))))"

definition session_world :: "send_cmd \<Rightarrow> config_message \<Rightarrow> p2p_session \<Rightarrow> (string \<Rightarrow> string option) \<Rightarrow> send_world" where
  "session_world m cfg s fs =
     \<lparr> sw_session = s, sw_state = folder_state_new (fst (sm_state_ids m)) [] [] cfg, sw_files = fs,
       sw_progress = None, sw_now = sm_now m, sw_dials = 0 \<rparr>"

definition handle_send ::
  "nat \<Rightarrow> send_cmd \<Rightarrow> string option \<Rightarrow> session_params \<Rightarrow> transfer_params \<Rightarrow> string option \<Rightarrow> texts \<Rightarrow> user_files \<Rightarrow>
     (cmd_end \<times> user_files) option" where
  "handle_send fuel m state_dir ps t identity_dir ids files =
     (if sd_source (sm_send m) = None
      then Some (FailedWith (Plain (''Path does not exist: '' @ sd_path (sm_send m))), files)
      else
        let cfg = config_of_flags t in
        case load_or_generate (sn_libs (ce_net (sm_cli m))) identity_dir ids of
          None \<Rightarrow> Some (Stuck Panic, files)
        | Some (Inl e, ids') \<Rightarrow> Some (FailedWith (FromCore e), files)
        | Some (Inr ident, ids') \<Rightarrow>
       (case establish_session (sm_cli m) 0 ps ''client'' ident (sm_device_id m) (Some cfg) (sm_session_id m) of
          None \<Rightarrow> Some (Stuck Panic, files)
        | Some (Inl e) \<Rightarrow> Some (FailedWith e, files)
        | Some (Inr s) \<Rightarrow>
            map_option (\<lambda>(res, w, d). (res, (sw_files w, d)))
              (send_transfer fuel m state_dir (tp_max_reconnect_attempts t)
                 (at_show_sa (ce_addr_text (sm_cli m)) (cn_peer_addr (pe_connection s)))
                 (session_world m cfg s (fst files)) (snd files))))"

text \<open>
  The resuming command negotiates the configuration of the saved record, and leaves no record in the
  history. The world of the transfer is returned as well, if it came to one.
\<close>

definition handle_resume ::
  "nat \<Rightarrow> send_cmd \<Rightarrow> string \<Rightarrow> string option \<Rightarrow> u32 \<Rightarrow> session_params \<Rightarrow> string option \<Rightarrow> texts \<Rightarrow>
     (string \<Rightarrow> string option) \<Rightarrow> (cmd_end \<times> send_world option) option" where
  "handle_resume fuel m transfer_id state_dir attempts ps identity_dir ids fs =
     (if sd_source (sm_send m) = None
      then Some (FailedWith (Plain (''Path does not exist: '' @ sd_path (sm_send m))), None)
      else
     (case resolve_state_file (sm_create_dir m) state_dir transfer_id of
        Inl e \<Rightarrow> Some (FailedWith e, None)
      | Inr state_path \<Rightarrow>
     (if fs state_path = None
      then Some (FailedWith (Plain (''State file not found: '' @ state_path @
             ''. (If the original `send` ran with --state-dir, pass the same value here.)'')), None)
      else
     (case fst (load_from_file (sd_of_json (sm_send m)) state_path fs) of
        Inl e \<Rightarrow> Some (FailedWith (FromCore e), None)
      | Inr st \<Rightarrow>
     (case load_or_generate (sn_libs (ce_net (sm_cli m))) identity_dir ids of
        None \<Rightarrow> Some (Stuck Panic, None)
      | Some (Inl e, ids') \<Rightarrow> Some (FailedWith (FromCore e), None)
      | Some (Inr ident, ids') \<Rightarrow>
     (case establish_session (sm_cli m) 0 ps ''client'' ident (sm_device_id m) (Some (ft_config st)) (sm_session_id m) of
        None \<Rightarrow> Some (Stuck Panic, None)
      | Some (Inl e) \<Rightarrow> Some (FailedWith e, None)
      | Some (Inr s) \<Rightarrow>
          (let progress = add_bytes (ft_transferred_bytes st) (progress_new (ft_total_bytes st));
               w = (session_world m (ft_config st) s fs)\<lparr> sw_progress := Some progress \<rparr>
           in case send_path fuel (sm_send m) (reconnect_config_of attempts) (Some state_path) (sm_state_ids m) w of
                None \<Rightarrow> None
              | Some (Inr summary, w') \<Rightarrow>
                  Some (Succeeded, Some (w'\<lparr> sw_files := (sw_files w')(state_path := None) \<rparr>))
              | Some (Inl (Err e), w') \<Rightarrow> Some (FailedWith (FromCore e), Some w')
              | Some (Inl stopped, w') \<Rightarrow> Some (Stuck stopped, Some w'))))))))"

section \<open>Resuming\<close>

lemma session_connect_config:
  assumes "session_connect env n addr fp ident dev cfg sid = Inr s"
  shows "hr_config (pe_handshake s) = cfg"
proof -
  obtain ep c where "opened ep ident dev sid (Some (addr, fp))
        (client_handshake (sn_rmp env) (handshake_party_new dev ident) cfg c) = Inr s"
    using assms by (auto simp: session_connect_def)
  then show ?thesis by (auto simp: opened_def dest: client_vouches(3) split: prod.splits sum.splits)
qed

lemma established_config:
  assumes "establish_session env n ps ''client'' ident dev (Some cfg) sid = Some (Inr s)"
    and "sp_rendezvous ps = None" "get_role ps ''client'' \<noteq> ''server''"
  shows "hr_config (pe_handshake s) = cfg"
  using assms session_connect_config
  by (auto simp: establish_session_def is_rendezvous_mode_def split: option.splits sum.splits)

lemma derive_not_core: "derive_base_name canon p = Inl e \<Longrightarrow> e \<noteq> FromCore x"
  by (auto simp: derive_base_name_def split: option.splits sum.splits)

lemma resolve_not_core: "resolve_state_file mk dir tid = Inl e \<Longrightarrow> e \<noteq> FromCore x"
  by (auto simp: resolve_state_file_def Let_def split: option.splits)

text \<open>A send that ends with an error of the core has come to \<open>send_path\<close>, with a state file of its number.\<close>

lemma send_transfer_failed:
  assumes "send_transfer fuel m dir attempts addr w store = Some (FailedWith (FromCore e), w1, store1)"
  obtains state_file where "resolve_state_file (sm_create_dir m) dir (ce_uuid_text (sm_cli m) (sm_transfer_id m)) = Inr state_file"
    "send_path fuel (sm_send m) (reconnect_config_of attempts) (Some state_file) (sm_state_ids m)
       (w\<lparr> sw_progress := Some (progress_new 0) \<rparr>) = Some (Inl (Err e), w1)"
proof -
  obtain base where b: "derive_base_name (sm_canonicalize m) (sd_path (sm_send m)) = Inr base"
    using assms derive_not_core
    by (cases "derive_base_name (sm_canonicalize m) (sd_path (sm_send m))") (auto simp: send_transfer_def)
  obtain state_file where r: "resolve_state_file (sm_create_dir m) dir (ce_uuid_text (sm_cli m) (sm_transfer_id m)) = Inr state_file"
    using assms b resolve_not_core
    by (cases "resolve_state_file (sm_create_dir m) dir (ce_uuid_text (sm_cli m) (sm_transfer_id m))")
       (auto simp: send_transfer_def)
  have "send_path fuel (sm_send m) (reconnect_config_of attempts) (Some state_file) (sm_state_ids m)
       (w\<lparr> sw_progress := Some (progress_new 0) \<rparr>) = Some (Inl (Err e), w1)"
    using assms b r by (auto simp: send_transfer_def Let_def split: prod.splits option.splits sum.splits stop.splits)
  with r that show ?thesis by blast
qed

lemma handle_resume_success:
  assumes "handle_resume fuel m tid dir attempts ps idir ids fs = Some (Succeeded, Some w2)"
  obtains state_path st ident s w' sm where
    "resolve_state_file (sm_create_dir m) dir tid = Inr state_path"
    "fst (load_from_file (sd_of_json (sm_send m)) state_path fs) = Inr st"
    "establish_session (sm_cli m) 0 ps ''client'' ident (sm_device_id m) (Some (ft_config st)) (sm_session_id m) = Some (Inr s)"
    "send_path fuel (sm_send m) (reconnect_config_of attempts) (Some state_path) (sm_state_ids m)
       ((session_world m (ft_config st) s fs)\<lparr> sw_progress :=
          Some (add_bytes (ft_transferred_bytes st) (progress_new (ft_total_bytes st))) \<rparr>) = Some (Inr sm, w')"
    "w2 = w'\<lparr> sw_files := (sw_files w')(state_path := None) \<rparr>"
  using assms
  by (auto simp: handle_resume_def Let_def split: if_splits option.splits sum.splits prod.splits stop.splits)


section \<open>A send that failed, resumed\<close>

text \<open>The file of the demonstrations, sent by any session whose peer answers as it should.\<close>

lemma demo_send_any:
  assumes prep: "prepare ''d/a'' (Some (FileNode [5] 0)) (s\<lparr> fo_transfer_start := Some (fo_now s), fo_total_compressed_bytes := 0 \<rparr>) = (Inr None, s0)"
    and s0: "fo_state s0 = demo_state" "fo_transfer_id s0 = Uuid 7" "fo_config s0 = demo_config" "fo_now s0 = 0"
      "fo_transfer_start s0 = Some 0"
    and io: "wr_fail (cn_send (fo_connection s0)) = None" "rd_bytes (cn_recv (fo_connection s0)) = frame_of [1] @ frame_of [2]"
  shows "\<exists>s'. folder_send demo_fenv [''d/a'' \<mapsto> [5]] ''d/a'' (Some (FileNode [5] 0)) s = (Inr (), s')"
proof -
  let ?disk = "[''d/a'' \<mapsto> [5]] :: disk"
  let ?p = "with_progress (set_total_bytes (ft_total_bytes (fo_state s0))) s0"
  have p: "fo_state ?p = demo_state" "fo_transfer_id ?p = Uuid 7" "fo_config ?p = demo_config" "fo_now ?p = 0"
      "fo_transfer_start ?p = Some 0" "fo_connection ?p = fo_connection s0"
    using s0 by (simp_all add: with_progress_def)
  have rmp: "fe_rmp demo_fenv = demo_codec" by (simp add: demo_fenv_def)
  have info: "TransferInfoMsg (manifest None s0) = demo_info"
    using s0 by (simp add: manifest_def demo_info_def demo_state_def folder_state_new_def)
  obtain c1 where s1: "control (send_message demo_codec demo_info) ?p = (Inr (), ?p\<lparr> fo_connection := c1 \<rparr>)"
      "wr_fail (cn_send c1) = None" "rd_bytes (cn_recv c1) = frame_of [1] @ frame_of [2]"
    using control_send_ok [OF demo_codec_ok(2), of ?p] io by (simp add: p)
  let ?s1 = "?p\<lparr> fo_connection := c1 \<rparr>"
  obtain c2 where s2: "control (await_ready demo_codec) ?s1 = (Inr (), ?p\<lparr> fo_connection := c2 \<rparr>)"
      "wr_fail (cn_send c2) = None" "rd_bytes (cn_recv c2) = frame_of [2]"
    using control_await_ok [OF demo_codec_ok(1,3), of ?s1 "frame_of [2]"] s1(2,3) by (simp add: demo_codec_ok)
  let ?s2 = "?p\<lparr> fo_connection := c2 \<rparr>"
  have f2: "fo_state ?s2 = demo_state" "fo_transfer_id ?s2 = Uuid 7" "fo_config ?s2 = demo_config" "fo_now ?s2 = 0"
      "fo_transfer_start ?s2 = Some 0"
    using p by simp_all
  obtain res t where t: "send_file (sender_of demo_fenv demo_config 0) ?disk ''d/a'' [] (session_new demo_config 0) = (res, t)"
    by fastforce
  note dt = demo_stream [OF t]
  have chunks: "get_completed_chunks demo_state 0 = []"
    by (simp add: demo_state_def folder_state_new_def get_completed_chunks_def)
  obtain s3 where s3: "stream_file demo_fenv ?disk ''d/a'' 0 ?s2 = (Inr 1, s3)" "fo_connection s3 = c2"
      "fo_state s3 = mark_chunk_complete 0 0 demo_state" "fo_transfer_id s3 = Uuid 7" "fo_now s3 = 0" "fo_transfer_start s3 = Some 0"
    using t dt f2 by (simp add: stream_file_def sender_of_def chunks with_progress_def)
  obtain c4 where s4: "control (send_message demo_codec demo_sum) s3 = (Inr (), s3\<lparr> fo_connection := c4 \<rparr>)"
      "wr_fail (cn_send c4) = None" "rd_bytes (cn_recv c4) = frame_of [2]"
    using control_send_ok [OF demo_codec_ok(4), of s3] s3(2) s2(2,3) by simp
  let ?s4 = "s3\<lparr> fo_connection := c4 \<rparr>"
  obtain c5 where s5: "control (recv_message demo_codec) ?s4 = (Inr demo_sum, s3\<lparr> fo_connection := c5 \<rparr>)"
      "wr_fail (cn_send c5) = None"
    using control_recv_ok [OF demo_codec_ok(1,4), of ?s4 "[]"] s4(2,3) by (simp add: demo_codec_ok)
  let ?s5 = "s3\<lparr> fo_connection := c5 \<rparr>"
  have single: "send_single_file demo_fenv ?disk ''d/a'' 0 ?s2 = (Inr (), ?s5)"
    using s3(1,4) s4(1) s5(1)
    by (simp add: send_single_file_def andthen_apply rmp demo_sum_def [symmetric])
       (simp add: demo_sum_def compare_as_sender_def checksum_message_def)
  have path: "join ''d'' (fm_path (ft_files demo_state ! 0)) = ''d/a''" by code_simp
  have n: "length (ft_files (fo_state ?s2)) = 1" by (simp add: p(1) demo_state_def folder_state_new_def)
  have none: "ft_completed_files demo_state = []"
    by (simp add: demo_state_def folder_state_new_def)
  have files: "send_files demo_fenv ?disk ''d'' [0] ?s2 = (Inr (), file_done 0 ?s5)"
    using single path by (simp add: andthen_apply p(1) none)
  have cm: "Complete \<lparr> cm_transfer_id = fo_transfer_id (file_done 0 ?s5),
       cm_total_bytes = ft_total_bytes (fo_state (file_done 0 ?s5)),
       cm_duration_ms = word_of_nat (nat \<lfloor>1000 * (fo_now (file_done 0 ?s5) -
          unwrap_or (fo_transfer_start (file_done 0 ?s5)) (fo_now (file_done 0 ?s5)))\<rfloor>) \<rparr> = demo_complete"
    using s3(3-6) by (simp add: demo_complete_def file_done_def Let_def demo_state_def folder_state_new_def unwrap_or_def
        mark_file_complete_def mark_chunk_complete_def)
  have "wr_fail (cn_send (fo_connection (file_done 0 ?s5))) = None"
    using s5(2) by (simp add: file_done_def Let_def)
  from control_send_ok [OF demo_codec_ok(5) this]
  have fin: "\<exists>s'. send_complete demo_fenv (file_done 0 ?s5) = (Inr (), s')"
    by (simp only: send_complete_def rmp cm andthen_apply) simp
  have "folder_send demo_fenv ?disk ''d/a'' (Some (FileNode [5] 0)) s = send_complete demo_fenv (file_done 0 ?s5)"
  proof (rule folder_send_steps [OF prep])
    show "control (send_message (fe_rmp demo_fenv) (TransferInfoMsg (manifest None s0))) ?p = (Inr (), ?s1)"
      unfolding rmp info by (rule s1(1))
    show "control (await_ready (fe_rmp demo_fenv)) ?s1 = (Inr (), ?s2)" unfolding rmp by (rule s2(1))
    show "send_files demo_fenv ?disk ''d'' [0..<length (ft_files (fo_state ?s2))] ?s2 = (Inr (), file_done 0 ?s5)"
      unfolding n using files by simp
  qed (rule demo_base)
  with fin show ?thesis by simp
qed

definition demo_text_env :: "session_env \<Rightarrow> folder_env \<Rightarrow> send_env" where
  "demo_text_env net fenv = \<lparr> sd_net = net, sd_folder = (\<lambda>n. fenv), sd_disk = [''d/a'' \<mapsto> [5]], sd_path = ''d/a'',
     sd_source = Some (FileNode [5] 0), sd_to_json = (\<lambda>st. if st = demo_state then Inr ''s'' else Inl []),
     sd_of_json = (\<lambda>s. if s = ''s'' then Inr demo_state else Inl []) \<rparr>"

definition demo_mute :: folder_env where
  "demo_mute = demo_fenv\<lparr> fe_rmp := \<lparr> to_vec = (\<lambda>m. Inl ''no''), from_slice = (\<lambda>b. Inl []) \<rparr> \<rparr>"

definition demo_net :: session_env where
  "demo_net = \<lparr> sn_libs = demo_identity_libs,
     sn_rmp = demo_rmp \<lparr> hp_device_id = Uuid 4, hp_fingerprint = 2 \<rparr> \<lparr> hp_device_id = Uuid 7, hp_fingerprint = 8 \<rparr> demo_config,
     sn_binding = (\<lambda>n. demo_binding),
     sn_dial = (\<lambda>n a. Established (demo_quinn 8 a (frame_of [2] @ frame_of [4] @ frame_of [1] @ frame_of [2]))),
     sn_incoming = (\<lambda>n. EndpointClosed) \<rparr>"

definition demo_cmd :: "folder_env \<Rightarrow> send_cmd" where
  "demo_cmd fenv = \<lparr> sm_cli = demo_cli\<lparr> ce_net := demo_net \<rparr>, sm_send = demo_text_env demo_net fenv,
     sm_create_dir = (\<lambda>d. None), sm_canonicalize = (\<lambda>p. Inr p), sm_json = demo_json, sm_history_path = ''h'',
     sm_clock = (1, 2, 3), sm_device_id = Uuid 4, sm_session_id = Uuid 1, sm_transfer_id = Uuid 5,
     sm_state_ids = (Uuid 7, Uuid 7), sm_now = 0 \<rparr>"

lemma demo_cmd_sel:
  "sm_send (demo_cmd fenv) = demo_text_env demo_net fenv" "sm_clock (demo_cmd fenv) = (1, 2, 3)"
  "sm_state_ids (demo_cmd fenv) = (Uuid 7, Uuid 7)" "ce_uuid_text (sm_cli (demo_cmd fenv)) u = []"
  "sm_create_dir (demo_cmd fenv) = (\<lambda>d. None)"
  by (simp_all add: demo_cmd_def demo_cli_def)

lemma demo_cmd_file: "resolve_state_file mk None [] = Inr ''transfer_.json''"
  by (simp add: resolve_state_file_def)

lemma demo_failed:
  "\<exists>w1 d e. send_transfer 1 (demo_cmd demo_mute) None 1 [] demo_world Map.empty = Some (FailedWith (FromCore e), w1, d) \<and>
     sw_state w1 = demo_state \<and> sw_files w1 ''transfer_.json'' = Some ''s''"
proof -
  let ?m = "demo_cmd demo_mute" and ?env = "demo_text_env demo_net demo_mute" and ?bar = "Some (progress_new 0)"
  let ?w = "demo_world\<lparr> sw_progress := ?bar \<rparr>"
  have init: "initial_state ?env (Some ''transfer_.json'') (Uuid 7) ?w = folder_state_new (Uuid 7) [] [] demo_config"
    by (simp add: initial_state_def fresh_state_def session_config_def demo_world_def)
  let ?v = "?w\<lparr> sw_state := folder_state_new (Uuid 7) [] [] demo_config \<rparr>"
  have fn: "file_name ''d/a'' = Some ''a''" by code_simp
  have "\<exists>s. folder_send demo_mute [''d/a'' \<mapsto> [5]] ''d/a'' (Some (FileNode [5] 0)) (attempt_start (Uuid 7) ?v) =
      (Inl (Err (Serialization ''no'')), s) \<and> fo_state s = demo_state"
    by (simp add: folder_send_def andthen_apply prepare_def attempt_start_def folder_session_new_def folder_state_new_def fn
        list_files_def metadata_of_def session_config_def demo_world_def demo_mute_def control_def send_message_def
        write_message_def on_send_def with_progress_def demo_state_def)
  then obtain w1 where at: "send_attempt ?env (Uuid 7) ?v = (Inl (Err (Serialization ''no'')), w1)" "sw_state w1 = demo_state"
    by (auto simp: send_attempt_def demo_text_env_def)
  have rec: "\<not> is_recoverable (Serialization ''no'')" by simp
  have "send_path 1 ?env (reconnect_config_of 1) (Some ''transfer_.json'') (Uuid 7, Uuid 7) ?w =
      Some (Inl (Err (Serialization ''no'')), save_state ?env (Some ''transfer_.json'') w1)"
    using at(1) rec init by (simp add: send_path_def demo_text_env_def folder_state_new_def)
  moreover have "sw_files (save_state ?env (Some ''transfer_.json'') w1) ''transfer_.json'' = Some ''s''"
    using at(2) by (simp add: save_state_def save_to_file_def demo_text_env_def)
  moreover have "sw_state (save_state ?env (Some ''transfer_.json'') w1) = demo_state"
    using at(2) by (simp add: save_state_def)
  moreover have "derive_base_name (sm_canonicalize ?m) (sd_path (sm_send ?m)) = Inr ''a''"
    by (simp add: demo_cmd_def derive_base_name_def demo_text_env_def fn)
  ultimately show ?thesis
    by (simp add: send_transfer_def demo_cmd_sel demo_cmd_file Let_def)
qed

lemma demo_client_any:
  assumes "q = \<lparr> hp_device_id = dev, hp_fingerprint = word_of_nat n \<rparr>"
  shows "\<exists>c'. client_handshake (demo_rmp p q cfg) p cfg (demo_connection n addr out (frame_of [2] @ frame_of [4] @ rest)) =
    (Inr \<lparr> hr_peer_device_id = dev, hr_peer_fingerprint = word_of_nat n, hr_config = cfg \<rparr>, c') \<and>
    wr_fail (cn_send c') = None \<and> rd_bytes (cn_recv c') = rest"
proof -
  have "wire_of (demo_rmp p q cfg) (HelloAck (own_hello q)) = frame_of [2]"
       "wire_of (demo_rmp p q cfg) ConfigAck = frame_of [4]"
    by (simp_all add: wire_of_def demo_rmp_def)
  with client_run_rest [of "demo_rmp p q cfg" p cfg q "demo_connection n addr out (frame_of [2] @ frame_of [4] @ rest)" rest, OF demo_rmp_ok demo_sendable]
  show ?thesis by (auto simp: demo_connection_def assms)
qed

lemma demo_resume_session:
  "\<exists>s. establish_session (sm_cli (demo_cmd fenv)) 0 demo_flags ''client''
     \<lparr> id_cert_der = [7, 1], id_key_der = [7], id_fingerprint = 2 \<rparr> (Uuid 4) (Some demo_config) (Uuid 1) = Some (Inr s) \<and>
     hr_config (pe_handshake s) = demo_config \<and> wr_fail (cn_send (pe_connection s)) = None \<and>
     rd_bytes (cn_recv (pe_connection s)) = frame_of [1] @ frame_of [2]"
proof -
  let ?p = "\<lparr> hp_device_id = Uuid 4, hp_fingerprint = 2 \<rparr>" and ?q = "\<lparr> hp_device_id = Uuid 7, hp_fingerprint = 8 \<rparr>"
  let ?in = "frame_of [2] @ frame_of [4] @ frame_of [1] @ frame_of [2]"
  obtain c' where c: "client_handshake (demo_rmp ?p ?q demo_config) ?p demo_config
      (demo_connection 8 (SocketAddr (V4 9) 9) PROTOCOL_MAGIC ?in) =
    (Inr \<lparr> hr_peer_device_id = Uuid 7, hr_peer_fingerprint = 8, hr_config = demo_config \<rparr>, c')"
      "wr_fail (cn_send c') = None" "rd_bytes (cn_recv c') = frame_of [1] @ frame_of [2]"
    using demo_client_any [of ?q "Uuid 7" 8 ?p demo_config "SocketAddr (V4 9) 9" PROTOCOL_MAGIC "frame_of [1] @ frame_of [2]"] by auto
  have d: "endpoint_connect demo_identity_libs (Established (demo_quinn 8 (SocketAddr (V4 9) 9) ?in)) 8 =
      Inr (demo_connection 8 (SocketAddr (V4 9) 9) PROTOCOL_MAGIC ?in)"
    using demo_dialled [of 8] by simp
  have w: "be_word (replicate 31 0 @ [8]) = (8 :: fingerprint)" by code_simp
  have t: "peer_target (sm_cli (demo_cmd fenv)) 0 demo_flags ident dev = Some (Inr (SocketAddr (V4 9) 9, 8))" for ident dev
    using w by (simp add: peer_target_def demo_cmd_def demo_cli_def demo_flags_def parse_peer_addr_def parsed_fingerprint_def)
  have n: "ce_net (sm_cli (demo_cmd fenv)) = demo_net" by (simp add: demo_cmd_def)
  have f: "\<not> is_rendezvous_mode demo_flags" "get_role demo_flags ''client'' = ''client''"
    by (simp_all add: is_rendezvous_mode_def get_role_def demo_flags_def unwrap_or_def)
  show ?thesis
    using c d by (simp add: establish_session_def f t n session_connect_def demo_net_def endpoint_bind_def
        endpoint_from_socket_def demo_binding_def handshake_party_new_def opened_def)
qed

lemma demo_resumed:
  assumes "fs ''transfer_.json'' = Some ''s''"
  shows "\<exists>w2. handle_resume 1 (demo_cmd demo_fenv) [] None 1 demo_flags None Map.empty fs = Some (Succeeded, Some w2)"
proof -
  let ?m = "demo_cmd demo_fenv"
  let ?env = "demo_text_env demo_net demo_fenv"
  obtain ids where i: "load_or_generate demo_identity_libs None Map.empty =
      Some (Inr \<lparr> id_cert_der = [7, 1], id_key_der = [7], id_fingerprint = 2 \<rparr>, ids)"
    using demo_generated by blast
  have libs: "sn_libs (ce_net (sm_cli ?m)) = demo_identity_libs" "sm_device_id ?m = Uuid 4" "sm_session_id ?m = Uuid 1"
    by (simp_all add: demo_cmd_def demo_net_def)
  obtain s where s: "establish_session (sm_cli ?m) 0 demo_flags ''client''
     \<lparr> id_cert_der = [7, 1], id_key_der = [7], id_fingerprint = 2 \<rparr> (Uuid 4) (Some demo_config) (Uuid 1) = Some (Inr s)"
     "hr_config (pe_handshake s) = demo_config" "wr_fail (cn_send (pe_connection s)) = None"
     "rd_bytes (cn_recv (pe_connection s)) = frame_of [1] @ frame_of [2]"
    using demo_resume_session by blast
  have st: "ft_files demo_state \<noteq> []" "ft_transfer_id demo_state = Uuid 7" "ft_config demo_state = demo_config"
      "resume_point_of (Uuid 7) demo_state = None"
    by (simp_all add: demo_state_def folder_state_new_def)
       (simp add: resume_point_of_def next_file_def get_completed_chunks_def)
  let ?w = "(session_world ?m demo_config s fs)\<lparr> sw_progress :=
      Some (add_bytes (ft_transferred_bytes demo_state) (progress_new (ft_total_bytes demo_state))) \<rparr>"
  have loaded: "fst (load_from_file (sd_of_json ?env) ''transfer_.json'' fs) = Inr demo_state"
    using assms by (simp add: load_from_file_def demo_text_env_def)
  have init: "initial_state ?env (Some ''transfer_.json'') (Uuid 7) ?w = demo_state"
    using assms loaded by (simp add: initial_state_def session_world_def)
  let ?a = "attempt_start (Uuid 7) (?w\<lparr> sw_state := demo_state \<rparr>)"
  have prep: "prepare ''d/a'' (Some (FileNode [5] 0)) (?a\<lparr> fo_transfer_start := Some (fo_now ?a), fo_total_compressed_bytes := 0 \<rparr>) =
      (Inr None, ?a\<lparr> fo_transfer_start := Some (fo_now ?a), fo_total_compressed_bytes := 0 \<rparr>)"
    using st by (simp add: prepare_def attempt_start_def folder_session_new_def)
  obtain fs' where "folder_send demo_fenv [''d/a'' \<mapsto> [5]] ''d/a'' (Some (FileNode [5] 0)) ?a = (Inr (), fs')"
    using demo_send_any [OF prep] s
    by (auto simp: attempt_start_def folder_session_new_def session_config_def session_world_def demo_cmd_def)
  then obtain w1 where "send_attempt ?env (Uuid 7) (?w\<lparr> sw_state := demo_state \<rparr>) = (Inr (), w1)"
    by (auto simp: send_attempt_def demo_text_env_def session_world_def)
  then have run: "\<exists>sm w'. send_path 1 ?env (reconnect_config_of 1) (Some ''transfer_.json'') (Uuid 7, Uuid 7) ?w = Some (Inr sm, w')"
    using init st by (simp add: send_path_def) (simp add: demo_text_env_def)
  have src: "sd_source ?env \<noteq> None" by (simp add: demo_text_env_def)
  show ?thesis
    using run i s(1) src assms loaded
    by (auto simp: handle_resume_def demo_cmd_sel demo_cmd_file libs st(3) Let_def)
qed

lemma demo_text_sound:
  assumes "fe_encode fenv = (\<lambda>x l. Inl [])"
  shows "sound_source (demo_text_env net fenv) ''d'' (\<lambda>x. Inl [])" "state_text_ok (demo_text_env net fenv)"
    "sd_source (demo_text_env net fenv) \<noteq> None"
proof -
  show "sound_source (demo_text_env net fenv) ''d'' (\<lambda>x. Inl [])"
    using demo_sound assms by (simp add: sound_source_def demo_text_env_def demo_send_env_def inverts_def)
qed (simp_all add: state_text_ok_def demo_text_env_def)


section \<open>Chunk sizes from the flag\<close>

text \<open>
  The product of \<open>--chunk-size\<close> with 1024 wraps around: 4194304 asks for chunks of no bytes, and the
  first chunk count then divides by zero.
\<close>

lemma chunk_flag_wraps:
  "chunk_size (config_of_flags (t\<lparr> tp_chunk_size := 4194304 \<rparr>)) = 0"
  "chunk_count n (chunk_size (config_of_flags (t\<lparr> tp_chunk_size := 4194304 \<rparr>))) = None"
  by (simp_all add: config_of_flags_def chunk_count_def)

end
