(* ===== verification/Gui_Tasks.thy ===== *)
theory Gui_Tasks
  imports Gui_App Cli_Send
begin

text \<open>
  What the tasks of the graphical interface do, the asynchronous half of \<open>operations.rs\<close>: the
  listener with its receive loop, connecting, pairing and sending. They work on the same sessions as
  the commands of \<open>p2p-cli\<close>, and are compared with them here. What the tasks draw from outside is
  numbered by turns, as for the receiving command; the reads of the cancellation flag are parameters.
\<close>

text \<open>\<open>StillGoing\<close>: the fuel is spent; \<open>Hangs\<close>: the task waits for ever, or has panicked.\<close>

datatype 'a task_end = StillGoing | Finished 'a | Hangs stop

fun anyhow_text :: "cli_error \<Rightarrow> string" where
  "anyhow_text (Plain s) = s"
| "anyhow_text (FromCore e) = display e"
| "anyhow_text (FromIo e) = io_text e"
| "anyhow_text (Context s e) = s"

text \<open>The check mark of the messages, in UTF-8.\<close>

definition check_mark :: string where "check_mark = [CHR 0xE2, CHR 0x9C, CHR 0x85]"

section \<open>The listener\<close>

record listen_world =
  lw_identity :: texts
  lw_disk :: disk
  lw_dirs :: "string list"
  lw_turn :: nat

definition sat_add :: "u64 \<Rightarrow> u64 \<Rightarrow> u64" where
  "sat_add a b = (if a + b < a then - 1 else a + b)"

definition gui_policy :: "bool \<Rightarrow> transfer_info \<Rightarrow> accept_decision" where
  "gui_policy auto_accept info = (if auto_accept then Accept else Reject)"

fun run_gui_receive_loop ::
  "nat \<Rightarrow> receive_env \<Rightarrow> string \<Rightarrow> bool \<Rightarrow> u64 \<Rightarrow> p2p_session \<Rightarrow> listen_world \<Rightarrow> (error + u64) task_end \<times> listen_world" where
  "run_gui_receive_loop 0 env output_dir auto_accept so_far s w = (StillGoing, w)"
| "run_gui_receive_loop (Suc fuel) env output_dir auto_accept so_far s w =
     (let n = lw_turn w in
      case receive_to ((rl_receiver env n)\<lparr> fv_accept := gui_policy auto_accept \<rparr>) output_dir (rl_dir_error env n)
             (rl_new_id env n) (lw_disk w) (rl_streams env n) None (rl_now env n) s of
        (res, r) \<Rightarrow>
          (let w' = w\<lparr> lw_disk := fi_disk r, lw_dirs := lw_dirs w @ fi_dirs r, lw_turn := Suc n \<rparr> in
           case res of
             Inr summary \<Rightarrow>
               run_gui_receive_loop fuel env output_dir auto_accept (sat_add so_far (sum_bytes summary))
                 (s\<lparr> pe_connection := fi_connection r \<rparr>) w'
           | Inl (Err e) \<Rightarrow> (Finished (if is_disconnect e then Inr so_far else Inl e), w')
           | Inl stopped \<Rightarrow> (Hangs stopped, w')))"

text \<open>
  The reads of the cancellation flag: at the head of the listening loop, and while it waits for a
  connection, where \<open>True\<close> says that a stop was seen before one was established.
\<close>

record cancel_reads =
  cr_before :: "nat \<Rightarrow> bool"
  cr_waiting :: "nat \<Rightarrow> bool"

definition start_listener_once ::
  "nat \<Rightarrow> receive_env \<Rightarrow> cancel_reads \<Rightarrow> u16 \<Rightarrow> uuid \<Rightarrow> string \<Rightarrow> bool \<Rightarrow> nat \<Rightarrow> listen_world \<Rightarrow>
     (cli_error + string \<times> bool \<times> nat) task_end \<times> listen_world" where
  "start_listener_once fuel env cr port device_id output_dir auto_accept transfer_count w =
     (case load_or_generate (sn_libs (ce_net (rl_cli env))) None (lw_identity w) of
        None \<Rightarrow> (Hangs Panic, w)
      | Some (Inl e, ids) \<Rightarrow> (Finished (Inl (FromCore e)), w\<lparr> lw_identity := ids \<rparr>)
      | Some (Inr ident, ids) \<Rightarrow>
          (let n = lw_turn w; w1 = w\<lparr> lw_identity := ids, lw_turn := Suc n \<rparr> in
           case rl_dir_error env n of
             Some e \<Rightarrow> (Finished (Inl (FromIo e)), w1)
           | None \<Rightarrow>
               (let w2 = w1\<lparr> lw_dirs := lw_dirs w1 @ [output_dir] \<rparr> in
                if cr_waiting cr n then (Finished (Inl (Plain ''Listener cancelled'')), w2)
                else case session_accept (ce_net (rl_cli env)) n (SocketAddr (V4 0) port) ident device_id (rl_session_id env n) of
                  Inl e \<Rightarrow> (Finished (Inl (FromCore e)), w2)
                | Inr s \<Rightarrow>
                    map_prod (map_task_end (map_sum FromCore (\<lambda>so_far.
                        (check_mark @ '' Transfer #'' @ show_nat (transfer_count + 1) @ '' completed. Ready for next connection.'',
                         True, transfer_count + 1)))) id
                      (run_gui_receive_loop fuel env output_dir auto_accept 0 s w2))))"

fun listening_loop ::
  "nat \<Rightarrow> receive_env \<Rightarrow> cancel_reads \<Rightarrow> u16 \<Rightarrow> uuid \<Rightarrow> string \<Rightarrow> bool \<Rightarrow> nat \<Rightarrow> listen_world \<Rightarrow>
     gui_message task_end \<times> listen_world" where
  "listening_loop 0 env cr port device_id output_dir auto_accept served w = (StillGoing, w)"
| "listening_loop (Suc fuel) env cr port device_id output_dir auto_accept served w =
     (if cr_before cr (lw_turn w) then (Finished (ConnectionEstablished ''Listener stopped''), w)
      else case start_listener_once fuel env cr port device_id output_dir auto_accept served w of
        (Finished (Inr (msg, should_continue, new_count)), w') \<Rightarrow>
          (if \<not> should_continue then (Finished (ConnectionEstablished msg), w')
           else listening_loop fuel env cr port device_id output_dir auto_accept new_count w')
      | (Finished (Inl e), w') \<Rightarrow> (Finished (ConnectionFailed (anyhow_text e)), w')
      | (StillGoing, w') \<Rightarrow> (StillGoing, w')
      | (Hangs stopped, w') \<Rightarrow> (Hangs stopped, w'))"

section \<open>Connecting and pairing\<close>

definition gui_peer_target ::
  "cli_env \<Rightarrow> nat \<Rightarrow> string \<Rightarrow> u16 \<Rightarrow> bool \<Rightarrow> string \<Rightarrow> identity \<Rightarrow> uuid \<Rightarrow> (socket_addr \<times> fingerprint) outcome" where
  "gui_peer_target env n address port use_discovery peer_fp_hex ident device_id =
     (if address \<noteq> [] then
        (if length peer_fp_hex \<noteq> 64
         then Some (Inl (Plain (''peer fingerprint must be 64 hex chars, got '' @ show_nat (length peer_fp_hex))))
         else case ce_hex_decode env peer_fp_hex of
           Inl e \<Rightarrow> Some (Inl (Plain (''invalid peer fingerprint hex: '' @ e)))
         | Inr bs \<Rightarrow>
             (if length bs \<noteq> 32 then None
              else case parse_peer_addr (at_parse_sa (ce_addr_text env)) (at_parse_ip (ce_addr_text env)) address port of
                Inl e \<Rightarrow> Some (Inl (FromCore e))
              | Inr parsed \<Rightarrow> Some (Inr (parsed, be_word bs))))
      else if use_discovery
      then (case ce_lan env n of (new_id, turns, order) \<Rightarrow>
              Some (map_sum FromCore id
                (discover_one_peer (ce_udp env) (ce_beacons env) (ce_uuid_text env) new_id port ident device_id turns order)))
      else Some (Inl (Plain ''peer address or discovery required for client mode'')))"

definition connect_to_peer ::
  "cli_env \<Rightarrow> nat \<Rightarrow> texts \<Rightarrow> string \<Rightarrow> u16 \<Rightarrow> bool \<Rightarrow> string \<Rightarrow> uuid \<Rightarrow> config_message \<Rightarrow> uuid \<Rightarrow> (p2p_session \<times> string) outcome" where
  "connect_to_peer env n ids address port use_discovery peer_fp_hex device_id cfg session_id =
     (case load_or_generate (sn_libs (ce_net env)) None ids of
        None \<Rightarrow> None
      | Some (Inl e, ids') \<Rightarrow> Some (Inl (FromCore e))
      | Some (Inr ident, ids') \<Rightarrow>
          (case gui_peer_target env n address port use_discovery peer_fp_hex ident device_id of
             None \<Rightarrow> None
           | Some (Inl e) \<Rightarrow> Some (Inl e)
           | Some (Inr (peer_addr, peer_fp)) \<Rightarrow>
               Some (map_sum FromCore
                 (\<lambda>s. (s, ''Connected to peer: '' @ ce_uuid_text env (hr_peer_device_id (pe_handshake s))))
                 (session_connect (ce_net env) n peer_addr peer_fp ident device_id cfg session_id))))"

definition pair_via_rendezvous ::
  "cli_env \<Rightarrow> nat \<Rightarrow> texts \<Rightarrow> string \<Rightarrow> string \<Rightarrow> uuid \<Rightarrow> config_message \<Rightarrow> uuid \<Rightarrow> (p2p_session \<times> string) outcome" where
  "pair_via_rendezvous env n ids rendezvous code device_id cfg session_id =
     (case load_or_generate (sn_libs (ce_net env)) None ids of
        None \<Rightarrow> None
      | Some (Inl e, ids') \<Rightarrow> Some (Inl (FromCore e))
      | Some (Inr ident, ids') \<Rightarrow>
          (let host_port = with_default_port (ce_addr_text env) rendezvous DEFAULT_RENDEZVOUS_PORT;
               quoted = [CHR 0x27] @ host_port @ [CHR 0x27]
           in case ce_lookup_host env host_port of
                Inl e \<Rightarrow> Some (Inl (Plain (''resolving rendezvous '' @ quoted @ '': '' @ io_text e)))
              | Inr [] \<Rightarrow> Some (Inl (Plain (''rendezvous host '' @ quoted @ '' resolved to no addresses'')))
              | Inr (rendezvous_addr # _) \<Rightarrow>
                  map_option (map_sum FromCore
                      (\<lambda>s. (s, ''Paired with peer: '' @ ce_uuid_text env (hr_peer_device_id (pe_handshake s)))))
                    (from_rendezvous (ce_net env) (ce_traversal env n)
                       \<lparr> rv_rendezvous = rendezvous_addr, rv_code = code, rv_identity = ident, rv_device_id = device_id,
                         rv_stun_servers = DEFAULT_STUN_SERVERS, rv_force_relay = False \<rparr>
                       cfg session_id)))"

section \<open>Sending\<close>

text \<open>The configuration it is given is not used: the session's own was negotiated when it was established.\<close>

definition gui_send_path ::
  "nat \<Rightarrow> send_env \<Rightarrow> string \<Rightarrow> uuid \<times> uuid \<Rightarrow> u32 \<Rightarrow> send_world \<Rightarrow> ((stop + string \<times> u64) \<times> send_world) option" where
  "gui_send_path fuel env transfer_id ids max_retries w =
     (let cfg = \<lparr> rc_max_attempts = max_retries, rc_initial_backoff_secs = 3, rc_max_backoff_secs = 180, rc_exponential = True \<rparr>;
          state_file = ''transfer_'' @ transfer_id @ ''.json''
      in case send_path fuel env cfg (Some state_file) ids (w\<lparr> sw_progress := Some (progress_new 0) \<rparr>) of
           None \<Rightarrow> None
         | Some (Inl stopped, w') \<Rightarrow> Some (Inl stopped, w')
         | Some (Inr summary, w') \<Rightarrow>
             (let n = (case sw_progress w' of Some p \<Rightarrow> ps_transferred_bytes p | None \<Rightarrow> 0)
              in Some (Inr (check_mark @ '' Successfully sent: '' @ unwrap_or (file_name (sd_path env)) [], n),
                   w'\<lparr> sw_files := (sw_files w')(state_file := None) \<rparr>)))"

section \<open>What the listener does\<close>

lemma unat_sat_add: "unat (sat_add a b) = min (unat a + unat b) (2 ^ 64 - 1)"
proof (cases "unat a + unat b < 2 ^ 64")
  case True
  then have "unat (a + b) = unat a + unat b" by (simp add: unat_word_ariths)
  with True show ?thesis by (simp add: sat_add_def word_less_nat_alt)
next
  case False
  moreover have "unat a < 2 ^ 64" "unat b < 2 ^ 64"
    using unsigned_less [of a, where 'a = nat] unsigned_less [of b, where 'a = nat] by simp_all
  ultimately have "unat (a + b) < unat a" by (simp add: unat_word_ariths mod_if, linarith)
  with False show ?thesis by (simp add: sat_add_def word_less_nat_alt unsigned_minus_1_eq_mask mask_eq_exp_minus_1)
qed

definition listens_within :: "string \<Rightarrow> bool \<Rightarrow> listen_world \<Rightarrow> listen_world \<Rightarrow> bool" where
  "listens_within output_dir accepting w w' \<longleftrightarrow>
     (\<forall>p. lw_disk w' p \<noteq> lw_disk w p \<longrightarrow> inside output_dir p \<and> accepting) \<and>
     (\<exists>ds. lw_dirs w' = lw_dirs w @ ds \<and> (\<forall>d \<in> set ds. inside_or_at output_dir d))"

lemma listens_within_refl [simp]: "listens_within out a w w"
  by (simp add: listens_within_def)

lemma listens_within_trans: "listens_within out a w w' \<Longrightarrow> listens_within out a w' w'' \<Longrightarrow> listens_within out a w w''"
  unfolding listens_within_def by (metis Un_iff append.assoc set_append)

lemma receive_loop_within:
  "run_gui_receive_loop fuel env out auto so_far s w = (res, w') \<Longrightarrow> listens_within out auto w w'"
proof (induction fuel arbitrary: so_far s w)
  case (Suc fuel)
  let ?renv = "(rl_receiver env (lw_turn w))\<lparr> fv_accept := gui_policy auto \<rparr>"
  obtain q r where run: "receive_to ?renv out (rl_dir_error env (lw_turn w)) (rl_new_id env (lw_turn w)) (lw_disk w)
      (rl_streams env (lw_turn w)) None (rl_now env (lw_turn w)) s = (q, r)" by fastforce
  let ?w1 = "w\<lparr> lw_disk := fi_disk r, lw_dirs := lw_dirs w @ fi_dirs r, lw_turn := Suc (lw_turn w) \<rparr>"
  have "listens_within out auto w ?w1"
    using receive_to_within [OF run] by (auto simp: listens_within_def gui_policy_def split: if_splits)
  then show ?case
    using Suc.prems Suc.IH [THEN listens_within_trans [rotated]] run
    by (auto simp: Let_def split: sum.splits stop.splits)
qed simp

lemma listener_once_within:
  assumes "start_listener_once fuel env cr port dev out auto served w = (res, w')"
  shows "listens_within out auto w w'"
proof -
  have adv: "listens_within out auto w (w\<lparr> lw_identity := ids, lw_turn := n, lw_dirs := lw_dirs w @ [out] \<rparr>)"
      "listens_within out auto w (w\<lparr> lw_identity := ids, lw_turn := n \<rparr>)" "listens_within out auto w (w\<lparr> lw_identity := ids \<rparr>)" for ids n
    by (simp_all add: listens_within_def inside_or_at_def)
  show ?thesis
    using assms adv
    by (auto simp: start_listener_once_def Let_def map_prod_def split: option.splits sum.splits prod.splits if_splits
        dest!: receive_loop_within intro: listens_within_trans)
qed

lemma listening_loop_within:
  "listening_loop fuel env cr port dev out auto served w = (fin, w') \<Longrightarrow>
     listens_within out auto w w' \<and>
     (\<forall>m. fin = Finished m \<longrightarrow>
        m = ConnectionEstablished ''Listener stopped'' \<and> cr_before cr (lw_turn w') \<or> (\<exists>msg. m = ConnectionFailed msg))"
proof (induction fuel arbitrary: served w)
  case (Suc fuel)
  obtain res w1 where once: "start_listener_once fuel env cr port dev out auto served w = (res, w1)" by fastforce
  have goes_on: "c" if "res = Finished (Inr (msg, c, k))" for msg c k
  proof -
    have "map_task_end (map_sum FromCore (\<lambda>n. (ms, True, k'))) x = Finished (Inr (msg, c, k)) \<Longrightarrow> c"
      for ms k' and x :: "(error + u64) task_end"
      by (cases x) (auto simp: map_sum_def split: sum.splits)
    with once that show ?thesis
      by (auto simp: start_listener_once_def Let_def map_prod_def split: option.splits sum.splits prod.splits if_splits)
  qed
  note within = listener_once_within [OF once]
  show ?case
  proof (cases "cr_before cr (lw_turn w)")
    case True
    with Suc.prems show ?thesis by auto
  next
    case False
    show ?thesis
    proof (cases "\<exists>msg c k. res = Finished (Inr (msg, c, k))")
      case True
      then obtain msg k where "res = Finished (Inr (msg, True, k))" using goes_on by blast
      with Suc.prems once False have "listening_loop fuel env cr port dev out auto k w1 = (fin, w')" by simp
      from Suc.IH [OF this] within show ?thesis by (blast intro: listens_within_trans)
    next
      case no: False
      with Suc.prems once False within show ?thesis
        by (auto split: task_end.splits sum.splits)
    qed
  qed
qed simp

text \<open>
  C19: the listener of the graphical interface, over any number of connections and transfers
  and against any peers. A file that changed lies below the output directory, and none changes unless
  transfers are accepted automatically: there is no prompt. The directories it creates are the output
  directory or below it. It reports that it has stopped only after it has read the request to stop,
  and anything else that ends it is reported as a failure.
\<close>

theorem gui_listener_confined:
  assumes "listening_loop fuel env cr port device_id output_dir auto_accept served w = (fin, w')"
  shows "(\<forall>p. lw_disk w' p \<noteq> lw_disk w p \<longrightarrow> inside output_dir p \<and> auto_accept) \<and>
    (\<exists>ds. lw_dirs w' = lw_dirs w @ ds \<and> (\<forall>d \<in> set ds. inside_or_at output_dir d)) \<and>
    (\<forall>m. fin = Finished m \<longrightarrow>
       m = ConnectionEstablished ''Listener stopped'' \<and> cr_before cr (lw_turn w') \<or> (\<exists>msg. m = ConnectionFailed msg))"
  using listening_loop_within [OF assms] by (auto simp: listens_within_def)

text \<open>A listener whose output directory cannot be made.\<close>

theorem gui_listener_confined_witness:
  "\<exists>w'. listening_loop 2 demo_receive_env \<lparr> cr_before = (\<lambda>n. False), cr_waiting = (\<lambda>n. False) \<rparr> 14567 (Uuid 4) ''out'' False 0
       \<lparr> lw_identity = Map.empty, lw_disk = Map.empty, lw_dirs = [], lw_turn = 1 \<rparr> =
     (Finished (ConnectionFailed ''denied''), w') \<and> lw_disk w' = Map.empty"
proof -
  obtain fs where i: "load_or_generate demo_identity_libs None Map.empty =
      Some (Inr \<lparr> id_cert_der = [7, 1], id_key_der = [7], id_fingerprint = 2 \<rparr>, fs)"
    using demo_generated by blast
  have l: "sn_libs (ce_net (rl_cli demo_receive_env)) = demo_identity_libs"
      "rl_dir_error demo_receive_env 1 = Some (IoError PermissionDenied ''denied'')"
    by (simp_all add: demo_receive_env_def demo_cli_def demo_dial_env_def)
  have "\<exists>w'. listening_loop 2 demo_receive_env \<lparr> cr_before = (\<lambda>n. False), cr_waiting = (\<lambda>n. False) \<rparr> 14567 (Uuid 4) ''out'' False 0
       \<lparr> lw_identity = Map.empty, lw_disk = Map.empty, lw_dirs = [], lw_turn = 1 \<rparr> =
     (Finished (ConnectionFailed ''denied''), w')"
    using i l by (simp add: numeral_2_eq_2 start_listener_once_def)
  then obtain w' where w: "listening_loop 2 demo_receive_env \<lparr> cr_before = (\<lambda>n. False), cr_waiting = (\<lambda>n. False) \<rparr> 14567 (Uuid 4) ''out'' False 0
       \<lparr> lw_identity = Map.empty, lw_disk = Map.empty, lw_dirs = [], lw_turn = 1 \<rparr> =
     (Finished (ConnectionFailed ''denied''), w')" by blast
  from gui_listener_confined [OF w] have "lw_disk w' = Map.empty" by (auto simp: fun_eq_iff)
  with w show ?thesis by blast
qed

section \<open>The same sessions and the same transfers as the command line's\<close>

definition direct_flags :: "string \<Rightarrow> u16 \<Rightarrow> bool \<Rightarrow> string \<Rightarrow> session_params" where
  "direct_flags address port use_discovery peer_fp_hex =
     \<lparr> sp_role = None, sp_peer = (if address = [] then None else Some address), sp_peer_fingerprint = Some peer_fp_hex,
       sp_port = port, sp_discover = use_discovery, sp_rendezvous = None, sp_code = None, sp_force_relay = False \<rparr>"

definition rendezvous_flags :: "string \<Rightarrow> string \<Rightarrow> session_params" where
  "rendezvous_flags rendezvous code =
     \<lparr> sp_role = None, sp_peer = None, sp_peer_fingerprint = None, sp_port = DEFAULT_TRANSFER_PORT, sp_discover = False,
       sp_rendezvous = Some rendezvous, sp_code = Some code, sp_force_relay = False \<rparr>"

lemma gui_target_as_cli:
  "gui_peer_target env n address port disc fp_hex ident dev = Some (Inr t) \<longleftrightarrow>
   peer_target env n (direct_flags address port disc fp_hex) ident dev = Some (Inr t)"
  by (auto simp: gui_peer_target_def peer_target_def direct_flags_def parsed_fingerprint_def
      split: sum.splits if_splits option.splits prod.splits)

lemma connect_as_cli:
  assumes "load_or_generate (sn_libs (ce_net env)) None ids = Some (Inr ident, ids')"
  shows "(\<exists>msg. connect_to_peer env n ids address port disc fp_hex dev cfg sid = Some (Inr (s, msg))) \<longleftrightarrow>
    establish_session env n (direct_flags address port disc fp_hex) ''client'' ident dev (Some cfg) sid = Some (Inr s)"
proof -
  have "sp_rendezvous (direct_flags address port disc fp_hex) = None" "get_role (direct_flags address port disc fp_hex) ''client'' \<noteq> ''server''"
    by (simp_all add: direct_flags_def get_role_def unwrap_or_def)
  then have cli: "establish_session env n (direct_flags address port disc fp_hex) ''client'' ident dev (Some cfg) sid = Some (Inr s) \<longleftrightarrow>
      (\<exists>a fp. peer_target env n (direct_flags address port disc fp_hex) ident dev = Some (Inr (a, fp)) \<and>
        session_connect (ce_net env) n a fp ident dev cfg sid = Inr s)"
    by (auto simp: establish_session_def is_rendezvous_mode_def map_sum_def split: option.splits sum.splits prod.splits)
  have gui: "(\<exists>msg. connect_to_peer env n ids address port disc fp_hex dev cfg sid = Some (Inr (s, msg))) \<longleftrightarrow>
      (\<exists>a fp. gui_peer_target env n address port disc fp_hex ident dev = Some (Inr (a, fp)) \<and>
        session_connect (ce_net env) n a fp ident dev cfg sid = Inr s)"
    using assms by (auto simp: connect_to_peer_def map_sum_def split: option.splits sum.splits prod.splits)
  show ?thesis unfolding cli gui gui_target_as_cli ..
qed

lemma pair_as_cli:
  assumes "load_or_generate (sn_libs (ce_net env)) None ids = Some (Inr ident, ids')"
  shows "(\<exists>msg. pair_via_rendezvous env n ids rendezvous code dev cfg sid = Some (Inr (s, msg))) \<longleftrightarrow>
    establish_session env n (rendezvous_flags rendezvous code) ''client'' ident dev (Some cfg) sid = Some (Inr s)"
  using assms
  by (auto simp: pair_via_rendezvous_def establish_session_def establish_def resolve_rendezvous_def is_rendezvous_mode_def
      rendezvous_flags_def unwrap_or_def map_sum_def Let_def split: option.splits sum.splits list.splits)

lemma gui_send_as_cli:
  assumes "derive_base_name (sm_canonicalize m) (sd_path (sm_send m)) = Inr base"
  shows "(\<exists>msg n. gui_send_path fuel (sm_send m) (ce_uuid_text (sm_cli m) (sm_transfer_id m)) (sm_state_ids m) attempts w =
       Some (Inr (msg, n), w')) \<longleftrightarrow>
     (\<exists>d. send_transfer fuel m None attempts peer w store = Some (Succeeded, w', d))"
    and "(\<exists>e. gui_send_path fuel (sm_send m) (ce_uuid_text (sm_cli m) (sm_transfer_id m)) (sm_state_ids m) attempts w =
       Some (Inl (Err e), w')) \<longleftrightarrow>
     (\<exists>e d. send_transfer fuel m None attempts peer w store = Some (FailedWith e, w', d))"
  using assms
  by (auto simp: gui_send_path_def send_transfer_def resolve_state_file_def reconnect_config_of_def reconnect_default_def Let_def
      split: option.splits prod.splits sum.splits stop.splits)

text \<open>
  C17: connecting and pairing in the graphical interface give a session exactly when the
  sending command, run with the corresponding flags, the same identity and the same network, gives
  one, and it is the same session; a transfer in it, from a path with a name, then succeeds or fails
  exactly as that of the command does, and leaves the same resume record and the same files behind.
\<close>

theorem gui_works_as_cli:
  assumes "load_or_generate (sn_libs (ce_net env)) None ids = Some (Inr ident, ids')"
    and "derive_base_name (sm_canonicalize m) (sd_path (sm_send m)) = Inr base"
  shows "((\<exists>msg. connect_to_peer env n ids address port use_discovery peer_fp_hex device_id cfg sid = Some (Inr (s, msg))) \<longleftrightarrow>
       establish_session env n (direct_flags address port use_discovery peer_fp_hex) ''client'' ident device_id (Some cfg) sid =
         Some (Inr s)) \<and>
    ((\<exists>msg. pair_via_rendezvous env n ids rendezvous code device_id cfg sid = Some (Inr (s, msg))) \<longleftrightarrow>
       establish_session env n (rendezvous_flags rendezvous code) ''client'' ident device_id (Some cfg) sid = Some (Inr s)) \<and>
    ((\<exists>msg k. gui_send_path fuel (sm_send m) (ce_uuid_text (sm_cli m) (sm_transfer_id m)) (sm_state_ids m) attempts w =
         Some (Inr (msg, k), w')) \<longleftrightarrow>
       (\<exists>d. send_transfer fuel m None attempts peer w store = Some (Succeeded, w', d))) \<and>
    ((\<exists>e. gui_send_path fuel (sm_send m) (ce_uuid_text (sm_cli m) (sm_transfer_id m)) (sm_state_ids m) attempts w =
         Some (Inl (Err e), w')) \<longleftrightarrow>
       (\<exists>e d. send_transfer fuel m None attempts peer w store = Some (FailedWith e, w', d)))"
  by (intro conjI connect_as_cli [OF assms(1)] pair_as_cli [OF assms(1)] gui_send_as_cli [OF assms(2)])

text \<open>A connection typed in, and a send that fails with a message that cannot be encoded.\<close>

theorem gui_works_as_cli_witness:
  "\<exists>s msg e w1. connect_to_peer (sm_cli (demo_cmd demo_mute)) 0 Map.empty ''peer'' 14567 False (replicate 64 CHR ''8'') (Uuid 4)
       demo_config (Uuid 1) = Some (Inr (s, msg)) \<and>
     gui_send_path 1 (sm_send (demo_cmd demo_mute)) [] (Uuid 7, Uuid 7) 1 demo_world = Some (Inl (Err e), w1)"
proof -
  let ?m = "demo_cmd demo_mute" and ?id = "\<lparr> id_cert_der = [7, 1], id_key_der = [7], id_fingerprint = 2 \<rparr>"
  obtain fs where "load_or_generate demo_identity_libs None Map.empty = Some (Inr ?id, fs)" using demo_generated by blast
  then have i: "load_or_generate (sn_libs (ce_net (sm_cli ?m))) None Map.empty = Some (Inr ?id, fs)"
    by (simp add: demo_cmd_def demo_net_def)
  have b: "derive_base_name (sm_canonicalize ?m) (sd_path (sm_send ?m)) = Inr ''a''"
  proof -
    have "file_name ''d/a'' = Some ''a''" by code_simp
    then show ?thesis by (simp add: demo_cmd_def derive_base_name_def demo_text_env_def)
  qed
  have f: "demo_flags = direct_flags ''peer'' 14567 False (replicate 64 CHR ''8'')"
    by (simp add: demo_flags_def direct_flags_def)
  obtain s where s: "establish_session (sm_cli ?m) 0 demo_flags ''client'' ?id (Uuid 4) (Some demo_config) (Uuid 1) = Some (Inr s)"
    using demo_resume_session by blast
  obtain w1 d e where w: "send_transfer 1 ?m None 1 [] demo_world Map.empty = Some (FailedWith (FromCore e), w1, d)"
    using demo_failed by blast
  note both = gui_works_as_cli [OF i b, where n = 0 and address = "''peer''" and port = 14567 and use_discovery = False
      and peer_fp_hex = "replicate 64 CHR ''8''" and device_id = "Uuid 4" and cfg = demo_config and sid = "Uuid 1" and s = s
      and rendezvous = "[]" and code = "[]" and fuel = 1 and attempts = 1 and w = demo_world and w' = w1 and peer = "[]"
      and store = Map.empty]
  have "\<exists>msg. connect_to_peer (sm_cli ?m) 0 Map.empty ''peer'' 14567 False (replicate 64 CHR ''8'') (Uuid 4)
       demo_config (Uuid 1) = Some (Inr (s, msg))"
    using both s unfolding f by blast
  moreover have "\<exists>e. gui_send_path 1 (sm_send ?m) [] (Uuid 7, Uuid 7) 1 demo_world = Some (Inl (Err e), w1)"
    using both w by (simp only: demo_cmd_sel) blast
  ultimately show ?thesis by blast
qed

section \<open>Every task\<close>

record task_env =
  tk_receive :: receive_env
  tk_cancel :: cancel_reads
  tk_world :: listen_world
  tk_turn :: nat
  tk_session_id :: uuid
  tk_new_session :: session_ref
  tk_picked :: "string option"
  tk_send :: "string \<Rightarrow> send_env"
  tk_sessions :: "session_ref \<Rightarrow> send_world"
  tk_transfer_id :: string
  tk_state_ids :: "uuid \<times> uuid"

definition connected_message :: "session_ref \<Rightarrow> (p2p_session \<times> string) outcome \<Rightarrow> gui_message task_end" where
  "connected_message r res =
     (case res of
        None \<Rightarrow> Hangs Panic
      | Some (Inl e) \<Rightarrow> Finished (ConnectionFailed (anyhow_text e))
      | Some (Inr (s, msg)) \<Rightarrow> Finished (ConnectionEstablishedWithSession r msg))"

definition sent_message :: "((stop + string \<times> u64) \<times> send_world) option \<Rightarrow> gui_message task_end" where
  "sent_message res =
     (case res of
        None \<Rightarrow> StillGoing
      | Some (Inr (msg, n), w) \<Rightarrow> Finished (SendComplete msg n)
      | Some (Inl (Err e), w) \<Rightarrow> Finished (SendFailed (display e))
      | Some (Inl stopped, w) \<Rightarrow> Hangs stopped)"

definition task_message :: "nat \<Rightarrow> task_env \<Rightarrow> gui_task \<Rightarrow> gui_message task_end" where
  "task_message fuel env t =
     (let cli = rl_cli (tk_receive env); ids = lw_identity (tk_world env) in
      case t of
        PickPath \<Rightarrow> Finished (PathSelected (tk_picked env))
      | PickOutputDir \<Rightarrow> Finished (OutputDirSelected (tk_picked env))
      | ListenTask port device_id cfg output_dir auto_accept \<Rightarrow>
          fst (listening_loop fuel (tk_receive env) (tk_cancel env) port device_id output_dir auto_accept 0 (tk_world env))
      | PairTask rendezvous code device_id cfg \<Rightarrow>
          connected_message (tk_new_session env)
            (pair_via_rendezvous cli (tk_turn env) ids rendezvous code device_id cfg (tk_session_id env))
      | ConnectTask address port use_discovery peer_fp_hex device_id cfg \<Rightarrow>
          connected_message (tk_new_session env)
            (connect_to_peer cli (tk_turn env) ids address port use_discovery peer_fp_hex device_id cfg (tk_session_id env))
      | SendTask r path cfg max_retries \<Rightarrow>
          sent_message (gui_send_path fuel (tk_send env path) (tk_transfer_id env) (tk_state_ids env) max_retries (tk_sessions env r)))"

text \<open>The results the event system of \<open>Gui_App\<close> allows for a task are those it can have.\<close>

lemma task_message_result:
  assumes "task_message fuel env t = Finished m"
  shows "result_of t m"
proof (cases t)
  case (ListenTask port dev cfg dir auto)
  then obtain w' where "listening_loop fuel (tk_receive env) (tk_cancel env) port dev dir auto 0 (tk_world env) = (Finished m, w')"
    using assms by (auto simp: task_message_def Let_def) (metis prod.collapse)
  from listening_loop_within [OF this] ListenTask show ?thesis by (auto simp: result_of_def)
qed (use assms in \<open>auto simp: task_message_def connected_message_def sent_message_def result_of_def Let_def
      split: option.splits sum.splits prod.splits stop.splits\<close>)

end
