(* ===== verification/Delivery.thy ===== *)
theory Delivery
  imports Cli_Receive
begin

text \<open>
  Sender and receiver composed up to the receiving command: what a folder session sent is what one
  turn of the command puts under its output directory and into its history.
\<close>

text \<open>
  The receiver's side of a turn: its session reads \<open>w\<close> on the control stream and the blocks \<open>arr\<close> on
  the chunk streams, under the configuration \<open>cfg\<close>; the disk has the completed files and the chunks
  delivered before.
\<close>

definition turn_waiting ::
  "receive_env \<Rightarrow> nat \<Rightarrow> config_message \<Rightarrow> folder_plan \<Rightarrow> nat set \<Rightarrow> bytes \<Rightarrow> bytes list list \<Rightarrow> receive_world \<Rightarrow> bool" where
  "turn_waiting renv n cfg pl completed w arr v \<longleftrightarrow>
     wr_fail (cn_send (pe_connection (rw_session v))) = None \<and>
     rd_bytes (cn_recv (pe_connection (rw_session v))) = w \<and>
     hr_config (pe_handshake (rw_session v)) = cfg \<and>
     rl_streams renv n = map Inr (concat arr) \<and> rl_dir_error renv n = None \<and>
     (\<forall>i < length (pl_items pl).
        if i \<in> completed then rw_disk v (pl_dst pl i) = Some (pl_data pl i)
        else target_ready (chunk_size cfg) (rw_disk v) pl i)"

text \<open>The receiver of a turn that accepts everything.\<close>

definition accepting_receiver :: "receive_env \<Rightarrow> nat \<Rightarrow> receiver_env" where
  "accepting_receiver renv n = (rl_receiver renv n)\<lparr> fv_accept := (\<lambda>info. Accept) \<rparr>"

lemma turn_waiting_receiver:
  assumes "turn_waiting renv n cfg pl completed w arr v"
  shows "receiver_waiting (accepting_receiver renv n) cfg pl completed w arr
    (create_dir_all out (folder_receiver_new (pe_connection (rw_session v)) cfg (rl_new_id renv n) (rw_disk v)
       (rl_streams renv n) (Some (progress_new 0)) (rl_now renv n)))"
  using assms
  by (simp add: turn_waiting_def receiver_waiting_def healthy_def unread_def create_dir_all_def folder_receiver_new_def)

lemma run_receive_accepting:
  assumes "turn_waiting renv n cfg pl completed w arr v"
    and "receive_folder (accepting_receiver renv n) out
      (create_dir_all out (folder_receiver_new (pe_connection (rw_session v)) cfg (rl_new_id renv n) (rw_disk v)
       (rl_streams renv n) (Some (progress_new 0)) (rl_now renv n))) = (Inr sm, r)"
  shows "\<exists>v'. run_receive renv n out True v = (Inr sm, v') \<and> rw_disk v' = fi_disk r \<and> rw_store v' = rw_store v"
proof -
  have "accept_policy renv n True = (\<lambda>info. Accept)" by (simp add: accept_policy_def accept_or_prompt_def fun_eq_iff)
  moreover have "hr_config (pe_handshake (rw_session v)) = cfg" "rl_dir_error renv n = None"
    using assms(1) by (simp_all add: turn_waiting_def)
  ultimately show ?thesis
    using assms(2) by (simp add: run_receive_def receive_to_def accepting_receiver_def Let_def)
qed

text \<open>
  C13: a folder session that ended with success, fresh or resumed, and a turn of the
  receiving command, told to accept, whose session reads what it wrote, with the blocks one after the
  other and the streams inside each in any order. The turn ends with the transfer done; every file
  of the manifest is under the output directory, equal to the sender's; and when the history
  file is readable and the new text can be made, exactly one record is appended to it: a completed reception from
  this peer of exactly the files of the manifest.
\<close>

theorem receive_command_delivers:
  assumes libs: "rmp_ok (fe_rmp env)" "sendable (fe_rmp env) Ready" "fv_rmp (rl_receiver renv n) = fe_rmp env"
        "fv_sha (rl_receiver renv n) = fe_sha env" "inverts (fe_encode env) (fv_decode (rl_receiver renv n))"
        "json_ok (rl_json renv)"
    and run: "folder_send env disk path src s = (Inr (), s')"
    and prep: "prepare path src (s\<lparr> fo_transfer_start := Some (fo_now s), fo_total_compressed_bytes := 0 \<rparr>) = (Inr rp, s0)"
        "base_path path src = Inr base" "ready_to_send (fo_config s) (fo_state s0)"
    and wrote: "written s' = written s @ w"
    and pl: "pl_items pl = ft_files (fo_state s0)" "pl_chunks pl = get_completed_chunks (fo_state s0)"
    and ok: "\<forall>i < length (pl_items pl). source_file disk base pl i \<and> target_path out pl i"
        "no_clash pl {..<length (pl_items pl)}"
  shows "\<exists>bs. fo_streams s' = fo_streams s @ streams_of bs \<and>
     map fst bs = filter (\<lambda>i. i \<notin> set (ft_completed_files (fo_state s0))) [0..<length (pl_items pl)] \<and>
     (\<forall>arr v. list_all2 arrives bs arr \<longrightarrow>
        turn_waiting renv n (fo_config s) pl (set (ft_completed_files (fo_state s0))) w arr v \<longrightarrow>
        (\<exists>v' r. receive_one renv n out True peer v = (TransferDone, v') \<and>
           (\<forall>i < length (pl_items pl). rw_disk v' (pl_dst pl i) = Some (pl_data pl i)) \<and>
           tr_direction r = Receive \<and> tr_status r = Completed \<and> tr_peer_address r = peer \<and>
           tr_files r = map fm_path (pl_items pl) \<and>
           (\<forall>h b. reads_as (rl_json renv) (rl_history_path renv) (rw_store v) h \<longrightarrow> to_json (rl_json renv) (h @ [r]) = Inr b \<longrightarrow>
              reads_as (rl_json renv) (rl_history_path renv) (rw_store v') (h @ [r]))))"
proof -
  have nonempty: "pl_items pl \<noteq> []" using prepare_Inr [OF prep(1)] pl(1) by simp
  have libs': "fv_rmp (accepting_receiver renv n) = fe_rmp env" "fv_sha (accepting_receiver renv n) = fe_sha env"
      "inverts (fe_encode env) (fv_decode (accepting_receiver renv n))" "fv_accept (accepting_receiver renv n) = (\<lambda>info. Accept)"
    using libs by (simp_all add: accepting_receiver_def)
  obtain bs where bs: "fo_streams s' = fo_streams s @ streams_of bs"
      "map fst bs = filter (\<lambda>i. i \<notin> set (ft_completed_files (fo_state s0))) [0..<length (pl_items pl)]"
      "\<forall>arr r. list_all2 arrives bs arr \<longrightarrow>
        receiver_waiting (accepting_receiver renv n) (fo_config s) pl (set (ft_completed_files (fo_state s0))) w arr r \<longrightarrow>
        (\<exists>r' sm. receive_folder (accepting_receiver renv n) out r = (Inr sm, r') \<and> sum_files sm = map fm_path (pl_items pl) \<and>
           fi_streams r' = [] \<and> (\<forall>i < length (pl_items pl). fi_disk r' (pl_dst pl i) = Some (pl_data pl i)))"
    using folder_transfer_delivers [OF libs(1,2) libs' run prep wrote pl ok] by blast
  have "\<exists>v' r. receive_one renv n out True peer v = (TransferDone, v') \<and>
           (\<forall>i < length (pl_items pl). rw_disk v' (pl_dst pl i) = Some (pl_data pl i)) \<and>
           tr_direction r = Receive \<and> tr_status r = Completed \<and> tr_peer_address r = peer \<and>
           tr_files r = map fm_path (pl_items pl) \<and>
           (\<forall>h b. reads_as (rl_json renv) (rl_history_path renv) (rw_store v) h \<longrightarrow> to_json (rl_json renv) (h @ [r]) = Inr b \<longrightarrow>
              reads_as (rl_json renv) (rl_history_path renv) (rw_store v') (h @ [r]))"
    if arr: "list_all2 arrives bs arr"
      and v: "turn_waiting renv n (fo_config s) pl (set (ft_completed_files (fo_state s0))) w arr v" for arr v
  proof -
    obtain r' sm where r': "receive_folder (accepting_receiver renv n) out
          (create_dir_all out (folder_receiver_new (pe_connection (rw_session v)) (fo_config s) (rl_new_id renv n) (rw_disk v)
             (rl_streams renv n) (Some (progress_new 0)) (rl_now renv n))) = (Inr sm, r')"
        "sum_files sm = map fm_path (pl_items pl)" "\<forall>i < length (pl_items pl). fi_disk r' (pl_dst pl i) = Some (pl_data pl i)"
      using bs(3) arr turn_waiting_receiver [OF v] by blast
    obtain v1 where v1: "run_receive renv n out True v = (Inr sm, v1)" "rw_disk v1 = fi_disk r'" "rw_store v1 = rw_store v"
      using run_receive_accepting [OF v r'(1)] by blast
    obtain t0 t1 t2 where clock: "rl_clock renv n = (t0, t1, t2)" by (metis prod.collapse)
    let ?r = "record_complete t1 (sum_files sm) (sum_bytes sm) (record_new t0 (rl_record_id renv n) Receive peer)"
    have one: "receive_one renv n out True peer v = (TransferDone, record_transfer renv n ?r v1)"
      using v1(1) clock r'(2) nonempty by (simp add: receive_one_def Let_def)
    have "reads_as (rl_json renv) (rl_history_path renv) (rw_store (record_transfer renv n ?r v1)) (h @ [?r])"
      if "reads_as (rl_json renv) (rl_history_path renv) (rw_store v) h" "to_json (rl_json renv) (h @ [?r]) = Inr b" for h b
      using append_record_reads [OF libs(6) that(1), of t2 ?r] that(2) v1(3) clock by (auto simp: record_transfer_def)
    moreover have "tr_peer_address ?r = peer" by (simp add: record_complete_def close_record_def record_new_def)
    ultimately show ?thesis
      using one v1(2) r'(2,3)
      by (intro exI [of _ "record_transfer renv n ?r v1"] exI [of _ ?r]) (simp add: record_transfer_def)
  qed
  with bs(1,2) show ?thesis by blast
qed

section \<open>A delivery\<close>

text \<open>One file of one byte, sent to a command that is in its second turn.\<close>

definition demo_plan :: folder_plan where
  "demo_plan = \<lparr> pl_items = ft_files demo_state, pl_chunks = get_completed_chunks demo_state,
     pl_data = (\<lambda>_. [5]), pl_dst = (\<lambda>_. ''in/a'') \<rparr>"

definition demo_delivery :: receive_env where
  "demo_delivery = demo_receive_env\<lparr>
     rl_receiver := (\<lambda>n. \<lparr> fv_rmp = demo_codec, fv_decode = (\<lambda>x. Inl []), fv_sha = (\<lambda>b. word_of_nat (length b)),
       fv_end = None, fv_accept = (\<lambda>i. Reject) \<rparr>),
     rl_dir_error := (\<lambda>n. None), rl_streams := (\<lambda>n. [Inr (chunk_stream 0 False [5])]) \<rparr>"

definition demo_turn :: "bytes \<Rightarrow> receive_world" where
  "demo_turn w = \<lparr> rw_session = (sw_session demo_world)\<lparr> pe_connection := demo_conn w \<rparr>, rw_disk = Map.empty, rw_dirs = [],
     rw_store = Map.empty, rw_turn = 1 \<rparr>"

lemma demo_state_sel:
  "length (ft_files demo_state) = 1" "ft_completed_files demo_state = []"
  "ft_files demo_state ! 0 = \<lparr> fm_path = ''a'', fm_size = 1, fm_modified = 0, fm_checksum = 0 \<rparr>"
  by (simp_all add: demo_state_def folder_state_new_def)

lemma demo_plan_ok:
  "\<forall>i < length (pl_items demo_plan). source_file [''d/a'' \<mapsto> [5]] ''d'' demo_plan i \<and> target_path ''in'' demo_plan i"
  "no_clash demo_plan {..<length (pl_items demo_plan)}"
proof -
  have "join ''d'' ''a'' = ''d/a''" "sanitize_relative_path ''a'' = Inr ''a''" "join ''in'' ''a'' = ''in/a''" by code_simp+
  then show "\<forall>i < length (pl_items demo_plan). source_file [''d/a'' \<mapsto> [5]] ''d'' demo_plan i \<and> target_path ''in'' demo_plan i"
    by (simp add: demo_plan_def demo_state_sel source_file_def target_path_def)
qed (simp add: demo_plan_def demo_state_sel no_clash_def)

lemma demo_turn_waiting:
  "turn_waiting demo_delivery 1 demo_config demo_plan {} w [[chunk_stream 0 False [5]]] (demo_turn w)"
  by (simp add: turn_waiting_def demo_delivery_def demo_turn_def demo_world_def demo_plan_def demo_state_sel demo_conn_def
      target_ready_def Transfer_Correct.resumable_def get_completed_chunks_def) (simp add: demo_state_def folder_state_new_def)

theorem receive_command_delivers_witness:
  "\<exists>s' v'. folder_send demo_fenv [''d/a'' \<mapsto> [5]] ''d/a'' (Some (FileNode [5] 0)) demo_sender = (Inr (), s') \<and>
     receive_one demo_delivery 1 ''in'' True ''peer'' (demo_turn (written s')) = (TransferDone, v') \<and>
     rw_disk v' ''in/a'' = Some [5]"
proof -
  let ?s0 = "demo_sender\<lparr> fo_transfer_start := Some 0, fo_total_compressed_bytes := 0, fo_state := demo_state \<rparr>"
  obtain s' where s': "folder_send demo_fenv [''d/a'' \<mapsto> [5]] ''d/a'' (Some (FileNode [5] 0)) demo_sender = (Inr (), s')"
      "fo_streams s' = [chunk_stream 0 False [5]]"
    using demo_send_run by blast
  have cfg: "fo_config demo_sender = demo_config" "fo_streams demo_sender = []" "written demo_sender = []" "fo_now demo_sender = 0"
    by (simp_all add: demo_sender_def folder_session_new_def written_def demo_conn_def)
  have libs: "rmp_ok (fe_rmp demo_fenv)" "sendable (fe_rmp demo_fenv) Ready" "fv_rmp (rl_receiver demo_delivery 1) = fe_rmp demo_fenv"
      "fv_sha (rl_receiver demo_delivery 1) = fe_sha demo_fenv"
      "inverts (fe_encode demo_fenv) (fv_decode (rl_receiver demo_delivery 1))" "json_ok (rl_json demo_delivery)"
    using demo_json_ok by (simp_all add: demo_delivery_def demo_receive_env_def demo_fenv_def demo_codec_ok inverts_def)
  have prep: "prepare ''d/a'' (Some (FileNode [5] 0)) (demo_sender\<lparr> fo_transfer_start := Some (fo_now demo_sender),
      fo_total_compressed_bytes := 0 \<rparr>) = (Inr None, ?s0)" "ready_to_send (fo_config demo_sender) (fo_state ?s0)"
    using demo_prepare demo_ready cfg by simp_all
  have wrote: "written s' = written demo_sender @ written s'" using cfg by simp
  have pl: "pl_items demo_plan = ft_files (fo_state ?s0)" "pl_chunks demo_plan = get_completed_chunks (fo_state ?s0)"
    by (simp_all add: demo_plan_def)
  obtain bs where bs: "fo_streams s' = fo_streams demo_sender @ streams_of bs"
      "map fst bs = filter (\<lambda>i. i \<notin> set (ft_completed_files (fo_state ?s0))) [0..<length (pl_items demo_plan)]"
      "\<forall>arr v. list_all2 arrives bs arr \<longrightarrow>
         turn_waiting demo_delivery 1 (fo_config demo_sender) demo_plan (set (ft_completed_files (fo_state ?s0))) (written s') arr v \<longrightarrow>
         (\<exists>v' r. receive_one demo_delivery 1 ''in'' True ''peer'' v = (TransferDone, v') \<and>
            (\<forall>i < length (pl_items demo_plan). rw_disk v' (pl_dst demo_plan i) = Some (pl_data demo_plan i)))"
    using receive_command_delivers [OF libs s'(1) prep(1) demo_base prep(2) wrote pl demo_plan_ok, of "''peer''"]
    by (elim exE conjE) (rule that, assumption, assumption, blast)
  have one: "length (pl_items demo_plan) = 1" by (simp add: demo_plan_def demo_state_sel)
  obtain d where "bs = [(0, d, [chunk_stream 0 False [5]])]"
  proof -
    have "map fst bs = [0]" "[chunk_stream 0 False [5]] = streams_of bs"
      using bs(1,2) s'(2) cfg one by (simp_all add: demo_state_sel)
    then show ?thesis using that by auto
  qed
  then have "list_all2 arrives bs [[chunk_stream 0 False [5]]]" by (simp add: arrives_def MAX_CHUNK_STREAM_BYTES_def)
  then obtain v' where "receive_one demo_delivery 1 ''in'' True ''peer'' (demo_turn (written s')) = (TransferDone, v')"
      "\<forall>i < 1. rw_disk v' (pl_dst demo_plan i) = Some (pl_data demo_plan i)"
    using bs(3) demo_turn_waiting [of "written s'"] cfg one demo_state_sel(2) by fastforce
  with s'(1) show ?thesis by (auto simp: demo_plan_def)
qed

end
