(* ===== verification/Text_Output.thy ===== *)
theory Text_Output
  imports Folder_Transfer
begin

text \<open>
  The texts of sizes, rates and durations that the two front ends and the statistics of a transfer
  show. What a floating-point number reads and how it is printed with a fixed number of decimals are
  parameters; the divisions, by powers of two, are exact.
\<close>

record float_texts =
  fl_as_f64 :: "u64 \<Rightarrow> rat"
  fl_decimals :: "nat \<Rightarrow> rat \<Rightarrow> string"

section \<open>Sizes\<close>

definition SIZE_UNITS :: "string list" where
  "SIZE_UNITS = [''B'', ''KB'', ''MB'', ''GB'', ''TB'']"

function scale_size :: "rat \<Rightarrow> nat \<Rightarrow> rat \<times> nat" where
  "scale_size sz unit_index =
     (if 1024 \<le> sz \<and> unit_index < length SIZE_UNITS - 1 then scale_size (sz / 1024) (unit_index + 1)
      else (sz, unit_index))"
  by pat_completeness auto
termination by (relation "measure (\<lambda>(sz, i). length SIZE_UNITS - i)") auto

declare scale_size.simps [simp del]

definition gui_format_bytes :: "float_texts \<Rightarrow> u64 \<Rightarrow> string" where
  "gui_format_bytes t bytes =
     (case scale_size (fl_as_f64 t bytes) 0 of (sz, i) \<Rightarrow> fl_decimals t 2 sz @ '' '' @ SIZE_UNITS ! i)"

definition format_bytes :: "float_texts \<Rightarrow> u64 \<Rightarrow> string" where
  "format_bytes t bytes =
     (if bytes = 0 then ''0 B''
      else case scale_size (fl_as_f64 t bytes) 0 of (sz, i) \<Rightarrow> fl_decimals t 2 sz @ '' '' @ SIZE_UNITS ! i)"

section \<open>Rates\<close>

definition format_bandwidth :: "float_texts \<Rightarrow> u64 \<Rightarrow> string" where
  "format_bandwidth t bytes_per_sec =
     (let scaled = (\<lambda>unit. fl_decimals t 2 (fl_as_f64 t bytes_per_sec / of_nat (unat (unit :: u64)))) in
      if bytes_per_sec = 0 then ''unlimited''
      else if bytes_per_sec \<ge> 1024 * 1024 * 1024 then scaled (1024 * 1024 * 1024) @ '' GB/s''
      else if bytes_per_sec \<ge> 1024 * 1024 then scaled (1024 * 1024) @ '' MB/s''
      else if bytes_per_sec \<ge> 1024 then scaled 1024 @ '' KB/s''
      else show_nat (unat bytes_per_sec) @ '' B/s'')"

section \<open>Durations\<close>

definition format_duration :: "u64 \<Rightarrow> string" where
  "format_duration secs =
     (if secs < 60 then show_nat (unat secs) @ ''s''
      else if secs < 3600 then show_nat (unat (secs div 60)) @ ''m '' @ show_nat (unat (secs mod 60)) @ ''s''
      else show_nat (unat (secs div 3600)) @ ''h '' @ show_nat (unat (secs mod 3600 div 60)) @ ''m '' @
             show_nat (unat (secs mod 60)) @ ''s'')"

definition gui_format_duration :: "u64 \<Rightarrow> string" where
  "gui_format_duration seconds =
     (let hours = seconds div 3600; minutes = seconds mod 3600 div 60; secs = seconds mod 60 in
      if hours > 0 then show_nat (unat hours) @ ''h '' @ show_nat (unat minutes) @ ''m '' @ show_nat (unat secs) @ ''s''
      else if minutes > 0 then show_nat (unat minutes) @ ''m '' @ show_nat (unat secs) @ ''s''
      else show_nat (unat secs) @ ''s'')"

section \<open>The statistics of a transfer\<close>

definition mb_per_sec :: "float_texts \<Rightarrow> rat \<Rightarrow> u64 \<Rightarrow> rat" where
  "mb_per_sec t duration_secs bytes =
     (if duration_secs > 0 then fl_as_f64 t bytes / duration_secs / 1048576 else 0)"

definition compression_label :: "float_texts \<Rightarrow> rat \<times> rat \<Rightarrow> string" where
  "compression_label t = (\<lambda>(ratio, percent).
     (if percent \<ge> 0 then fl_decimals t 1 percent @ ''% saved, '' @ fl_decimals t 2 ratio @ ''x compression''
      else fl_decimals t 1 (- percent) @ ''% overhead''))"

text \<open>The lines, given whether compression is on and the compressed bytes of the session.\<close>

definition display_transfer_stats ::
  "float_texts \<Rightarrow> bool \<Rightarrow> u64 \<Rightarrow> nat \<Rightarrow> u64 \<Rightarrow> rat \<Rightarrow> bool \<Rightarrow> string list" where
  "display_transfer_stats t compression compressed total_files total_bytes duration_secs is_sender =
     (let action = (if is_sender then ''sent'' else ''received'');
          direction = (if is_sender then ''->'' else ''<-'');
          speed = (\<lambda>n. fl_decimals t 2 (mb_per_sec t duration_secs n))
      in ''Transfer Statistics:'' #
         (if compression \<and> compressed > 0
          then [''   Data: '' @ format_bandwidth t total_bytes @ '' '' @ direction @ '' '' @ format_bandwidth t compressed @
                  '' ('' @ compression_label t (calc_compression_stats compressed total_bytes) @ '')'',
                ''   Speed: '' @ speed compressed @ '' MB/s network, '' @ speed total_bytes @ '' MB/s throughput'']
          else if duration_secs > 0 then [''   Speed: '' @ speed total_bytes @ '' MB/s'']
          else []) @
         [''Folder transfer complete: '' @ show_nat total_files @ '' files, '' @ format_bandwidth t total_bytes @ '' '' @ action])"

section \<open>What they show\<close>

text \<open>The number shown times its unit is the size; the unit is the largest that leaves at least one of it.\<close>

lemma scale_size_exact:
  "scale_size sz i = (s, j) \<Longrightarrow> i \<le> 4 \<Longrightarrow> i \<le> j \<and> j \<le> 4 \<and> s * 1024 ^ (j - i) = sz \<and> (j < 4 \<longrightarrow> s < 1024) \<and> (i < j \<longrightarrow> 1 \<le> s)"
proof (induction sz i rule: scale_size.induct)
  case (1 sz i)
  show ?case
  proof (cases "1024 \<le> sz \<and> i < 4")
    case True
    then have "scale_size (sz / 1024) (i + 1) = (s, j)"
      using "1.prems"(1) by (subst (asm) scale_size.simps) (simp add: SIZE_UNITS_def)
    with "1.IH" True have ih: "i + 1 \<le> j \<and> j \<le> 4 \<and> s * 1024 ^ (j - (i + 1)) = sz / 1024 \<and> (j < 4 \<longrightarrow> s < 1024) \<and> (i + 1 < j \<longrightarrow> 1 \<le> s)"
      by (simp add: SIZE_UNITS_def)
    then have "i + 1 \<le> j" by blast
    then have "j - i = Suc (j - (i + 1))" by linarith
    with ih have "s * 1024 ^ (j - i) = sz" by simp
    moreover have "1 \<le> s" using ih True by (cases "i + 1 = j") auto
    ultimately show ?thesis using ih by simp
  next
    case False
    with "1.prems" show ?thesis by (subst (asm) scale_size.simps) (auto simp: SIZE_UNITS_def split: if_splits)
  qed
qed

lemma format_duration_same: "gui_format_duration s = format_duration s"
proof -
  have "0 < s div 3600 \<longleftrightarrow> \<not> s < 3600" "0 < s mod 3600 div 60 \<longleftrightarrow> 60 \<le> s mod 3600"
    by (simp_all add: word_less_nat_alt word_le_nat_alt unat_div unat_mod div_greater_zero_iff not_less)
  moreover have "s < 3600 \<Longrightarrow> s mod 3600 = s"
    by (simp add: word_less_nat_alt word_unat_eq_iff unat_mod)
  moreover have "s < 60 \<Longrightarrow> s mod 60 = s" "s < 60 \<Longrightarrow> s < 3600" "3600 \<le> s \<Longrightarrow> 60 \<le> s"
    by (simp_all add: word_less_nat_alt word_le_nat_alt word_unat_eq_iff unat_mod)
  ultimately show ?thesis
    by (auto simp: gui_format_duration_def format_duration_def Let_def not_less)
qed

lemma format_bytes_same: "n \<noteq> 0 \<Longrightarrow> gui_format_bytes t n = format_bytes t n"
  by (simp add: gui_format_bytes_def format_bytes_def)

text \<open>A size of nothing reads differently in the two front ends; in the statistics it is an unlimited rate.\<close>

lemma nothing_in_three_ways:
  assumes "fl_as_f64 t 0 = 0" "fl_decimals t 2 0 = ''0.00''"
  shows "format_bytes t 0 = ''0 B''" "gui_format_bytes t 0 = ''0.00 B''"
    "last (display_transfer_stats t False 0 1 0 1 True) = ''Folder transfer complete: 1 files, unlimited sent''"
proof -
  have "scale_size 0 0 = (0, 0)" by (subst scale_size.simps) simp
  with assms show "gui_format_bytes t 0 = ''0.00 B''" by (simp add: gui_format_bytes_def SIZE_UNITS_def)
  have "show_nat 1 = ''1''" by code_simp
  then show "last (display_transfer_stats t False 0 1 0 1 True) = ''Folder transfer complete: 1 files, unlimited sent''"
    by (simp add: display_transfer_stats_def format_bandwidth_def Let_def)
qed (simp add: format_bytes_def)

end
