(* ===== verification/History_Views.thy ===== *)
theory History_Views
  imports Cli_Session History Text_Output
begin

text \<open>
  What the user sees of the history: the listing of \<open>p2p-cli/src/history.rs\<close> with its filters, and the
  history tab of the graphical interface. The text of a local time is a parameter.
\<close>

section \<open>The listing of the command line\<close>

definition direction_filter :: "string \<Rightarrow> transfer_direction option" where
  "direction_filter dir =
     (let d = to_lower dir in
      if d = ''send'' then Some Send
      else if d = ''receive'' \<or> d = ''recv'' then Some Receive
      else None)"

definition status_filter :: "bool \<Rightarrow> bool \<Rightarrow> history \<Rightarrow> history" where
  "status_filter completed failed rs =
     (if completed then filter (\<lambda>r. tr_status r = Completed) rs
      else if failed then filter (\<lambda>r. tr_status r = Failed) rs
      else rs)"

definition newest_first :: "history \<Rightarrow> history" where
  "newest_first = sort_key (\<lambda>r. - int (unat (tr_start_time r)))"

definition select_records :: "nat \<Rightarrow> string option \<Rightarrow> bool \<Rightarrow> bool \<Rightarrow> history \<Rightarrow> cli_error + history" where
  "select_records limit direction completed failed h =
     (case direction of
        None \<Rightarrow> Inr (take limit (newest_first (status_filter completed failed h)))
      | Some dir \<Rightarrow>
          (case direction_filter dir of
             None \<Rightarrow> Inl (Plain (''Invalid direction. Use '' @ [CHR 0x27] @ ''send'' @ [CHR 0x27] @ '' or '' @
                                 [CHR 0x27] @ ''receive'' @ [CHR 0x27]))
           | Some d \<Rightarrow> Inr (take limit (newest_first (status_filter completed failed (filter (\<lambda>r. tr_direction r = d) h))))))"

record record_texts =
  rt_timestamp :: "u64 \<Rightarrow> string"
  rt_floats :: float_texts
  rt_uuid :: "uuid \<Rightarrow> string"

definition direction_label :: "transfer_direction \<Rightarrow> string" where
  "direction_label d = (case d of Send \<Rightarrow> ''SEND'' | Receive \<Rightarrow> ''RECV'')"

definition status_label :: "transfer_status \<Rightarrow> string" where
  "status_label st = (case st of Completed \<Rightarrow> ''OK '' | Interrupted \<Rightarrow> ''INT'' | Failed \<Rightarrow> ''ERR'')"

definition status_name :: "transfer_status \<Rightarrow> string" where
  "status_name st = (case st of Completed \<Rightarrow> ''Completed'' | Interrupted \<Rightarrow> ''Interrupted'' | Failed \<Rightarrow> ''Failed'')"

definition record_lines :: "record_texts \<Rightarrow> transfer_record \<Rightarrow> string list" where
  "record_lines t r =
     [''['' @ direction_label (tr_direction r) @ ''] ['' @ status_label (tr_status r) @ ''] Transfer '' @ rt_uuid t (tr_transfer_id r),
      ''  Started:   '' @ rt_timestamp t (tr_start_time r),
      ''  Peer:      '' @ tr_peer_address r,
      ''  Files:     '' @ show_nat (length (tr_files r)) @ '' file(s)'',
      ''  Size:      '' @ format_bytes (rt_floats t) (tr_bytes_transferred r),
      ''  Duration:  '' @ format_duration (tr_duration_secs r),
      ''  Status:    '' @ status_name (tr_status r)] @
     (if tr_files r \<noteq> [] \<and> length (tr_files r) \<le> 5
      then ''  Files:'' # map (\<lambda>f. ''    - '' @ f) (tr_files r)
      else if length (tr_files r) > 5
      then [''  Files: '' @ show_nat (length (tr_files r)) @ '' files (use details command to see all)'']
      else []) @ ['''']"

text \<open>The lines printed, and the result.\<close>

definition handle_history ::
  "record_texts \<Rightarrow> json \<Rightarrow> string \<Rightarrow> fstate \<Rightarrow> nat \<Rightarrow> string option \<Rightarrow> bool \<Rightarrow> bool \<Rightarrow> string list \<times> (cli_error + unit)" where
  "handle_history t j path d limit direction completed failed =
     (let header = [''Transfer History'', ''''] in
      if contents path d = None then (header @ [''No transfer history found.''], Inr ())
      else case history_load j path d of
        Inl e \<Rightarrow> (header, Inl (FromCore e))
      | Inr h \<Rightarrow>
          (case select_records limit direction completed failed h of
             Inl e \<Rightarrow> (header, Inl e)
           | Inr [] \<Rightarrow> (header @ [''No transfers found matching the filters.''], Inr ())
           | Inr rs \<Rightarrow>
               (header @ [''Found '' @ show_nat (length rs) @ '' transfer(s):'', ''''] @ concat (map (record_lines t) rs), Inr ())))"

section \<open>The history tab\<close>

record history_row =
  hw_file :: string
  hw_summary :: "string \<times> string \<times> string"
  hw_peer :: string
  hw_duration :: string

definition history_row_of :: "record_texts \<Rightarrow> transfer_record \<Rightarrow> history_row" where
  "history_row_of t r =
     \<lparr> hw_file = (if tr_files r = [] then ''Unknown''
                 else if length (tr_files r) = 1 then tr_files r ! 0
                 else show_nat (length (tr_files r)) @ '' files''),
       hw_summary = (case tr_direction r of Send \<Rightarrow> ''Sent'' | Receive \<Rightarrow> ''Received'', status_name (tr_status r),
                     gui_format_bytes (rt_floats t) (tr_bytes_transferred r)),
       hw_peer = tr_peer_address r, hw_duration = gui_format_duration (tr_duration_secs r) \<rparr>"

text \<open>An empty history shows a note instead of rows.\<close>

definition view_history_tab :: "record_texts \<Rightarrow> history \<Rightarrow> string + history_row list" where
  "view_history_tab t h =
     (let transfers = recent 20 h in
      if transfers = [] then Inl ''No transfer history yet'' else Inr (map (history_row_of t) transfers))"

section \<open>What they show\<close>

text \<open>The records a listing asks for.\<close>

definition asked_for :: "string option \<Rightarrow> bool \<Rightarrow> bool \<Rightarrow> transfer_record \<Rightarrow> bool" where
  "asked_for direction completed failed r \<longleftrightarrow>
     (\<forall>dir. direction = Some dir \<longrightarrow> direction_filter dir = Some (tr_direction r)) \<and>
     (completed \<longrightarrow> tr_status r = Completed) \<and> (\<not> completed \<and> failed \<longrightarrow> tr_status r = Failed)"

lemma select_records_eq:
  "select_records limit direction completed failed h = Inr rs \<longleftrightarrow>
     (\<forall>dir. direction = Some dir \<longrightarrow> direction_filter dir \<noteq> None) \<and>
     rs = recent limit (filter (asked_for direction completed failed) h)"
proof -
  have "status_filter completed failed (filter (\<lambda>r. tr_direction r = d) h) = filter (asked_for (Some dir) completed failed) h"
    if "direction_filter dir = Some d" for dir d
    using that by (auto simp: status_filter_def asked_for_def intro!: filter_cong)
  moreover have "status_filter completed failed h = filter (asked_for None completed failed) h"
    by (auto simp: status_filter_def asked_for_def fun_eq_iff intro!: filter_cong)
  ultimately show ?thesis
    by (auto simp: select_records_def recent_def newest_first_def split: option.splits)
qed

lemma recent_newest:
  obtains rest where "mset h = mset (recent limit h) + mset rest"
    "\<forall>r \<in> set (recent limit h). \<forall>r' \<in> set rest. tr_start_time r' \<le> tr_start_time r"
    "sorted_wrt (\<lambda>a b. tr_start_time b \<le> tr_start_time a) (recent limit h)"
proof -
  let ?k = "\<lambda>r. - int (unat (tr_start_time r))"
  let ?s = "sort_key ?k h"
  have s: "sorted_wrt (\<lambda>a b. tr_start_time b \<le> tr_start_time a) (take limit ?s @ drop limit ?s)"
    unfolding append_take_drop_id
    by (rule sorted_wrt_mono_rel [OF _ sorted_sort_key [of ?k h, unfolded sorted_map]])
       (simp only: neg_le_iff_le of_nat_le_iff word_le_nat_alt)
  moreover have "mset h = mset (take limit ?s) + mset (drop limit ?s)"
    by (metis append_take_drop_id mset_append mset_sort)
  ultimately show ?thesis
    by (intro that [of "drop limit ?s"]) (auto simp only: recent_def sorted_wrt_append)
qed

text \<open>
  What the listing of the history shows. It fails exactly for a direction that is
  none; otherwise it is the most recent records among those of the direction and the status asked for
  (asking for completed records goes before asking for failed ones), as many as the limit allows: sorted by
  descending start time, with none left out that is more recent than one shown.
\<close>

lemma history_listing:
  "(case select_records limit direction completed failed h of
      Inl e \<Rightarrow> \<exists>dir. direction = Some dir \<and> direction_filter dir = None
    | Inr rs \<Rightarrow>
        length rs = min limit (length (filter (asked_for direction completed failed) h)) \<and>
        sorted_wrt (\<lambda>a b. tr_start_time b \<le> tr_start_time a) rs \<and>
        (\<exists>rest. mset (filter (asked_for direction completed failed) h) = mset rs + mset rest \<and>
           (\<forall>r \<in> set rs. \<forall>r' \<in> set rest. tr_start_time r' \<le> tr_start_time r)))"
proof (cases "select_records limit direction completed failed h")
  case (Inl e)
  then show ?thesis by (auto simp: select_records_def split: option.splits)
next
  case (Inr rs)
  then have rs: "rs = recent limit (filter (asked_for direction completed failed) h)" by (simp add: select_records_eq)
  obtain rest where "mset (filter (asked_for direction completed failed) h) = mset rs + mset rest"
      "\<forall>r \<in> set rs. \<forall>r' \<in> set rest. tr_start_time r' \<le> tr_start_time r"
      "sorted_wrt (\<lambda>a b. tr_start_time b \<le> tr_start_time a) rs"
    using recent_newest unfolding rs by blast
  moreover have "length rs = min limit (length (filter (asked_for direction completed failed) h))"
    by (simp add: rs recent_def)
  ultimately show ?thesis using Inr by auto
qed

text \<open>The two most recent of the completed ones, of four records.\<close>

definition demo_record :: "u64 \<Rightarrow> transfer_status \<Rightarrow> transfer_record" where
  "demo_record start st = (record_new start (Uuid 1) Send ''peer'')\<lparr> tr_status := st \<rparr>"

lemma history_listing_witness:
  "\<exists>rs. select_records 2 None True False [demo_record 3 Completed, demo_record 9 Failed, demo_record 5 Completed, demo_record 4 Completed] =
     Inr rs \<and> rs = [demo_record 5 Completed, demo_record 4 Completed] \<and> sorted_wrt (\<lambda>a b. tr_start_time b \<le> tr_start_time a) rs"
proof -
  have "select_records 2 None True False [demo_record 3 Completed, demo_record 9 Failed, demo_record 5 Completed, demo_record 4 Completed] =
     Inr [demo_record 5 Completed, demo_record 4 Completed]"
    by (simp add: select_records_def newest_first_def status_filter_def demo_record_def record_new_def)
  then show ?thesis
    using history_listing [where limit = 2 and direction = None and completed = True and failed = False and
        h = "[demo_record 3 Completed, demo_record 9 Failed, demo_record 5 Completed, demo_record 4 Completed]"]
    by auto
qed

end
