(* ===== verification/Diagnostics.thy ===== *)
theory Diagnostics
  imports Cli_Session
begin

text \<open>
  The commands that only look: \<open>discover\<close>, which lists the peers of the local network, and
  \<open>nat-test\<close>, which classifies the NAT by two STUN servers or, given a rendezvous server, has two peers
  of its own pair through it. What they log is their result here.
\<close>

section \<open>Listing the peers\<close>

definition peer_line :: "(socket_addr \<Rightarrow> string) \<Rightarrow> (uuid \<Rightarrow> string) \<Rightarrow> (fingerprint \<Rightarrow> string) \<Rightarrow> nat \<Rightarrow> lan_peer \<Rightarrow> string" where
  "peer_line show_sa show_uuid show_fp idx p =
     ''  ['' @ show_nat (idx + 1) @ ''] '' @ lp_device_name p @ '' - '' @ show_sa (lan_socket_addr p) @
     '' (id='' @ show_uuid (lp_device_id p) @ '', fp='' @ show_fp (lp_cert_fingerprint p) @ '')''"

text \<open>The turns are those of the two tasks before the timeout; the device number is drawn twice, for the name and by the service.\<close>

definition handle_discover ::
  "cli_env \<Rightarrow> (fingerprint \<Rightarrow> string) \<Rightarrow> nat \<Rightarrow> uuid \<Rightarrow> u16 \<Rightarrow> string option \<Rightarrow> texts \<Rightarrow> string list outcome" where
  "handle_discover env show_fp n name_id port identity_dir ids =
     (case load_or_generate (sn_libs (ce_net env)) identity_dir ids of
        None \<Rightarrow> None
      | Some (Inl e, ids') \<Rightarrow> Some (Inl (FromCore e))
      | Some (Inr ident, ids') \<Rightarrow>
          (case ce_lan env n of (own, turns, order) \<Rightarrow>
             (case discovery_manager_new (ce_udp env) own (''cli-'' @ take 8 (ce_uuid_text env name_id)) port (id_fingerprint ident) 10 of
                Inl e \<Rightarrow> Some (Inl (FromCore e))
              | Inr manager \<Rightarrow>
                  (let peers = get_peers order (lan_run (ce_beacons env) turns manager)
                   in Some (Inr ((''Discovered '' @ show_nat (length peers) @ '' peer(s):'') #
                        map (\<lambda>(idx, p). peer_line (at_show_sa (ce_addr_text env)) (ce_uuid_text env) show_fp idx p)
                          (List.enumerate 0 peers)))))))"

section \<open>The STUN diagnosis\<close>

definition diagnosis_servers :: "string option \<Rightarrow> string \<times> string" where
  "diagnosis_servers stun_server =
     (case stun_server of Some custom \<Rightarrow> (custom, snd DEFAULT_STUN_SERVERS) | None \<Rightarrow> DEFAULT_STUN_SERVERS)"

definition first_address :: "(string \<Rightarrow> io_error + socket_addr list) \<Rightarrow> string \<Rightarrow> cli_error + socket_addr" where
  "first_address lookup_host host_port =
     (case lookup_host host_port of
        Inl e \<Rightarrow> Inl (FromIo e)
      | Inr [] \<Rightarrow> Inl (Plain (''could not resolve '' @ [CHR 0x27] @ host_port @ [CHR 0x27]))
      | Inr (a # _) \<Rightarrow> Inr a)"

text \<open>The socket is bound by \<open>dg_bind\<close>; \<open>dg_query i\<close> is what the \<open>i\<close>-th query on it sends and receives.\<close>

record diagnosis =
  dg_lookup :: "string \<Rightarrow> io_error + socket_addr list"
  dg_bind :: "io_error option"
  dg_query :: "nat \<Rightarrow> socket_addr \<Rightarrow> (bytes \<Rightarrow> io_error option) \<times> bytes \<times> (socket_addr \<times> bytes) list \<times> io_error option"

definition diagnose_query :: "diagnosis \<Rightarrow> nat \<Rightarrow> socket_addr \<Rightarrow> socket_addr result option" where
  "diagnose_query g i server = (case dg_query g i server of (send, tx, packets, lost) \<Rightarrow> query send server tx packets lost)"

text \<open>
  The endpoint the first server reports, and the kind: \<open>classify_nat\<close> asks both servers again, and the
  second only when the first has answered.
\<close>

definition run_stun_only :: "diagnosis \<Rightarrow> string option \<Rightarrow> (socket_addr \<times> nat_class) outcome" where
  "run_stun_only g stun_server =
     (case first_address (dg_lookup g) (fst (diagnosis_servers stun_server)) of
        Inl e \<Rightarrow> Some (Inl e)
      | Inr a \<Rightarrow>
     (case first_address (dg_lookup g) (snd (diagnosis_servers stun_server)) of
        Inl e \<Rightarrow> Some (Inl e)
      | Inr b \<Rightarrow>
     (case dg_bind g of
        Some e \<Rightarrow> Some (Inl (FromIo e))
      | None \<Rightarrow>
     (case diagnose_query g 0 a of
        None \<Rightarrow> None
      | Some (Inl e) \<Rightarrow> Some (Inl (FromCore e))
      | Some (Inr public) \<Rightarrow>
     (case diagnose_query g 1 a of
        None \<Rightarrow> None
      | Some (Inl e) \<Rightarrow> Some (Inl (FromCore e))
      | Some (Inr map_a) \<Rightarrow>
     (case diagnose_query g 2 b of
        None \<Rightarrow> None
      | Some map_b \<Rightarrow>
          Some (map_sum FromCore (\<lambda>kind. (public, kind)) (classify_nat (Inr map_a) map_b))))))))"

section \<open>The self-loop\<close>

text \<open>
  Two peers of this process: their keys, their sockets with the local addresses, the TCP connections to
  the server, the sends of the relay hellos, numbered, and their ends of the race. When a race fails,
  \<open>sl_first_fails\<close> says whose error \<open>try_join\<close> sees first, and \<open>sl_timer_first\<close> whether the outer timer,
  set to the same 30 seconds as the races' own, has fired before.
\<close>

record self_loop =
  sl_lookup :: "string \<Rightarrow> io_error + socket_addr list"
  sl_addr_text :: addr_text
  sl_rng :: "nat list"
  sl_libs :: "identity_libs \<times> identity_libs"
  sl_sockets :: "io_error + socket_addr \<times> socket_addr"
  sl_rmp :: rz_rmp
  sl_tcp :: "socket_addr \<Rightarrow> (io_error + tcp) \<times> (io_error + tcp)"
  sl_hello :: "nat \<Rightarrow> io_error option"
  sl_into_std :: "io_error option"
  sl_bindings :: "binding \<times> binding"
  sl_nets :: "punch_net \<times> punch_net"
  sl_first_fails :: bool
  sl_timer_first :: bool

definition loop_device_a :: "128 word" where "loop_device_a = 0xA1A1A1A1A1A1A1A1A1A1A1A1A1A1A1A1"
definition loop_device_b :: "128 word" where "loop_device_b = 0xB2B2B2B2B2B2B2B2B2B2B2B2B2B2B2B2"

definition loop_request :: "string \<Rightarrow> socket_addr \<Rightarrow> fingerprint \<Rightarrow> 128 word \<Rightarrow> register_request" where
  "loop_request code local fp device =
     \<lparr> rq_protocol_version = RZ_PROTOCOL_VERSION, rq_code = code, rq_public_endpoint = local,
       rq_cert_fingerprint = fp, rq_device_id = device, rq_want_relay = False \<rparr>"

text \<open>The hellos go out in three rounds, one of each peer in a round.\<close>

fun hello_rounds ::
  "(nat \<Rightarrow> io_error option) \<Rightarrow> socket_addr \<times> bytes \<Rightarrow> socket_addr \<times> bytes \<Rightarrow> nat list \<Rightarrow>
     ((socket_addr \<times> bytes) list, cli_error, unit) proc" where
  "hello_rounds hello a b [] = ret ()"
| "hello_rounds hello a b (i # is) = (\<lambda>sent.
     case hello (2 * i) of
       Some e \<Rightarrow> (Inl (FromIo e), sent)
     | None \<Rightarrow>
         (case hello (2 * i + 1) of
            Some e \<Rightarrow> (Inl (FromIo e), sent @ [a])
          | None \<Rightarrow> hello_rounds hello a b is (sent @ [a, b])))"

text \<open>The route, where each peer dials, and the datagrams sent.\<close>

definition loop_route ::
  "self_loop \<Rightarrow> fingerprint \<Rightarrow> fingerprint \<Rightarrow> match_outcome \<Rightarrow> match_outcome \<Rightarrow>
     ((socket_addr \<times> bytes) list, cli_error, string \<times> socket_addr \<times> socket_addr) proc" where
  "loop_route l fp_a fp_b out_a out_b =
     (case (out_a, out_b) of
        (Direct a, Direct b) \<Rightarrow> ret (''direct'', pi_endpoint a, pi_endpoint b)
      | (Relay a, Relay b) \<Rightarrow>
          andthen (hello_rounds (sl_hello l)
                    (ri_relay_endpoint a, encode_hello \<lparr> rh_token = ri_session_token a, rh_fingerprint = fp_a \<rparr>)
                    (ri_relay_endpoint b, encode_hello \<lparr> rh_token = ri_session_token b, rh_fingerprint = fp_b \<rparr>) [0..<3])
            (\<lambda>_. ret (''relay'', ri_relay_endpoint a, ri_relay_endpoint b))
      | _ \<Rightarrow> fail (Plain ''rendezvous returned mixed Direct/Relay outcomes (unsupported)''))"

definition loop_race ::
  "self_loop \<Rightarrow> identity \<Rightarrow> identity \<Rightarrow> socket_addr \<Rightarrow> socket_addr \<Rightarrow> cli_error + connection \<times> connection" where
  "loop_race l id_a id_b peer_a peer_b =
     (let show_sa = at_show_sa (sl_addr_text l);
          dev_a = Uuid loop_device_a; dev_b = Uuid loop_device_b;
          failed = (\<lambda>e. Inl (Plain (if sl_timer_first l then ''punch timed out'' else ''punch failed: '' @ display e)))
      in case (race_connect_and_accept (fst (sl_libs l)) show_sa (fst (sl_nets l)) peer_a (id_fingerprint id_b) dev_a dev_b,
               race_connect_and_accept (snd (sl_libs l)) show_sa (snd (sl_nets l)) peer_b (id_fingerprint id_a) dev_b dev_a) of
           (Inr a, Inr b) \<Rightarrow> Inr (a, b)
         | (Inl e, Inr b) \<Rightarrow> failed e
         | (Inr a, Inl e) \<Rightarrow> failed e
         | (Inl e, Inl e') \<Rightarrow> failed (if sl_first_fails l then e else e'))"

definition self_loop_address :: "self_loop \<Rightarrow> string \<Rightarrow> cli_error + socket_addr" where
  "self_loop_address l rendezvous_host =
     (let with_port = with_default_port (sl_addr_text l) rendezvous_host DEFAULT_RENDEZVOUS_PORT in
      map_sum (Context (''resolving rendezvous '' @ [CHR 0x27] @ with_port @ [CHR 0x27])) id
        (first_address (sl_lookup l) with_port))"

text \<open>The route and both connections, and the datagrams sent to the relay.\<close>

definition run_self_loop_punch ::
  "self_loop \<Rightarrow> string \<Rightarrow> (cli_error + string \<times> connection \<times> connection) \<times> (socket_addr \<times> bytes) list" where
  "run_self_loop_punch l rendezvous_host =
     (case self_loop_address l rendezvous_host of
        Inl e \<Rightarrow> (Inl e, [])
      | Inr addr \<Rightarrow>
          (let code = generate_code (sl_rng l) in
           case (generate (fst (sl_libs l)), generate (snd (sl_libs l))) of
             (Inl e, _) \<Rightarrow> (Inl (FromCore e), [])
           | (Inr id_a, Inl e) \<Rightarrow> (Inl (FromCore e), [])
           | (Inr id_a, Inr id_b) \<Rightarrow>
               (case sl_sockets l of
                  Inl e \<Rightarrow> (Inl (FromIo e), [])
                | Inr (local_a, local_b) \<Rightarrow>
                    (case register_full (sl_rmp l) (fst (sl_tcp l addr))
                            (loop_request code local_a (id_fingerprint id_a) loop_device_a) of
                       Inl e \<Rightarrow> (Inl (Plain (''A register: '' @ client_display e)), [])
                     | Inr out_a \<Rightarrow>
                    (case register_full (sl_rmp l) (snd (sl_tcp l addr))
                            (loop_request code local_b (id_fingerprint id_b) loop_device_b) of
                       Inl e \<Rightarrow> (Inl (Plain (''B register: '' @ client_display e)), [])
                     | Inr out_b \<Rightarrow>
                         andthen (loop_route l (id_fingerprint id_a) (id_fingerprint id_b) out_a out_b)
                           (\<lambda>(route, peer_a, peer_b) sent.
                             (case sl_into_std l of
                                Some e \<Rightarrow> Inl (FromIo e)
                              | None \<Rightarrow>
                                  (case (endpoint_from_socket (fst (sl_bindings l)) local_a,
                                         endpoint_from_socket (snd (sl_bindings l)) local_b) of
                                     (Inl e, _) \<Rightarrow> Inl (FromCore e)
                                   | (Inr ep_a, Inl e) \<Rightarrow> Inl (FromCore e)
                                   | (Inr ep_a, Inr ep_b) \<Rightarrow>
                                       map_sum id (Pair route) (loop_race l id_a id_b peer_a peer_b)), sent)) [])))))"

section \<open>What they tell\<close>

text \<open>
  The diagnosis foretells what pairing will do: if both find the same answers, the session asks the
  rendezvous server for the relay exactly when the NAT was classified symmetric.
\<close>

lemma diagnosis_foretells_relay:
  assumes "run_stun_only g None = Some (Inr (public, kind))"
    and "tv_lookup env = dg_lookup g" "rv_stun_servers ps = DEFAULT_STUN_SERVERS"
    and "\<And>a i. tv_query env a = dg_query g i a"
    and "\<not> is_loopback (sa_ip (rv_rendezvous ps))" "\<not> rv_force_relay ps"
    and "public_endpoint env ps = Some (Inr (announced_addr, want_relay))"
  shows "want_relay \<longleftrightarrow> kind = Symmetric" "kind \<noteq> Symmetric \<Longrightarrow> announced_addr = public \<and> kind = Cone public"
proof -
  obtain a b where a: "first_address (dg_lookup g) (fst DEFAULT_STUN_SERVERS) = Inr a"
      "first_address (dg_lookup g) (snd DEFAULT_STUN_SERVERS) = Inr b"
    using assms(1) by (auto simp: run_stun_only_def diagnosis_servers_def split: sum.splits)
  then have r: "resolve_first env (fst (rv_stun_servers ps)) = Inr a" "resolve_first env (snd (rv_stun_servers ps)) = Inr b"
    using assms(2,3) by (auto simp: resolve_first_def first_address_def split: sum.splits list.splits)
  have q: "diagnose_query g i s = run_query env s" for i s
    using assms(4) [of s i] by (simp add: diagnose_query_def run_query_def)
  obtain map_b where d: "run_query env a = Some (Inr public)" "run_query env b = Some map_b"
      "classify_nat (Inr public) map_b = Inr kind"
    using assms(1) a by (auto simp: run_stun_only_def diagnosis_servers_def q map_sum_def split: sum.splits option.splits)
  have p: "rbind (classify_nat (Inr public) map_b) (\<lambda>kind. case kind of
        Cone public \<Rightarrow> Inr (public, False)
      | Symmetric \<Rightarrow> rbind (local_endpoint env) (\<lambda>local. Inr (local, True))) = Inr (announced_addr, want_relay)"
    using assms(5-7) r d(1,2) by (simp add: public_endpoint_def)
  then show "want_relay \<longleftrightarrow> kind = Symmetric"
    using d(3) by (cases kind) (auto simp: rbind_def split: sum.splits)
  show "announced_addr = public \<and> kind = Cone public" if "kind \<noteq> Symmetric"
    using that p d(3) by (cases kind) (auto simp: rbind_def classify_nat_def split: sum.splits if_splits)
qed

lemma hello_rounds_sent:
  "hello_rounds hello a b is sent = (Inr u, sent') \<Longrightarrow> sent' = sent @ concat (replicate (length is) [a, b])"
  by (induction hello a b "is" arbitrary: sent rule: hello_rounds.induct) (fastforce split: option.splits)+

lemma loop_route_sent:
  assumes "loop_route l fp_a fp_b out_a out_b [] = (Inr (route, peer_a, peer_b), sent)"
  shows "case (out_a, out_b) of
     (Direct p, Direct q) \<Rightarrow> route = ''direct'' \<and> sent = [] \<and> peer_a = pi_endpoint p \<and> peer_b = pi_endpoint q
   | (Relay p, Relay q) \<Rightarrow> route = ''relay'' \<and> peer_a = ri_relay_endpoint p \<and> peer_b = ri_relay_endpoint q \<and>
       (\<exists>x y. sent = [x, y, x, y, x, y] \<and> fst x = ri_relay_endpoint p \<and> fst y = ri_relay_endpoint q \<and>
          try_decode (snd x) = Some \<lparr> rh_token = ri_session_token p, rh_fingerprint = fp_a \<rparr> \<and>
          try_decode (snd y) = Some \<lparr> rh_token = ri_session_token q, rh_fingerprint = fp_b \<rparr>)
   | _ \<Rightarrow> False"
  using assms
  by (cases out_a; cases out_b)
     (auto simp: loop_route_def andthen_eq_Inr hello.dec_enc numeral_3_eq_3 simp del: hello_rounds.simps dest!: hello_rounds_sent)

lemma loop_race_ends:
  assumes "loop_race l id_a id_b peer_a peer_b = Inr (a, b)"
  shows "(cn_peer_fingerprint a = Some (id_fingerprint id_b) \<or> cn_peer_addr a = peer_a) \<and>
    (cn_peer_fingerprint b = Some (id_fingerprint id_a) \<or> cn_peer_addr b = peer_b)"
  using assms by (auto simp: loop_race_def Let_def split: sum.splits dest!: race_outcome)

text \<open>
  A self-loop test that succeeds says what it claims: both peers got the same kind of
  answer from the server for the same generated code; each has a connection that was dialled to the
  other's certificate or came in from the address the server named; on the relay route six hellos went
  out, three of each peer, which the relay decodes as hellos of these certificates for their sessions.
\<close>

lemma self_loop_honest:
  assumes "run_self_loop_punch l host = (Inr (route, a, b), sent)"
  shows "\<exists>id_a id_b addr local_a local_b out_a out_b.
    generate (fst (sl_libs l)) = Inr id_a \<and> generate (snd (sl_libs l)) = Inr id_b \<and>
    register_full (sl_rmp l) (fst (sl_tcp l addr))
      (loop_request (generate_code (sl_rng l)) local_a (id_fingerprint id_a) loop_device_a) = Inr out_a \<and>
    register_full (sl_rmp l) (snd (sl_tcp l addr))
      (loop_request (generate_code (sl_rng l)) local_b (id_fingerprint id_b) loop_device_b) = Inr out_b \<and>
    (case (out_a, out_b) of
       (Direct p, Direct q) \<Rightarrow> route = ''direct'' \<and> sent = [] \<and>
         (cn_peer_fingerprint a = Some (id_fingerprint id_b) \<or> cn_peer_addr a = pi_endpoint p) \<and>
         (cn_peer_fingerprint b = Some (id_fingerprint id_a) \<or> cn_peer_addr b = pi_endpoint q)
     | (Relay p, Relay q) \<Rightarrow> route = ''relay'' \<and>
         (\<exists>x y. sent = [x, y, x, y, x, y] \<and> fst x = ri_relay_endpoint p \<and> fst y = ri_relay_endpoint q \<and>
            try_decode (snd x) = Some \<lparr> rh_token = ri_session_token p, rh_fingerprint = id_fingerprint id_a \<rparr> \<and>
            try_decode (snd y) = Some \<lparr> rh_token = ri_session_token q, rh_fingerprint = id_fingerprint id_b \<rparr>) \<and>
         (cn_peer_fingerprint a = Some (id_fingerprint id_b) \<or> cn_peer_addr a = ri_relay_endpoint p) \<and>
         (cn_peer_fingerprint b = Some (id_fingerprint id_a) \<or> cn_peer_addr b = ri_relay_endpoint q)
     | _ \<Rightarrow> False)"
proof -
  obtain id_a id_b addr local_a local_b out_a out_b where s:
      "generate (fst (sl_libs l)) = Inr id_a" "generate (snd (sl_libs l)) = Inr id_b"
      "register_full (sl_rmp l) (fst (sl_tcp l addr))
        (loop_request (generate_code (sl_rng l)) local_a (id_fingerprint id_a) loop_device_a) = Inr out_a"
      "register_full (sl_rmp l) (snd (sl_tcp l addr))
        (loop_request (generate_code (sl_rng l)) local_b (id_fingerprint id_b) loop_device_b) = Inr out_b"
    and run: "\<exists>peer_a peer_b. loop_route l (id_fingerprint id_a) (id_fingerprint id_b) out_a out_b [] = (Inr (route, peer_a, peer_b), sent) \<and>
      loop_race l id_a id_b peer_a peer_b = Inr (a, b)"
    using assms
    by (auto simp: run_self_loop_punch_def Let_def andthen_eq_Inr map_sum_def split: sum.splits option.splits prod.splits)
  obtain peer_a peer_b where r: "loop_route l (id_fingerprint id_a) (id_fingerprint id_b) out_a out_b [] = (Inr (route, peer_a, peer_b), sent)"
      "loop_race l id_a id_b peer_a peer_b = Inr (a, b)" using run by blast
  note ends = loop_race_ends [OF r(2)]
  show ?thesis
  proof (intro exI conjI)
    show "case (out_a, out_b) of
       (Direct p, Direct q) \<Rightarrow> route = ''direct'' \<and> sent = [] \<and>
         (cn_peer_fingerprint a = Some (id_fingerprint id_b) \<or> cn_peer_addr a = pi_endpoint p) \<and>
         (cn_peer_fingerprint b = Some (id_fingerprint id_a) \<or> cn_peer_addr b = pi_endpoint q)
     | (Relay p, Relay q) \<Rightarrow> route = ''relay'' \<and>
         (\<exists>x y. sent = [x, y, x, y, x, y] \<and> fst x = ri_relay_endpoint p \<and> fst y = ri_relay_endpoint q \<and>
            try_decode (snd x) = Some \<lparr> rh_token = ri_session_token p, rh_fingerprint = id_fingerprint id_a \<rparr> \<and>
            try_decode (snd y) = Some \<lparr> rh_token = ri_session_token q, rh_fingerprint = id_fingerprint id_b \<rparr>) \<and>
         (cn_peer_fingerprint a = Some (id_fingerprint id_b) \<or> cn_peer_addr a = ri_relay_endpoint p) \<and>
         (cn_peer_fingerprint b = Some (id_fingerprint id_a) \<or> cn_peer_addr b = ri_relay_endpoint q)
     | _ \<Rightarrow> False"
      using loop_route_sent [OF r(1)] ends by (auto split: match_outcome.splits)
  qed (rule s)+
qed

text \<open>A server that matches both peers directly, and dials that succeed after a second.\<close>

definition demo_loop :: self_loop where
  "demo_loop = \<lparr> sl_lookup = (\<lambda>h. Inr [SocketAddr (V4 1) 1]), sl_addr_text = ce_addr_text demo_cli, sl_rng = [0, 1, 2, 3, 4, 5],
     sl_libs = (demo_identity_libs, demo_identity_libs), sl_sockets = Inr (SocketAddr (V4 1) 2, SocketAddr (V4 1) 3),
     sl_rmp = \<lparr> rz_to_vec = (\<lambda>m. Inr [0]), rz_from_slice = (\<lambda>b. Inr (Match (SocketAddr (V4 9) 9) 2 7)) \<rparr>,
     sl_tcp = (\<lambda>a. let c = Inr \<lparr> tc_send = \<lparr> wr_out = [], wr_fail = None \<rparr>,
        tc_recv = \<lparr> rd_bytes = rz_frame_of [1], rd_end = None \<rparr>, tc_late = False \<rparr> in (c, c)),
     sl_hello = (\<lambda>i. None), sl_into_std = None, sl_bindings = (demo_binding, demo_binding),
     sl_nets = (let nt = \<lparr> pn_dial = (\<lambda>a. Some (1, Established (demo_quinn 2 a []))), pn_incoming = [], pn_prefers_connect = True \<rparr>
        in (nt, nt)),
     sl_first_fails = True, sl_timer_first = False \<rparr>"

lemma demo_loop_registered:
  "register_full (sl_rmp demo_loop) (fst (sl_tcp demo_loop a)) req = Inr (Direct \<lparr> pi_endpoint = SocketAddr (V4 9) 9, pi_fingerprint = 2, pi_device_id = 7 \<rparr>)"
  "snd (sl_tcp demo_loop a) = fst (sl_tcp demo_loop a)"
proof -
  have fit: "rz_fits [0]" "rz_fits [1]" by (simp_all add: rz_fits_def MAX_FRAME_BYTES_def)
  have w: "rz_write_message (rz_to_vec (sl_rmp demo_loop)) (Register req) \<lparr> wr_out = [], wr_fail = None \<rparr> =
      (Inr (), \<lparr> wr_out = rz_frame_of [0], wr_fail = None \<rparr>)"
    using rz_write_fits [of "sl_rmp demo_loop" "Register req" "[0]" "[]"] fit by (simp add: demo_loop_def)
  have r: "rz_read_message (rz_from_slice (sl_rmp demo_loop)) \<lparr> rd_bytes = rz_frame_of [1], rd_end = None \<rparr> =
      (Inr (Match (SocketAddr (V4 9) 9) 2 7), \<lparr> rd_bytes = [], rd_end = None \<rparr>)"
    using rz_read_frame_frame_of [of "[1]" "[]" None] fit
    by (simp add: rz_read_message_def andthen_apply demo_loop_def)
  show "register_full (sl_rmp demo_loop) (fst (sl_tcp demo_loop a)) req = Inr (Direct \<lparr> pi_endpoint = SocketAddr (V4 9) 9, pi_fingerprint = 2, pi_device_id = 7 \<rparr>)"
    using w r by (simp add: register_full_def register_on_def demo_loop_def Let_def)
  show "snd (sl_tcp demo_loop a) = fst (sl_tcp demo_loop a)" by (simp add: demo_loop_def Let_def)
qed

lemma self_loop_honest_witness:
  "\<exists>a b. run_self_loop_punch demo_loop ''host'' = (Inr (''direct'', a, b), []) \<and>
     (cn_peer_fingerprint a = Some 2 \<or> cn_peer_addr a = SocketAddr (V4 9) 9)"
proof -
  let ?id = "\<lparr> id_cert_der = [7, 1], id_key_der = [7], id_fingerprint = 2 \<rparr>"
  have g: "generate demo_identity_libs = Inr ?id"
    by (simp add: generate_def from_key_pair_def identity_of_def demo_identity_libs_def fingerprint_of_def)
  have race: "race_connect_and_accept demo_identity_libs show_sa
      \<lparr> pn_dial = (\<lambda>a. Some (1, Established (demo_quinn 2 a []))), pn_incoming = [], pn_prefers_connect = True \<rparr> addr 2 d e =
    Inr (demo_connection 2 addr PROTOCOL_MAGIC [])" for show_sa addr d e
    using demo_dialled [of 2 addr "[]"]
    by (simp add: race_connect_and_accept_def connect_branch_def select2_def PUNCH_TIMEOUT_def SECONDARY_CONNECT_DELAY_def)
  have sel: "sl_libs demo_loop = (demo_identity_libs, demo_identity_libs)"
      "sl_sockets demo_loop = Inr (SocketAddr (V4 1) 2, SocketAddr (V4 1) 3)" "sl_into_std demo_loop = None"
      "sl_bindings demo_loop = (demo_binding, demo_binding)"
      "fst (sl_nets demo_loop) = \<lparr> pn_dial = (\<lambda>a. Some (1, Established (demo_quinn 2 a []))), pn_incoming = [], pn_prefers_connect = True \<rparr>"
      "snd (sl_nets demo_loop) = fst (sl_nets demo_loop)"
    by (simp_all add: demo_loop_def Let_def)
  have addr: "self_loop_address demo_loop ''host'' = Inr (SocketAddr (V4 1) 1)"
    by (simp add: self_loop_address_def first_address_def demo_loop_def)
  have lr: "loop_race demo_loop ?id ?id p q = Inr (demo_connection 2 p PROTOCOL_MAGIC [], demo_connection 2 q PROTOCOL_MAGIC [])" for p q
    by (simp add: loop_race_def sel race)
  have ep: "endpoint_from_socket demo_binding x = Inr x" for x
    by (simp add: endpoint_from_socket_def demo_binding_def)
  have run: "\<exists>a b. run_self_loop_punch demo_loop ''host'' = (Inr (''direct'', a, b), [])"
    by (simp add: run_self_loop_punch_def addr sel g demo_loop_registered loop_route_def andthen_apply lr ep)
  then obtain a b where ab: "run_self_loop_punch demo_loop ''host'' = (Inr (''direct'', a, b), [])" by blast
  from self_loop_honest [OF ab] have "cn_peer_fingerprint a = Some 2 \<or> cn_peer_addr a = SocketAddr (V4 9) 9"
    using demo_loop_registered g by (auto simp: demo_loop_def split: match_outcome.splits)
  with ab show ?thesis by blast
qed

end
