(* ===== verification/Cli_Main.thy ===== *)
theory Cli_Main
  imports Gui_App Cli_Send History_Views Diagnostics
begin

text \<open>
  The entry point of the command line, \<open>p2p-cli/src/lib.rs\<close>: the commands as the parser gives them,
  which of them start the graphical interface, and the handler each of the others goes to.
\<close>

datatype command =
    SendCommand string "string option" session_params transfer_params
  | ReceiveCommand string bool session_params
  | DiscoverCommand u64 u16
  | NatTestCommand "string option" "string option"
  | ResumeCommand string string "string option" u32 session_params
  | HistoryCommand nat "string option" bool bool
  | GuiCommand

record cli_args =
  ca_command :: "command option"
  ca_verbosity :: string
  ca_identity_dir :: "string option"

section \<open>The level of the log\<close>

datatype level_filter = OFF | ERROR | WARN | INFO | DEBUG | TRACE

text \<open>The level, and the notice for one that is none.\<close>

definition log_level :: "string \<Rightarrow> level_filter \<times> string option" where
  "log_level verbosity =
     (let v = to_lower verbosity in
      if v = ''off'' then (OFF, None)
      else if v = ''error'' then (ERROR, None)
      else if v = ''warn'' then (WARN, None)
      else if v = ''info'' then (INFO, None)
      else if v = ''debug'' then (DEBUG, None)
      else if v = ''trace'' then (TRACE, None)
      else (INFO, Some (''Invalid verbosity level '' @ [CHR 0x27] @ verbosity @ [CHR 0x27] @ '', using '' @
                        [CHR 0x27] @ ''info'' @ [CHR 0x27])))"

section \<open>The dispatch\<close>

text \<open>What a process finds: the surroundings of each command, the identity files, and the user's files.\<close>

record process_env =
  pr_fuel :: nat
  pr_send :: "string \<Rightarrow> send_cmd"
  pr_receive :: receive_env
  pr_show_fp :: "fingerprint \<Rightarrow> string"
  pr_name_id :: uuid
  pr_diagnosis :: diagnosis
  pr_self_loop :: self_loop
  pr_texts :: record_texts
  pr_history_json :: json
  pr_home :: "string option"
  pr_identity :: texts
  pr_files :: "string \<Rightarrow> string option"
  pr_disk :: disk
  pr_store :: fstate
  pr_gui_device :: uuid

datatype command_end =
    SendEnd "(cmd_end \<times> user_files) option"
  | ReceiveEnd "loop_end \<times> receive_world option"
  | DiscoverEnd "string list outcome"
  | StunEnd "(socket_addr \<times> nat_class) outcome"
  | SelfLoopEnd "(cli_error + string \<times> connection \<times> connection) \<times> (socket_addr \<times> bytes) list"
  | ResumeEnd "(cmd_end \<times> send_world option) option"
  | HistoryEnd "string list \<times> (cli_error + unit)"
  | GuiStarted app_state
  | ExitOne
  | Unreachable

definition handle_nat_test :: "process_env \<Rightarrow> string option \<Rightarrow> string option \<Rightarrow> command_end" where
  "handle_nat_test env stun_server rendezvous =
     (case rendezvous of
        Some host \<Rightarrow> SelfLoopEnd (run_self_loop_punch (pr_self_loop env) host)
      | None \<Rightarrow> StunEnd (run_stun_only (pr_diagnosis env) stun_server))"

definition run_cli_async :: "process_env \<Rightarrow> cli_args \<Rightarrow> command_end" where
  "run_cli_async env cli =
     (let identity_dir = ca_identity_dir cli in
      case ca_command cli of
        None \<Rightarrow> Unreachable
      | Some GuiCommand \<Rightarrow> Unreachable
      | Some (SendCommand path state_dir session transfer) \<Rightarrow>
          SendEnd (handle_send (pr_fuel env) (pr_send env path) state_dir session transfer identity_dir (pr_identity env)
            (pr_files env, pr_store env))
      | Some (ReceiveCommand output_dir auto_accept session) \<Rightarrow>
          ReceiveEnd (handle_receive (pr_fuel env) (pr_receive env) output_dir auto_accept session identity_dir (pr_identity env)
            (pr_disk env) (pr_store env))
      | Some (DiscoverCommand timeout port) \<Rightarrow>
          DiscoverEnd (handle_discover (rl_cli (pr_receive env)) (pr_show_fp env) 0 (pr_name_id env) port identity_dir (pr_identity env))
      | Some (NatTestCommand stun_server rendezvous) \<Rightarrow> handle_nat_test env stun_server rendezvous
      | Some (ResumeCommand transfer_id path state_dir max_reconnect_attempts session) \<Rightarrow>
          ResumeEnd (handle_resume (pr_fuel env) (pr_send env path) transfer_id state_dir max_reconnect_attempts session
            identity_dir (pr_identity env) (pr_files env))
      | Some (HistoryCommand limit direction completed failed) \<Rightarrow>
          HistoryEnd (handle_history (pr_texts env) (pr_history_json env) (history_default_path (pr_home env)) (pr_store env)
            limit direction completed failed))"

text \<open>With the graphical interface built in, no command starts it; without, it is an error.\<close>

definition run_cli_sync :: "bool \<Rightarrow> process_env \<Rightarrow> cli_args \<Rightarrow> command_end" where
  "run_cli_sync gui_feature env cli =
     (if ca_command cli = None \<or> ca_command cli = Some GuiCommand
      then (if gui_feature then GuiStarted (app_new (pr_gui_device env)) else ExitOne)
      else run_cli_async env cli)"

text \<open>The arms marked unreachable are.\<close>

lemma dispatch_reaches: "run_cli_sync gui_feature env cli \<noteq> Unreachable"
  by (auto simp: run_cli_sync_def run_cli_async_def handle_nat_test_def Let_def split: option.splits command.splits)

text \<open>The levels are the six names, in any case of letters.\<close>

lemma log_level_notice:
  "snd (log_level v) = None \<longleftrightarrow> to_lower v \<in> {''off'', ''error'', ''warn'', ''info'', ''debug'', ''trace''}"
  by (auto simp: log_level_def Let_def)

end
