(* ===== verification/Checksum.thy ===== *)
theory Checksum
  imports P2P_Error
begin

text \<open>The helpers of \<open>verification.rs\<close>; the digest and its hexadecimal text are parameters.\<close>

definition verify_sha256 :: "(bytes \<Rightarrow> 256 word) \<Rightarrow> (256 word \<Rightarrow> string) \<Rightarrow> bytes \<Rightarrow> 256 word \<Rightarrow> unit result" where
  "verify_sha256 sha256 hex_encode data expected =
     (let actual = sha256 data in
      if actual = expected then Inr ()
      else Inl (Verification (''SHA256 mismatch: expected '' @ hex_encode expected @ '', got '' @ hex_encode actual)))"

text \<open>It accepts exactly the data with the expected digest; without collisions, exactly the data meant.\<close>

lemma verify_sha256_Inr: "verify_sha256 sha hx data expected = Inr u \<longleftrightarrow> sha data = expected"
  by (simp add: verify_sha256_def Let_def)

lemma verify_sha256_exact:
  "inj sha \<Longrightarrow> verify_sha256 sha hx data (sha original) = Inr u \<longleftrightarrow> data = original"
  by (simp add: verify_sha256_Inr inj_eq)

end
